(* ===== verification/Prelude.thy ===== *)
theory Prelude
  imports Main
begin

text \<open>
  Shared vocabulary of the Notedly development: the JavaScript values that flow between
  the session middleware, the Apollo context function and the resolvers, the
  ECMAScript operations the source applies to them (\<open>||\<close>, \<open>!\<close>, property access,
  object destructuring), the GraphQL error taxonomy of the spec (section 7), and the
  generic list lemmas that the component theories share.
\<close>

named_theorems js_simps "evaluation rules of the modelled ECMAScript operations"
named_theorems store_simps "equations of the spec-modelled note store"

section \<open>JavaScript values\<close>

text \<open>
  A JavaScript value as far as the source inspects it. \<open>JOpaque\<close> stands for a host
  object whose properties the modelled code never reads (the Mongoose \<open>models\<close>
  module); its tag is only there to tell two such objects apart.
\<close>

datatype jsval =
    JUndef
  | JNull
  | JBool bool
  | JNum int
  | JStr string
  | JObj "(string \<times> jsval) list"
  | JOpaque string

datatype js_error = TypeError string

text \<open>ECMAScript \<open>ToBoolean\<close> (NaN is not a value of the model).\<close>

fun truthy :: "jsval \<Rightarrow> bool" where
  "truthy JUndef = False"
| "truthy JNull = False"
| "truthy (JBool b) = b"
| "truthy (JNum n) = (n \<noteq> 0)"
| "truthy (JStr s) = (s \<noteq> [])"
| "truthy (JObj ps) = True"
| "truthy (JOpaque t) = True"

text \<open>\<open>a || b\<close>: the left operand when it is truthy, the right one otherwise.\<close>

definition js_or :: "jsval \<Rightarrow> jsval \<Rightarrow> jsval" where
  "js_or a b = (if truthy a then a else b)"

text \<open>
  Property access \<open>v.k\<close>: a missing own property reads as \<open>undefined\<close>; reading a
  property of \<open>undefined\<close> or \<open>null\<close> throws a \<open>TypeError\<close>. Primitive strings,
  numbers and booleans have no own property that the source reads (\<open>id\<close>,
  \<open>user\<close>, \<open>db\<close>), so they read as \<open>undefined\<close> as well.
\<close>

fun js_get :: "jsval \<Rightarrow> string \<Rightarrow> js_error + jsval" where
  "js_get JUndef k = Inl (TypeError k)"
| "js_get JNull k = Inl (TypeError k)"
| "js_get (JObj ps) k = Inr (case map_of ps k of None \<Rightarrow> JUndef | Some v \<Rightarrow> v)"
| "js_get v k = Inr JUndef"

text \<open>\<open>Object.keys(v)\<close> of an object literal: its own property names, in order.\<close>

fun js_keys :: "jsval \<Rightarrow> string list" where
  "js_keys (JObj ps) = map fst ps"
| "js_keys v = []"

text \<open>
  Destructuring of a parameter object, \<open>({ a, b }) => ...\<close>: each name is read with
  the property access above; the first read that throws aborts the call.
\<close>

fun js_destructure :: "jsval \<Rightarrow> string list \<Rightarrow> js_error + jsval list" where
  "js_destructure v [] = Inr []"
| "js_destructure v (k # ks) =
     (case js_get v k of
        Inl e \<Rightarrow> Inl e
      | Inr x \<Rightarrow> (case js_destructure v ks of Inl e \<Rightarrow> Inl e | Inr xs \<Rightarrow> Inr (x # xs)))"

section \<open>GraphQL errors\<close>

text \<open>
  The error taxonomy of the spec, section 7, plus the failures the JavaScript runtime
  and the GraphQL executor add: an exception thrown by a resolver, a \<open>null\<close> returned
  for a field whose type is non-null, and an argument value that does not coerce to
  the argument's type.
\<close>

datatype gql_error =
    ValidationRejected string
  | NotFound
  | DanglingReference
  | ResolverThrew js_error
  | NonNullViolation string
  | BadArgument string
  | Unauthenticated

lemma js_or_truthy [js_simps]:
  "truthy a \<Longrightarrow> js_or a b = a"
  "\<not> truthy a \<Longrightarrow> js_or a b = b"
  by (simp_all add: js_or_def)

lemma truthy_js_or [js_simps]: "truthy (js_or a b) \<longleftrightarrow> truthy a \<or> truthy b"
  by (simp add: js_or_def)

lemma js_get_obj [js_simps]:
  "js_get (JObj ps) k = Inr (case map_of ps k of None \<Rightarrow> JUndef | Some v \<Rightarrow> v)"
  by simp

lemma js_get_Inl_iff: "(\<exists>e. js_get v k = Inl e) \<longleftrightarrow> v = JUndef \<or> v = JNull"
  by (cases v) auto

lemma js_get_truthy [js_simps]: "truthy v \<Longrightarrow> \<exists>x. js_get v k = Inr x"
  by (cases v) auto

lemma js_destructure_obj [js_simps]:
  "js_destructure (JObj ps) ks =
     Inr (map (\<lambda>k. case map_of ps k of None \<Rightarrow> JUndef | Some v \<Rightarrow> v) ks)"
  by (induction ks) auto

section \<open>Shared lemmas\<close>

text \<open>Reading the new state off an operation's (result, state) pair.\<close>

lemma snd_eqD: "p = (a, b) \<Longrightarrow> snd p = b"
  by simp

lemma find_Some_in_set: "find P xs = Some x \<Longrightarrow> x \<in> set xs \<and> P x"
  by (induction xs) (auto split: if_splits)

lemma find_None_iff': "find P xs = None \<longleftrightarrow> (\<forall>x \<in> set xs. \<not> P x)"
  by (induction xs) auto

lemma length_filter_not_in:
  "\<forall>x \<in> set xs. \<not> P x \<Longrightarrow> length (filter (\<lambda>x. \<not> P x) xs) = length xs"
  by (induction xs) auto

end
