(* ===== verification/NoteStore.thy ===== *)
theory NoteStore
  imports Prelude
begin

text \<open>
  The note collection that \<open>src/api/resolvers/Mutation.js\<close> reaches through
  \<open>require('../models/note')\<close>. That module is not under \<open>src/\<close>; its operations
  are modelled from the spec (sections 3, 4.4 and 6: create, update, delete and lookup
  of notes, id generation). The store is the list of stored notes in insertion order
  (MongoDB's natural order), the next id to hand out, a counter of note-model calls,
  so that "no store access happened" is a statement about the state, and the users
  collection that the \<open>Note.author\<close> and \<open>Note.favoritedBy\<close> fields read. Every operation
  takes the \<open>db\<close> handle the resolver passes on and, like the spec's data store
  capability, acts on the process-wide collection whatever that handle is.
\<close>

type_synonym note_id = nat
type_synonym renderer = "string \<Rightarrow> string"

section \<open>Data\<close>

text \<open>The \<open>Note\<close> type of \<open>src/api/schema.js\<close> as the store keeps it.\<close>

record Note =
  noteId :: note_id
  content :: string
  htmlContent :: string
  author :: jsval
  favoritedBy :: "jsval list"
  createdAt :: nat
  updatedAt :: nat

text \<open>
  The \<open>User\<close> type of \<open>schema.js\<close> as the users collection keeps it; users are created
  by the authentication subsystem, outside this core (spec section 3).
\<close>

record User =
  userId :: jsval
  userName :: jsval
  userAvatar :: jsval

record store =
  noteList :: "Note list"
  nextId :: note_id
  accesses :: nat
  userList :: "User list"

definition empty_store :: store where
  "empty_store = \<lparr>noteList = [], nextId = 0, accesses = 0, userList = []\<rparr>"

definition note_find :: "note_id \<Rightarrow> Note list \<Rightarrow> Note option" where
  "note_find i ns = find (\<lambda>n. noteId n = i) ns"

definition touch_store :: "store \<Rightarrow> store" where
  "touch_store st = st\<lparr>accesses := Suc (accesses st)\<rparr>"

section \<open>Operations of \<open>models/note\<close>\<close>

text \<open>\<open>NoteModel.insertNote(args, html, authorId, db)\<close>: a fresh id, empty favourites.\<close>

definition insertNote ::
  "string \<Rightarrow> string \<Rightarrow> jsval \<Rightarrow> jsval \<Rightarrow> nat \<Rightarrow> store \<Rightarrow> Note \<times> store" where
  "insertNote c html uid db now st =
     (let n = \<lparr>noteId = nextId st, content = c, htmlContent = html, author = uid,
               favoritedBy = [], createdAt = now, updatedAt = now\<rparr>
      in (n, (touch_store st)\<lparr>noteList := noteList st @ [n], nextId := Suc (nextId st)\<rparr>))"

text \<open>\<open>NoteModel.updateNote(id, content, html, db)\<close>: \<open>NotFound\<close> when the id does not resolve.\<close>

definition updateNote ::
  "note_id \<Rightarrow> string \<Rightarrow> string \<Rightarrow> jsval \<Rightarrow> nat \<Rightarrow> store \<Rightarrow> (gql_error + Note) \<times> store" where
  "updateNote i c html db now st =
     (case note_find i (noteList st) of
        None \<Rightarrow> (Inl NotFound, touch_store st)
      | Some n \<Rightarrow>
          (let n' = n\<lparr>content := c, htmlContent := html, updatedAt := now\<rparr>
           in (Inr n', (touch_store st)\<lparr>noteList := map (\<lambda>m. if noteId m = i then n' else m) (noteList st)\<rparr>)))"

text \<open>\<open>NoteModel.deleteNote(id, db)\<close>: \<open>true\<close> when a note was removed, \<open>false\<close> otherwise.\<close>

definition deleteNote :: "note_id \<Rightarrow> jsval \<Rightarrow> store \<Rightarrow> bool \<times> store" where
  "deleteNote i db st =
     (if note_find i (noteList st) = None then (False, touch_store st)
      else (True, (touch_store st)\<lparr>noteList := filter (\<lambda>n. noteId n \<noteq> i) (noteList st)\<rparr>))"

text \<open>The reads behind the \<open>Query\<close> fields (spec 4.4): by id, all, by author.\<close>

definition findNote :: "note_id \<Rightarrow> store \<Rightarrow> Note option \<times> store" where
  "findNote i st = (note_find i (noteList st), touch_store st)"

definition findAllNotes :: "store \<Rightarrow> Note list \<times> store" where
  "findAllNotes st = (rev (noteList st), touch_store st)"

definition findNotesBy :: "jsval \<Rightarrow> store \<Rightarrow> Note list \<times> store" where
  "findNotesBy uid st = (filter (\<lambda>n. author n = uid) (noteList st), touch_store st)"

text \<open>
  The users collection's insert, which the auth subsystem uses when an account is
  created (spec 3: users are created out of band; spec 6: CRUD on the User collection).
  A user whose id is already stored is refused, as the collection's unique id index does.
\<close>

definition createUser :: "User \<Rightarrow> store \<Rightarrow> bool \<times> store" where
  "createUser u st =
     (if find (\<lambda>v. userId v = userId u) (userList st) = None
      then (True, (touch_store st)\<lparr>userList := userList st @ [u]\<rparr>)
      else (False, touch_store st))"

section \<open>Invariants and the abstract store\<close>

text \<open>
  The sanitisation invariant of the spec (section 3): every stored \<open>htmlContent\<close> is
  the render of its \<open>content\<close>. The id invariant: ids are distinct and below the
  next id, so the next insertion cannot collide.
\<close>

definition html_inv :: "renderer \<Rightarrow> store \<Rightarrow> bool" where
  "html_inv md st \<longleftrightarrow> (\<forall>n \<in> set (noteList st). htmlContent n = md (content n))"

definition ids_inv :: "store \<Rightarrow> bool" where
  "ids_inv st \<longleftrightarrow> distinct (map noteId (noteList st)) \<and> (\<forall>n \<in> set (noteList st). noteId n < nextId st)"

text \<open>The abstraction of the store: the map from ids to notes that the spec's data store is.\<close>

definition note_map :: "store \<Rightarrow> note_id \<rightharpoonup> Note" where
  "note_map st = map_of (map (\<lambda>n. (noteId n, n)) (noteList st))"

lemmas store_defs [store_simps] =
  insertNote_def updateNote_def deleteNote_def findNote_def findAllNotes_def
  findNotesBy_def createUser_def touch_store_def

section \<open>Lemmas\<close>

text \<open>The note operations leave the users collection alone.\<close>

lemma note_ops_users [simp]:
  "userList (snd (insertNote c html uid db now st)) = userList st"
  "userList (snd (updateNote i c html db now st)) = userList st"
  "userList (snd (deleteNote i db st)) = userList st"
  by (simp_all add: insertNote_def updateNote_def deleteNote_def touch_store_def Let_def split: option.splits)

lemma note_find_Some: "note_find i ns = Some n \<Longrightarrow> n \<in> set ns \<and> noteId n = i"
  unfolding note_find_def by (auto dest: find_Some_in_set)

lemma note_find_None: "note_find i ns = None \<longleftrightarrow> (\<forall>n \<in> set ns. noteId n \<noteq> i)"
  unfolding note_find_def by (simp add: find_None_iff')

lemma note_find_map_of: "note_find i ns = map_of (map (\<lambda>n. (noteId n, n)) ns) i"
  unfolding note_find_def by (induction ns) auto

lemma note_map_find: "note_map st i = note_find i (noteList st)"
  by (simp add: note_map_def note_find_map_of)

lemma noteList_touch [simp]: "noteList (touch_store st) = noteList st"
  and nextId_touch [simp]: "nextId (touch_store st) = nextId st"
  by (simp_all add: touch_store_def)

lemma html_inv_touch [simp]: "html_inv md (touch_store st) = html_inv md st"
  and ids_inv_touch [simp]: "ids_inv (touch_store st) = ids_inv st"
  by (simp_all add: html_inv_def ids_inv_def)

lemma note_find_append:
  "note_find i (ns @ [n]) =
     (case note_find i ns of None \<Rightarrow> (if noteId n = i then Some n else None) | Some m \<Rightarrow> Some m)"
  unfolding note_find_def by (induction ns) auto

subsection \<open>Each operation keeps the invariants\<close>

lemma insertNote_html_inv:
  "html_inv md st \<Longrightarrow> html = md c \<Longrightarrow> html_inv md (snd (insertNote c html uid db now st))"
  by (simp add: html_inv_def insertNote_def touch_store_def Let_def)

lemma updateNote_html_inv:
  "html_inv md st \<Longrightarrow> html = md c \<Longrightarrow> html_inv md (snd (updateNote i c html db now st))"
  by (auto simp: html_inv_def updateNote_def touch_store_def Let_def split: option.splits)

lemma deleteNote_html_inv: "html_inv md st \<Longrightarrow> html_inv md (snd (deleteNote i db st))"
  by (auto simp: html_inv_def deleteNote_def touch_store_def)

lemma insertNote_ids_inv: "ids_inv st \<Longrightarrow> ids_inv (snd (insertNote c html uid db now st))"
  by (fastforce simp: ids_inv_def insertNote_def touch_store_def Let_def)

lemma noteId_replace:
  "noteId n' = i \<Longrightarrow> noteId \<circ> (\<lambda>m. if noteId m = i then n' else m) = noteId"
  by (auto simp: fun_eq_iff)

lemma updateNote_ids_inv: "ids_inv st \<Longrightarrow> ids_inv (snd (updateNote i c html db now st))"
proof -
  assume inv: "ids_inv st"
  show ?thesis
  proof (cases "note_find i (noteList st)")
    case None
    with inv show ?thesis by (simp add: updateNote_def)
  next
    case (Some n)
    then have "noteId n = i" and "n \<in> set (noteList st)" by (auto dest: note_find_Some)
    with inv Some show ?thesis
      by (auto simp: ids_inv_def updateNote_def touch_store_def Let_def noteId_replace)
  qed
qed

lemma deleteNote_ids_inv: "ids_inv st \<Longrightarrow> ids_inv (snd (deleteNote i db st))"
  by (auto simp: ids_inv_def deleteNote_def touch_store_def distinct_map_filter)

subsection \<open>Refinement of the abstract store\<close>

theorem insertNote_refines:
  assumes "ids_inv st" and "insertNote c html uid db now st = (n, st')"
  shows "note_map st' = (note_map st)(nextId st \<mapsto> n) \<and> noteId n = nextId st"
proof -
  from assms(1) have fresh: "note_find (nextId st) (noteList st) = None"
    by (auto simp: ids_inv_def note_find_None)
  from assms(2) have "n = \<lparr>noteId = nextId st, content = c, htmlContent = html, author = uid,
      favoritedBy = [], createdAt = now, updatedAt = now\<rparr>"
    and "noteList st' = noteList st @ [n]"
    by (auto simp: insertNote_def touch_store_def Let_def)
  with fresh show ?thesis
    by (auto simp: fun_eq_iff note_map_find note_find_append split: option.split)
qed

lemma note_find_replace:
  "note_find j (map (\<lambda>m. if noteId m = i then n' else m) ns) =
     (if j = i then (if note_find i ns = None then None else Some n') else note_find j ns)"
  if "noteId n' = i"
  using that unfolding note_find_def by (induction ns) auto

theorem updateNote_refines:
  assumes "note_find i (noteList st) = Some n"
  shows "updateNote i c html db now st = (Inr n', st') \<Longrightarrow>
         note_map st' = (note_map st)(i \<mapsto> n') \<and> n' = n\<lparr>content := c, htmlContent := html, updatedAt := now\<rparr>"
proof -
  assume upd: "updateNote i c html db now st = (Inr n', st')"
  from assms have nid: "noteId n = i" by (auto dest: note_find_Some)
  from upd assms have n': "n' = n\<lparr>content := c, htmlContent := html, updatedAt := now\<rparr>"
    and st': "noteList st' = map (\<lambda>m. if noteId m = i then n' else m) (noteList st)"
    by (auto simp: updateNote_def touch_store_def Let_def)
  from n' nid have "noteId n' = i" by simp
  with st' assms have "note_map st' = (note_map st)(i \<mapsto> n')"
    by (auto simp: fun_eq_iff note_map_find note_find_replace)
  with n' show ?thesis by simp
qed

lemma note_find_filter:
  "note_find j (filter (\<lambda>n. noteId n \<noteq> i) ns) = (if j = i then None else note_find j ns)"
  unfolding note_find_def by (induction ns) auto

theorem deleteNote_refines:
  "deleteNote i db st = (b, st') \<Longrightarrow>
     note_map st' = (note_map st)(i := None) \<and> b = (note_map st i \<noteq> None)"
proof -
  assume del: "deleteNote i db st = (b, st')"
  show ?thesis
  proof (cases "note_find i (noteList st)")
    case None
    with del show ?thesis
      by (auto simp: deleteNote_def fun_eq_iff note_map_find)
  next
    case (Some n)
    with del show ?thesis
      by (auto simp: deleteNote_def touch_store_def fun_eq_iff note_map_find note_find_filter)
  qed
qed

end
