(* ===== verification/Session.thy ===== *)
theory Session
  imports Prelude
begin

text \<open>
  Sessions and the per-request context (spec 4.1, 4.3). \<open>src/api/index.js\<close> installs
  express-session with \<open>resave: true\<close>, \<open>saveUninitialized: true\<close>, a cookie of
  \<open>maxAge\<close> two weeks and a MongoDB store (lines 32-43), and gives Apollo a context
  function that reads \<open>req.session.user\<close> (lines 55-59). The session store is a map
  from session ids to session records; a stored session whose expiry has passed is not
  returned by the store (connect-mongo filters on \<open>expires\<close>). The identity a
  resolver sees is whatever the session holds under \<open>user\<close>, or \<open>''\<close> when that is
  falsy: the context function looks nothing up.
\<close>

type_synonym sid = string

record session =
  sessUser :: jsval
  sessExpires :: nat

type_synonym session_store = "sid \<rightharpoonup> session"

text \<open>\<open>cookie: { maxAge: 1209600000 }\<close>, in milliseconds.\<close>

definition cookie_maxAge :: nat where
  "cookie_maxAge = 1209600000"

definition fresh_session :: "nat \<Rightarrow> session" where
  "fresh_session now = \<lparr>sessUser = JUndef, sessExpires = now + cookie_maxAge\<rparr>"

text \<open>
  Loading: the cookie's session if the store still has it and it has not expired,
  otherwise a new session under the freshly generated id \<open>gen\<close> (the request's
  \<open>genid\<close>), which \<open>saveUninitialized: true\<close> will store.
\<close>

definition load_session :: "nat \<Rightarrow> sid option \<Rightarrow> sid \<Rightarrow> session_store \<Rightarrow> sid \<times> session" where
  "load_session now cookie gen ss =
     (case cookie of
        None \<Rightarrow> (gen, fresh_session now)
      | Some k \<Rightarrow>
          (case ss k of
             Some s \<Rightarrow> (if now < sessExpires s then (k, s) else (gen, fresh_session now))
           | None \<Rightarrow> (gen, fresh_session now)))"

text \<open>
  Saving at the end of the response: with \<open>resave: true\<close> the session is written back
  whether or not it changed, after express-session's \<open>touch\<close> has reset its expiry to
  \<open>maxAge\<close> from now.
\<close>

definition save_session :: "nat \<Rightarrow> sid \<Rightarrow> session \<Rightarrow> session_store \<Rightarrow> session_store" where
  "save_session now k s ss = ss(k \<mapsto> s\<lparr>sessExpires := now + cookie_maxAge\<rparr>)"

text \<open>
  The Apollo context function: \<open>const user = req.session.user || ''\<close> and
  \<open>return { models, user }\<close>.
\<close>

definition models_obj :: jsval where
  "models_obj = JOpaque ''models''"

definition apollo_context :: "session \<Rightarrow> jsval" where
  "apollo_context s =
     (let user = js_or (sessUser s) (JStr '''')
      in JObj [(''models'', models_obj), (''user'', user)])"

text \<open>
  The same function on \<open>req.session\<close> as the request carries it: a session object, or
  \<open>undefined\<close> when the session middleware let the request through without one. Reading
  \<open>user\<close> off \<open>undefined\<close> throws.
\<close>

definition session_obj :: "session \<Rightarrow> jsval" where
  "session_obj s = JObj [(''user'', sessUser s)]"

definition context_fn :: "jsval \<Rightarrow> js_error + jsval" where
  "context_fn sess =
     (case js_get sess ''user'' of
        Inl e \<Rightarrow> Inl e
      | Inr u \<Rightarrow> Inr (JObj [(''models'', models_obj), (''user'', js_or u (JStr ''''))]))"

text \<open>The identity of spec 4.1, read off a context.\<close>

datatype identity = Anonymous | Authenticated jsval

definition identity_of :: "jsval \<Rightarrow> identity" where
  "identity_of ctx =
     (case js_get ctx ''user'' of
        Inr u \<Rightarrow> (if truthy u then Authenticated u else Anonymous)
      | Inl e \<Rightarrow> Anonymous)"

section \<open>Properties\<close>

lemma context_fn_session: "context_fn (session_obj s) = Inr (apollo_context s)"
  by (simp add: context_fn_def session_obj_def apollo_context_def)

lemma context_fn_undefined: "context_fn JUndef = Inl (TypeError ''user'')"
  by (simp add: context_fn_def)

lemma fresh_session_alive: "now < sessExpires (fresh_session now)"
  by (simp add: fresh_session_def cookie_maxAge_def)

lemma context_identity_eq:
  "identity_of (apollo_context s) = (if truthy (sessUser s) then Authenticated (sessUser s) else Anonymous)"
  by (simp add: identity_of_def apollo_context_def js_or_def)

end
