(* ===== verification/Resolvers.thy ===== *)
theory Resolvers
  imports NoteStore Session
begin

text \<open>
  Resolver dispatch (spec 4.4). The \<open>Mutation\<close> resolvers are those of
  \<open>src/api/resolvers/Mutation.js\<close>: \<open>newNote\<close>, \<open>updateNote\<close> and \<open>deleteNote\<close>, each
  a function of the GraphQL arguments and the context object, returning a field result
  or an error and the store it leaves behind. The context is the JavaScript object the
  Apollo context function built; each resolver destructures it as the source does
  (\<open>{ db, user }\<close> or \<open>{ db }\<close>). The \<open>Query\<close> resolvers live in a module that is not
  under \<open>src/\<close> and are modelled from the spec. The schema's \<open>toggleReaction\<close> has no
  resolver in \<open>Mutation.js\<close>; Apollo then runs graphql-js's default field resolver on
  the (undefined) root value, which returns \<open>undefined\<close>: \<open>Mutation_toggleReaction\<close>
  models that.
\<close>

datatype field_result =
    RNull
  | RNote Note
  | RNotes "Note list"
  | RBool bool

type_synonym resolver_result = "(gql_error + field_result) \<times> store"

section \<open>\<open>Mutation.js\<close>\<close>

text \<open>
  \<open>newNote\<close>: no user in the context means no note (\<open>return null\<close>); otherwise the
  content is rendered and handed to \<open>NoteModel.insertNote\<close> with \<open>user.id\<close>.
\<close>

definition Mutation_newNote :: "renderer \<Rightarrow> nat \<Rightarrow> string \<Rightarrow> jsval \<Rightarrow> store \<Rightarrow> resolver_result" where
  "Mutation_newNote md now c ctx st =
     (case js_destructure ctx [''db'', ''user''] of
        Inl e \<Rightarrow> (Inl (ResolverThrew e), st)
      | Inr vs \<Rightarrow>
          (let db = vs ! 0; user = vs ! 1 in
           if \<not> truthy user then (Inr RNull, st)
           else
             (let html = md c in
              case js_get user ''id'' of
                Inl e \<Rightarrow> (Inl (ResolverThrew e), st)
              | Inr uid \<Rightarrow>
                  (let (n, st') = insertNote c html uid db now st in (Inr (RNote n), st')))))"

text \<open>\<open>updateNote\<close>: render, then \<open>NoteModel.updateNote\<close>; no look at the caller.\<close>

definition Mutation_updateNote ::
  "renderer \<Rightarrow> nat \<Rightarrow> note_id \<Rightarrow> string \<Rightarrow> jsval \<Rightarrow> store \<Rightarrow> resolver_result" where
  "Mutation_updateNote md now i c ctx st =
     (case js_destructure ctx [''db''] of
        Inl e \<Rightarrow> (Inl (ResolverThrew e), st)
      | Inr vs \<Rightarrow>
          (let db = vs ! 0; html = md c in
           case updateNote i c html db now st of
             (Inl e, st') \<Rightarrow> (Inl e, st')
           | (Inr n, st') \<Rightarrow> (Inr (RNote n), st')))"

text \<open>\<open>deleteNote\<close>: \<open>NoteModel.deleteNote\<close>; no look at the caller either.\<close>

definition Mutation_deleteNote :: "note_id \<Rightarrow> jsval \<Rightarrow> store \<Rightarrow> resolver_result" where
  "Mutation_deleteNote i ctx st =
     (case js_destructure ctx [''db''] of
        Inl e \<Rightarrow> (Inl (ResolverThrew e), st)
      | Inr vs \<Rightarrow> (let (b, st') = deleteNote i (vs ! 0) st in (Inr (RBool b), st')))"

text \<open>\<open>toggleReaction\<close>: no resolver, so the default resolver returns \<open>undefined\<close>.\<close>

definition Mutation_toggleReaction :: "note_id \<Rightarrow> jsval \<Rightarrow> store \<Rightarrow> resolver_result" where
  "Mutation_toggleReaction i ctx st = (Inr RNull, st)"

section \<open>Query resolvers (spec 4.4)\<close>

definition Query_singleNote :: "note_id \<Rightarrow> jsval \<Rightarrow> store \<Rightarrow> resolver_result" where
  "Query_singleNote i ctx st =
     (case findNote i st of
        (None, st') \<Rightarrow> (Inr RNull, st')
      | (Some n, st') \<Rightarrow> (Inr (RNote n), st'))"

definition Query_allNotes :: "jsval \<Rightarrow> store \<Rightarrow> resolver_result" where
  "Query_allNotes ctx st = (let (ns, st') = findAllNotes st in (Inr (RNotes ns), st'))"

definition Query_myNotes :: "jsval \<Rightarrow> store \<Rightarrow> resolver_result" where
  "Query_myNotes ctx st =
     (case js_destructure ctx [''user''] of
        Inl e \<Rightarrow> (Inl (ResolverThrew e), st)
      | Inr vs \<Rightarrow>
          (let user = vs ! 0 in
           if \<not> truthy user then (Inr RNull, st)
           else
             (case js_get user ''id'' of
                Inl e \<Rightarrow> (Inl (ResolverThrew e), st)
              | Inr uid \<Rightarrow> (let (ns, st') = findNotesBy uid st in (Inr (RNotes ns), st')))))"

lemmas mutation_defs =
  Mutation_newNote_def Mutation_updateNote_def Mutation_deleteNote_def Mutation_toggleReaction_def

section \<open>Lemmas\<close>

subsection \<open>The context built by \<open>index.js\<close>, as the resolvers read it\<close>

lemma context_db [simp]: "js_get (apollo_context s) ''db'' = Inr JUndef"
  by (simp add: apollo_context_def)

lemma context_user [simp]:
  "js_get (apollo_context s) ''user'' = Inr (js_or (sessUser s) (JStr ''''))"
  by (simp add: apollo_context_def)

lemma context_destructure [simp]:
  "js_destructure (apollo_context s) [''db'', ''user''] = Inr [JUndef, js_or (sessUser s) (JStr '''')]"
  "js_destructure (apollo_context s) [''db''] = Inr [JUndef]"
  "js_destructure (apollo_context s) [''user''] = Inr [js_or (sessUser s) (JStr '''')]"
  by (simp_all add: apollo_context_def)

lemma truthy_context_user: "truthy (js_or (sessUser s) (JStr '''')) \<longleftrightarrow> truthy (sessUser s)"
  by (simp add: truthy_js_or)

subsection \<open>What each mutation does to the store\<close>

lemma Mutation_newNote_auth:
  assumes "truthy (sessUser s)" and "js_get (sessUser s) ''id'' = Inr uid"
  shows "Mutation_newNote md now c (apollo_context s) st =
           (let (n, st') = insertNote c (md c) uid JUndef now st in (Inr (RNote n), st'))"
  using assms by (simp add: Mutation_newNote_def js_or_truthy Let_def)

lemma Mutation_updateNote_eq:
  "Mutation_updateNote md now i c (apollo_context s) st =
     (case updateNote i c (md c) JUndef now st of
        (Inl e, st') \<Rightarrow> (Inl e, st')
      | (Inr n, st') \<Rightarrow> (Inr (RNote n), st'))"
  by (simp add: Mutation_updateNote_def)

lemma Mutation_deleteNote_eq:
  "Mutation_deleteNote i (apollo_context s) st =
     (let (b, st') = deleteNote i JUndef st in (Inr (RBool b), st'))"
  by (simp add: Mutation_deleteNote_def)

subsection \<open>Every resolver keeps the store invariants, whatever the context\<close>

lemma Mutation_newNote_inv:
  assumes "Mutation_newNote md now c ctx st = (r, st')"
  shows "(html_inv md st \<longrightarrow> html_inv md st') \<and> (ids_inv st \<longrightarrow> ids_inv st')"
  using assms insertNote_html_inv [of md st "md c" c] insertNote_ids_inv [of st]
  by (auto simp: Mutation_newNote_def Let_def split: sum.splits if_splits prod.splits dest!: snd_eqD)

lemma Mutation_updateNote_inv:
  assumes "Mutation_updateNote md now i c ctx st = (r, st')"
  shows "(html_inv md st \<longrightarrow> html_inv md st') \<and> (ids_inv st \<longrightarrow> ids_inv st')"
  using assms updateNote_html_inv [of md st "md c" c i] updateNote_ids_inv [of st i c "md c"]
  by (auto simp: Mutation_updateNote_def Let_def split: sum.splits prod.splits dest!: snd_eqD)

lemma Mutation_deleteNote_inv:
  assumes "Mutation_deleteNote i ctx st = (r, st')"
  shows "(html_inv md st \<longrightarrow> html_inv md st') \<and> (ids_inv st \<longrightarrow> ids_inv st')"
  using assms deleteNote_html_inv [of md st i] deleteNote_ids_inv [of st i]
  by (auto simp: Mutation_deleteNote_def Let_def split: sum.splits prod.splits dest!: snd_eqD)

lemma Mutation_users:
  "Mutation_newNote md now c ctx st = (r, st') \<Longrightarrow> userList st' = userList st"
  "Mutation_updateNote md now i c ctx st = (r, st') \<Longrightarrow> userList st' = userList st"
  "Mutation_deleteNote i ctx st = (r, st') \<Longrightarrow> userList st' = userList st"
    apply (auto simp: Mutation_newNote_def Let_def split: sum.splits if_splits prod.splits dest!: snd_eqD)
   apply (auto simp: Mutation_updateNote_def Let_def split: sum.splits prod.splits dest!: snd_eqD)
  apply (auto simp: Mutation_deleteNote_def Let_def split: sum.splits prod.splits dest!: snd_eqD)
  done

lemma Query_resolvers_notes:
  "Query_singleNote i ctx st = (r, st') \<Longrightarrow>
     noteList st' = noteList st \<and> nextId st' = nextId st \<and> userList st' = userList st"
  "Query_allNotes ctx st = (r, st') \<Longrightarrow>
     noteList st' = noteList st \<and> nextId st' = nextId st \<and> userList st' = userList st"
  "Query_myNotes ctx st = (r, st') \<Longrightarrow>
     noteList st' = noteList st \<and> nextId st' = nextId st \<and> userList st' = userList st"
  by (auto simp: Query_singleNote_def Query_allNotes_def Query_myNotes_def findNote_def
      findAllNotes_def findNotesBy_def touch_store_def Let_def split: sum.splits if_splits prod.splits option.splits)

section \<open>Properties of the resolvers\<close>

text \<open>
  C2: an anonymous caller (a session whose \<open>user\<close> is falsy) gets \<open>null\<close> from
  \<open>newNote\<close>, and the store is left exactly as it was: no note, no store access.
\<close>

theorem newNote_anonymous_refused:
  "\<not> truthy (sessUser s) \<Longrightarrow> Mutation_newNote md now c (apollo_context s) st = (Inr RNull, st)"
  by (simp add: Mutation_newNote_def truthy_context_user)

text \<open>
  C3: an authenticated caller gets a new note with the rendered content, the caller's
  \<open>id\<close> as author and no favourites. The note is stored under the next id, which
  no stored note has: it is appended to the stored notes, which are otherwise left as
  they were, the next id moves on by one, and the id invariant still holds.
\<close>

theorem newNote_creates_note:
  assumes "truthy (sessUser s)" and "js_get (sessUser s) ''id'' = Inr u" and "ids_inv st"
  shows "\<exists>n st'. Mutation_newNote md now c (apollo_context s) st = (Inr (RNote n), st') \<and>
           noteId n = nextId st \<and> note_map st (noteId n) = None \<and>
           author n = u \<and> content n = c \<and> htmlContent n = md c \<and> favoritedBy n = [] \<and>
           noteList st' = noteList st @ [n] \<and> nextId st' = Suc (nextId st) \<and> ids_inv st'"
proof -
  obtain n st' where ins: "insertNote c (md c) u JUndef now st = (n, st')" by fastforce
  with assms(1,2) have "Mutation_newNote md now c (apollo_context s) st = (Inr (RNote n), st')"
    by (simp add: Mutation_newNote_auth)
  moreover from ins have "author n = u \<and> content n = c \<and> htmlContent n = md c \<and> favoritedBy n = [] \<and>
      noteList st' = noteList st @ [n] \<and> nextId st' = Suc (nextId st)"
    by (auto simp: insertNote_def touch_store_def Let_def)
  moreover from insertNote_refines [OF assms(3) ins] have "noteId n = nextId st" by simp
  moreover from assms(3) have "note_map st (nextId st) = None"
    by (auto simp: ids_inv_def note_map_find note_find_None)
  moreover from insertNote_ids_inv [OF assms(3), of c "md c" u JUndef now] ins have "ids_inv st'" by simp
  ultimately show ?thesis by auto
qed

text \<open>
  C4: \<open>updateNote\<close> on a stored note replaces its content, recomputes \<open>htmlContent\<close>
  from the new content, keeps its author, and changes nothing else in the abstract store.
\<close>

theorem updateNote_rerenders:
  assumes "note_map st i = Some n"
  shows "\<exists>n' st'. Mutation_updateNote md now i c (apollo_context s) st = (Inr (RNote n'), st') \<and>
           content n' = c \<and> htmlContent n' = md c \<and> author n' = author n \<and>
           note_map st' = (note_map st)(i \<mapsto> n')"
proof -
  from assms have f: "note_find i (noteList st) = Some n" by (simp add: note_map_find)
  obtain r st' where upd: "updateNote i c (md c) JUndef now st = (r, st')" by fastforce
  let ?n' = "n\<lparr>content := c, htmlContent := md c, updatedAt := now\<rparr>"
  from upd f have r: "r = Inr ?n'" by (auto simp: updateNote_def Let_def)
  with upd updateNote_refines [OF f] have "note_map st' = (note_map st)(i \<mapsto> ?n')" by blast
  with upd r show ?thesis by (auto simp: Mutation_updateNote_eq)
qed

text \<open>
  C5: \<open>updateNote\<close> on an id that does not resolve fails with \<open>NotFound\<close> and leaves
  the stored notes as they were.
\<close>

theorem updateNote_not_found:
  assumes "note_map st i = None"
  shows "\<exists>st'. Mutation_updateNote md now i c (apollo_context s) st = (Inl NotFound, st') \<and>
           noteList st' = noteList st \<and> nextId st' = nextId st"
  using assms by (simp add: Mutation_updateNote_eq updateNote_def note_map_find)

text \<open>
  C6: \<open>deleteNote\<close> answers whether the id was stored, removes it from the abstract
  store, and afterwards \<open>singleNote\<close> finds nothing under it.
\<close>

theorem deleteNote_removes:
  "case Mutation_deleteNote i (apollo_context s) st of
     (r, st') \<Rightarrow> r = Inr (RBool (note_map st i \<noteq> None)) \<and> note_map st' = (note_map st)(i := None) \<and>
                 fst (Query_singleNote i ctx st') = Inr RNull"
proof -
  obtain b st' where del: "deleteNote i JUndef st = (b, st')" by fastforce
  from deleteNote_refines [OF del]
  have m: "note_map st' = (note_map st)(i := None)" and b: "b = (note_map st i \<noteq> None)" by auto
  from m have "note_find i (noteList st') = None" by (simp add: note_map_find [symmetric])
  then have "fst (Query_singleNote i ctx st') = Inr RNull"
    by (simp add: Query_singleNote_def findNote_def)
  with del m b show ?thesis by (simp add: Mutation_deleteNote_eq)
qed

text \<open>
  C7: \<open>updateNote\<close> and \<open>deleteNote\<close> never look at the caller: for any two sessions,
  anonymous or not, they return the same result and leave the same store (the missing
  ownership check of spec section 9).
\<close>

theorem update_delete_ignore_caller:
  "Mutation_updateNote md now i c (apollo_context s1) st = Mutation_updateNote md now i c (apollo_context s2) st \<and>
   Mutation_deleteNote i (apollo_context s1) st = Mutation_deleteNote i (apollo_context s2) st"
  by (simp add: Mutation_updateNote_eq Mutation_deleteNote_eq)

end
