(* ===== verification/Schema.thy ===== *)
theory Schema
  imports Prelude
begin

text \<open>
  The GraphQL schema of \<open>src/api/schema.js\<close>: type references as the SDL writes them
  (\<open>[User!]\<close> is \<open>ListOf (NonNull (Named ''User''))\<close>), the four object types with
  their fields, argument lists and result types, and the lookups the query guard and the
  executor use on them.
\<close>

datatype gtype = Named string | ListOf gtype | NonNull gtype

record field_def =
  fd_name :: string
  fd_args :: "(string \<times> gtype) list"
  fd_type :: gtype

definition fld :: "string \<Rightarrow> gtype \<Rightarrow> field_def" where
  "fld n t = \<lparr>fd_name = n, fd_args = [], fd_type = t\<rparr>"

definition nn :: "string \<Rightarrow> gtype" where
  "nn t = NonNull (Named t)"

text \<open>\<open>scalar Date\<close> next to the built-in scalars.\<close>

definition scalar_types :: "string list" where
  "scalar_types = [''ID'', ''String'', ''Int'', ''Float'', ''Boolean'', ''Date'']"

definition Note_fields :: "field_def list" where
  "Note_fields =
     [fld ''id'' (nn ''ID''),
      fld ''content'' (nn ''String''),
      fld ''htmlContent'' (nn ''String''),
      fld ''author'' (nn ''User''),
      fld ''favoriteCount'' (nn ''Int''),
      fld ''favoritedBy'' (ListOf (nn ''User'')),
      fld ''createdAt'' (nn ''Date''),
      fld ''updatedAt'' (nn ''Date'')]"

definition User_fields :: "field_def list" where
  "User_fields =
     [fld ''id'' (nn ''ID''),
      fld ''name'' (Named ''String''),
      fld ''avatar'' (Named ''String''),
      fld ''notes'' (NonNull (ListOf (nn ''Note''))),
      fld ''favorites'' (NonNull (ListOf (nn ''Note'')))]"

definition Query_fields :: "field_def list" where
  "Query_fields =
     [\<lparr>fd_name = ''singleNote'', fd_args = [(''id'', nn ''ID'')], fd_type = Named ''Note''\<rparr>,
      fld ''allNotes'' (NonNull (ListOf (nn ''Note''))),
      fld ''myNotes'' (ListOf (nn ''Note''))]"

definition Mutation_fields :: "field_def list" where
  "Mutation_fields =
     [\<lparr>fd_name = ''newNote'', fd_args = [(''content'', nn ''String'')], fd_type = Named ''Note''\<rparr>,
      \<lparr>fd_name = ''updateNote'', fd_args = [(''id'', nn ''ID''), (''content'', nn ''String'')],
         fd_type = nn ''Note''\<rparr>,
      \<lparr>fd_name = ''deleteNote'', fd_args = [(''id'', nn ''ID'')], fd_type = nn ''Boolean''\<rparr>,
      \<lparr>fd_name = ''toggleReaction'', fd_args = [(''noteID'', nn ''ID'')], fd_type = Named ''Note''\<rparr>]"

definition typeDefs :: "(string \<times> field_def list) list" where
  "typeDefs =
     [(''Note'', Note_fields), (''User'', User_fields),
      (''Query'', Query_fields), (''Mutation'', Mutation_fields)]"

section \<open>Lookups\<close>

definition is_object_type :: "string \<Rightarrow> bool" where
  "is_object_type t \<longleftrightarrow> map_of typeDefs t \<noteq> None"

definition field_def_of :: "string \<Rightarrow> string \<Rightarrow> field_def option" where
  "field_def_of t f =
     (case map_of typeDefs t of
        None \<Rightarrow> None
      | Some fs \<Rightarrow> find (\<lambda>d. fd_name d = f) fs)"

definition field_type :: "string \<Rightarrow> string \<Rightarrow> gtype option" where
  "field_type t f = map_option fd_type (field_def_of t f)"

fun named_type :: "gtype \<Rightarrow> string" where
  "named_type (Named n) = n"
| "named_type (ListOf t) = named_type t"
| "named_type (NonNull t) = named_type t"

fun is_list_type :: "gtype \<Rightarrow> bool" where
  "is_list_type (Named n) = False"
| "is_list_type (ListOf t) = True"
| "is_list_type (NonNull t) = is_list_type t"

fun is_non_null :: "gtype \<Rightarrow> bool" where
  "is_non_null (NonNull t) = True"
| "is_non_null t = False"

lemmas schema_defs =
  typeDefs_def Note_fields_def User_fields_def Query_fields_def Mutation_fields_def
  fld_def nn_def

end
