(* ===== verification/QueryGuard.thy ===== *)
theory QueryGuard
  imports Schema
begin

text \<open>
  The query guard (spec 4.2): \<open>validationRules: [depthLimit(5),
  createComplexityLimitRule(1000)]\<close> at \<open>src/api/index.js\<close> line 54, next to
  graphql-js's own rule that every selected field exists on its parent type. An
  operation is a list of selections (fields with arguments and sub-selections, inline
  fragments with an optional type condition); named fragments are taken as inlined,
  as the spec says they are before measurement. The two library rules are modelled
  from the spec and from their documented behaviour:
  \<^item> \<open>determineDepth\<close> walks the selection tree as graphql-depth-limit does, carrying
    the depth reached so far and failing at the first node deeper than the limit;
  \<^item> \<open>sel_cost\<close> is graphql-validation-complexity's default cost: a scalar field
    costs 1 and an object field 0, each multiplied by the product of the list
    factors (10 per list wrapper) of the field and its enclosing fields.
  All three checks are pure functions of the operation.
\<close>

datatype selection =
    Field string "(string \<times> jsval) list" "selection list"
  | InlineFragment "string option" "selection list"

datatype op_kind = QueryOp | MutationOp

record operation =
  op_kind :: op_kind
  op_sels :: "selection list"

definition root_type :: "op_kind \<Rightarrow> string" where
  "root_type k = (case k of QueryOp \<Rightarrow> ''Query'' | MutationOp \<Rightarrow> ''Mutation'')"

section \<open>Depth: graphql-depth-limit\<close>

text \<open>
  The library skips introspection fields: \<open>/^__/.test(node.name.value)\<close> gives such a
  field depth 0, whatever it selects below.
\<close>

definition is_meta_field :: "string \<Rightarrow> bool" where
  "is_meta_field f \<longleftrightarrow> take 2 f = ''__''"

text \<open>
  \<open>determineDepth maxDepth depthSoFar node\<close>: \<open>Inl ()\<close> when some node at or below
  \<open>node\<close> is reached with \<open>depthSoFar > maxDepth\<close> (the error the rule reports),
  otherwise the depth of the node (a leaf or introspection field counts 0, a field with a selection set
  one more than its deepest child, an inline fragment as deep as its deepest child).
\<close>

fun determineDepth :: "nat \<Rightarrow> nat \<Rightarrow> selection \<Rightarrow> unit + nat"
  and determineDepths :: "nat \<Rightarrow> nat \<Rightarrow> selection list \<Rightarrow> unit + nat" where
  "determineDepth m d (Field f args ss) =
     (if m < d then Inl ()
      else if is_meta_field f \<or> ss = [] then Inr 0
      else (case determineDepths m (Suc d) ss of Inl u \<Rightarrow> Inl u | Inr k \<Rightarrow> Inr (Suc k)))"
| "determineDepth m d (InlineFragment tc ss) =
     (if m < d then Inl () else determineDepths m d ss)"
| "determineDepths m d [] = Inr 0"
| "determineDepths m d (s # ss) =
     (case (determineDepth m d s, determineDepths m d ss) of
        (Inr a, Inr b) \<Rightarrow> Inr (max a b)
      | _ \<Rightarrow> Inl ())"

text \<open>The reference measure: the nesting depth of the selection tree, introspection fields not counted.\<close>

fun sel_depth :: "selection \<Rightarrow> nat"
  and sels_depth :: "selection list \<Rightarrow> nat" where
  "sel_depth (Field f args ss) = (if is_meta_field f \<or> ss = [] then 0 else Suc (sels_depth ss))"
| "sel_depth (InlineFragment tc ss) = sels_depth ss"
| "sels_depth [] = 0"
| "sels_depth (s # ss) = max (sel_depth s) (sels_depth ss)"

definition depthLimit :: "nat \<Rightarrow> operation \<Rightarrow> bool" where
  "depthLimit m op \<longleftrightarrow> (case determineDepths m 0 (op_sels op) of Inl u \<Rightarrow> False | Inr k \<Rightarrow> True)"

section \<open>Cost: graphql-validation-complexity\<close>

definition listFactor :: nat where "listFactor = 10"
definition scalarCost :: nat where "scalarCost = 1"
definition objectCost :: nat where "objectCost = 0"

fun typeCostFactor :: "gtype \<Rightarrow> nat" where
  "typeCostFactor (NonNull t) = typeCostFactor t"
| "typeCostFactor (ListOf t) = listFactor * typeCostFactor t"
| "typeCostFactor (Named n) = 1"

definition typeCost :: "gtype \<Rightarrow> nat" where
  "typeCost t = (if is_object_type (named_type t) then objectCost else scalarCost)"

text \<open>
  \<open>sel_cost parent factor s\<close>: the cost of selection \<open>s\<close> on a value of type
  \<open>parent\<close> (\<open>None\<close> below an unknown field) under the enclosing factor. An unknown
  field has factor 1 and the scalar cost, as the library gives a field without a type.
\<close>

fun sel_cost :: "string option \<Rightarrow> nat \<Rightarrow> selection \<Rightarrow> nat"
  and sels_cost :: "string option \<Rightarrow> nat \<Rightarrow> selection list \<Rightarrow> nat" where
  "sel_cost p k (Field f args ss) =
     (let ty = (case p of None \<Rightarrow> None | Some t \<Rightarrow> field_type t f);
          k' = k * (case ty of None \<Rightarrow> 1 | Some g \<Rightarrow> typeCostFactor g);
          c = (case ty of None \<Rightarrow> scalarCost | Some g \<Rightarrow> typeCost g)
      in k' * c + sels_cost (map_option named_type ty) k' ss)"
| "sel_cost p k (InlineFragment tc ss) =
     sels_cost (case tc of None \<Rightarrow> p | Some t \<Rightarrow> Some t) k ss"
| "sels_cost p k [] = 0"
| "sels_cost p k (s # ss) = sel_cost p k s + sels_cost p k ss"

definition operation_cost :: "operation \<Rightarrow> nat" where
  "operation_cost op = sels_cost (Some (root_type (op_kind op))) 1 (op_sels op)"

definition complexityLimit :: "nat \<Rightarrow> operation \<Rightarrow> bool" where
  "complexityLimit maxCost op \<longleftrightarrow> \<not> maxCost < operation_cost op"

section \<open>Known fields (graphql-js FieldsOnCorrectType)\<close>

text \<open>
  graphql-js's \<open>getFieldDef\<close> also knows the introspection meta-fields: \<open>__typename\<close>
  on every object type (a \<open>String!\<close> leaf, so with no sub-selection), and
  \<open>__schema\<close> and \<open>__type\<close> on the query root. Apollo leaves introspection on
  outside production, and \<open>index.js\<close> does not turn it off. The sub-selections of
  \<open>__schema\<close> and \<open>__type\<close> range over the introspection types, which are not
  modelled; they are accepted as they stand.
\<close>

fun sel_known :: "string option \<Rightarrow> selection \<Rightarrow> bool"
  and sels_known :: "string option \<Rightarrow> selection list \<Rightarrow> bool" where
  "sel_known p (Field f args ss) =
     (case p of
        None \<Rightarrow> False
      | Some t \<Rightarrow>
          (if f = ''__typename'' then ss = []
           else if t = ''Query'' \<and> (f = ''__schema'' \<or> f = ''__type'') then True
           else (case field_type t f of None \<Rightarrow> False | Some g \<Rightarrow> sels_known (Some (named_type g)) ss)))"
| "sel_known p (InlineFragment tc ss) =
     sels_known (case tc of None \<Rightarrow> p | Some t \<Rightarrow> Some t) ss"
| "sels_known p [] = True"
| "sels_known p (s # ss) = (sel_known p s \<and> sels_known p ss)"

section \<open>The configured rules\<close>

text \<open>\<open>validationRules: [depthLimit(5), createComplexityLimitRule(1000)]\<close>.\<close>

definition validate :: "operation \<Rightarrow> gql_error list" where
  "validate op =
     (if sels_known (Some (root_type (op_kind op))) (op_sels op) then []
      else [ValidationRejected ''unknown field'']) @
     (if depthLimit 5 op then [] else [ValidationRejected ''exceeds maximum operation depth of 5'']) @
     (if complexityLimit 1000 op then [] else [ValidationRejected ''query too complex''])"

text \<open>
  An operation that asks for the schema description: a \<open>__schema\<close> or \<open>__type\<close>
  field anywhere in it.
\<close>

fun sel_introspects :: "selection \<Rightarrow> bool"
  and sels_introspect :: "selection list \<Rightarrow> bool" where
  "sel_introspects (Field f args ss) = (f = ''__schema'' \<or> f = ''__type'' \<or> sels_introspect ss)"
| "sel_introspects (InlineFragment tc ss) = sels_introspect ss"
| "sels_introspect [] = False"
| "sels_introspect (s # ss) = (sel_introspects s \<or> sels_introspect ss)"

section \<open>Lemmas\<close>

text \<open>The definitions that evaluate the guard on a concrete operation.\<close>

lemmas guard_eval = validate_def depthLimit_def complexityLimit_def operation_cost_def typeCost_def
  is_object_type_def listFactor_def scalarCost_def objectCost_def is_meta_field_def root_type_def
  field_type_def field_def_of_def schema_defs

text \<open>
  The library's traversal, which stops at the first node past the limit, computes the
  nesting depth of the reference measure and fails exactly when that depth, counted
  from where the walk starts, passes the limit.
\<close>

lemma determineDepth_correct:
  "determineDepth m d s = (if m < d + sel_depth s then Inl () else Inr (sel_depth s))"
  "determineDepths m d ss =
     (if ss \<noteq> [] \<and> m < d + sels_depth ss then Inl () else Inr (sels_depth ss))"
  by (induction m d s and m d ss rule: determineDepth_determineDepths.induct)
     (auto split: sum.splits)

lemma depthLimit_depth: "depthLimit m op \<longleftrightarrow> sels_depth (op_sels op) \<le> m"
proof (cases "op_sels op = []")
  case True
  then show ?thesis by (simp add: depthLimit_def)
next
  case False
  then show ?thesis by (simp add: depthLimit_def determineDepth_correct(2) not_less)
qed

text \<open>
  C9: the configured \<open>depthLimit(m)\<close> rule accepts an operation exactly when the
  nesting depth of its selection tree is at most \<open>m\<close>.
\<close>

theorem depthLimit_iff: "depthLimit m op \<longleftrightarrow> sels_depth (op_sels op) \<le> m"
  by (rule depthLimit_depth)

text \<open>
  What the configured rules accept: every field known, nesting at most 5, estimated
  cost at most 1000.
\<close>

lemma validate_accepts_iff:
  "validate op = [] \<longleftrightarrow>
     sels_known (Some (root_type (op_kind op))) (op_sels op) \<and>
     sels_depth (op_sels op) \<le> 5 \<and> operation_cost op \<le> 1000"
  by (simp add: validate_def depthLimit_depth complexityLimit_def not_less)

lemma sels_cost_append: "sels_cost p k (xs @ ys) = sels_cost p k xs + sels_cost p k ys"
  by (induction xs) auto

lemma sels_cost_sum_list: "sels_cost p k ss = (\<Sum>s \<leftarrow> ss. sel_cost p k s)"
  by (induction ss) auto

text \<open>The cost of a selection is linear in the factor of its enclosing fields.\<close>

lemma sel_cost_factor: "sel_cost p k s = k * sel_cost p 1 s"
proof (induction s arbitrary: p k)
  case (Field f args ss)
  have hk: "sels_cost q (k * j) ss = k * sels_cost q j ss" for q j
    using Field.IH [of _ q "k * j"] Field.IH [of _ q j]
    by (simp add: sels_cost_sum_list sum_list_const_mult mult.assoc cong: map_cong)
  show ?case
    by (simp only: sel_cost.simps Let_def mult_1 hk add_mult_distrib2 mult.assoc)
next
  case (InlineFragment tc ss)
  have "sels_cost q k ss = k * sels_cost q 1 ss" for q
    using InlineFragment.IH [of _ q k]
    by (simp add: sels_cost_sum_list sum_list_const_mult cong: map_cong)
  then show ?case by simp
qed

text \<open>
  The cost of a selection set scales linearly with the list factor of the fields
  that enclose it: a selection under a list field that fans out ten-fold costs ten
  times as much.
\<close>

theorem sels_cost_factor: "sels_cost p k ss = k * sels_cost p 1 ss"
  by (simp add: sels_cost_sum_list sel_cost_factor [of _ k] sum_list_const_mult)

end
