(* ===== verification/Completion.thy ===== *)
theory Completion
  imports Resolvers QueryGuard
begin

text \<open>
  Completion of a field's value against its selection set, as graphql-js's
  \<open>completeValue\<close> does it for the schema of \<open>src/api/schema.js\<close>: the field resolvers
  of \<open>Note\<close> and \<open>User\<close> (not under \<open>src/\<close>, modelled from spec 4.4; fields without a
  resolver read the stored property), lists completed item by item, and null propagation:
  an error or a \<open>null\<close> in a field of non-null type makes its parent \<open>null\<close>, up to the
  nearest field whose type is nullable, where it stops. Field resolvers only read the
  store.
\<close>

datatype rvalue =
    VNull
  | VStr string
  | VInt int
  | VBool bool
  | VList "rvalue list"
  | VObj "(string \<times> rvalue) list"

datatype obj = ONote Note | OUser User

text \<open>What a resolver returns, before completion.\<close>

datatype fval = FNull | FLeaf rvalue | FObj obj | FList "fval list"

definition obj_type :: "obj \<Rightarrow> string" where
  "obj_type ob = (case ob of ONote n \<Rightarrow> ''Note'' | OUser u \<Rightarrow> ''User'')"

definition user_find :: "jsval \<Rightarrow> User list \<Rightarrow> User option" where
  "user_find i us = find (\<lambda>u. userId u = i) us"

text \<open>A stored JavaScript value read by the default resolver and serialised.\<close>

fun leaf_of :: "jsval \<Rightarrow> fval" where
  "leaf_of (JStr s) = FLeaf (VStr s)"
| "leaf_of (JNum i) = FLeaf (VInt i)"
| "leaf_of (JBool b) = FLeaf (VBool b)"
| "leaf_of v = FNull"

fun resolve_field :: "store \<Rightarrow> obj \<Rightarrow> string \<Rightarrow> gql_error + fval" where
  "resolve_field st (ONote n) f =
     (if f = ''id'' then Inr (FLeaf (VInt (int (noteId n))))
      else if f = ''content'' then Inr (FLeaf (VStr (content n)))
      else if f = ''htmlContent'' then Inr (FLeaf (VStr (htmlContent n)))
      else if f = ''author'' then
        (case user_find (author n) (userList st) of
           None \<Rightarrow> Inl DanglingReference
         | Some u \<Rightarrow> Inr (FObj (OUser u)))
      else if f = ''favoriteCount'' then Inr (FLeaf (VInt (int (length (favoritedBy n)))))
      else if f = ''favoritedBy'' then
        Inr (FList (map (\<lambda>u. FObj (OUser u)) (filter (\<lambda>u. userId u \<in> set (favoritedBy n)) (userList st))))
      else if f = ''createdAt'' then Inr (FLeaf (VInt (int (createdAt n))))
      else if f = ''updatedAt'' then Inr (FLeaf (VInt (int (updatedAt n))))
      else Inr FNull)"
| "resolve_field st (OUser u) f =
     (if f = ''id'' then Inr (leaf_of (userId u))
      else if f = ''name'' then Inr (leaf_of (userName u))
      else if f = ''avatar'' then Inr (leaf_of (userAvatar u))
      else if f = ''notes'' then
        Inr (FList (map (\<lambda>n. FObj (ONote n)) (filter (\<lambda>n. author n = userId u) (noteList st))))
      else if f = ''favorites'' then
        Inr (FList (map (\<lambda>n. FObj (ONote n)) (filter (\<lambda>n. userId u \<in> set (favoritedBy n)) (noteList st))))
      else Inr FNull)"

type_synonym completion = "gql_error list \<times> rvalue option"

text \<open>\<open>None\<close>: the value is null where its type forbids it; the parent must become null.\<close>

definition catch_null :: "gtype \<Rightarrow> completion \<Rightarrow> completion" where
  "catch_null t c = (case c of (es, None) \<Rightarrow> (es, if is_non_null t then None else Some VNull) | _ \<Rightarrow> c)"

definition complete_list :: "completion list \<Rightarrow> completion" where
  "complete_list cs =
     (concat (map fst cs),
      if list_all (\<lambda>c. snd c \<noteq> None) cs then Some (VList (map (the \<circ> snd) cs)) else None)"

primrec complete_fv :: "string \<Rightarrow> gtype \<Rightarrow> (obj \<Rightarrow> completion) \<Rightarrow> fval \<Rightarrow> completion" where
  "complete_fv f (Named n) sub v =
     (case v of
        FNull \<Rightarrow> ([], Some VNull)
      | FLeaf x \<Rightarrow> ([], Some x)
      | FObj ob \<Rightarrow> sub ob
      | FList xs \<Rightarrow> ([ResolverThrew (TypeError f)], Some VNull))"
| "complete_fv f (ListOf t) sub v =
     (case v of
        FNull \<Rightarrow> ([], Some VNull)
      | FList xs \<Rightarrow> complete_list (map (\<lambda>x. catch_null t (complete_fv f t sub x)) xs)
      | _ \<Rightarrow> ([ResolverThrew (TypeError f)], Some VNull))"
| "complete_fv f (NonNull t) sub v =
     (case complete_fv f t sub v of
        (es, Some VNull) \<Rightarrow> (es @ [NonNullViolation f], None)
      | c \<Rightarrow> c)"

definition obj_value :: "gql_error list \<times> (string \<times> rvalue) list option \<Rightarrow> completion" where
  "obj_value c = (fst c, map_option VObj (snd c))"

text \<open>A completion that propagates a null carries at least one error.\<close>

definition explained :: "completion \<Rightarrow> bool" where
  "explained c \<longleftrightarrow> (snd c = None \<longrightarrow> fst c \<noteq> [])"

text \<open>
  A selection set on an object. The meta-field \<open>__typename\<close> answers the object's
  type name; it is the only field without a schema entry that validation lets through
  below the root.
\<close>

fun complete_sel :: "store \<Rightarrow> obj \<Rightarrow> selection \<Rightarrow> gql_error list \<times> (string \<times> rvalue) list option"
  and complete_sels :: "store \<Rightarrow> obj \<Rightarrow> selection list \<Rightarrow> gql_error list \<times> (string \<times> rvalue) list option" where
  "complete_sel st ob (Field f args ss) =
     (case field_type (obj_type ob) f of
        None \<Rightarrow> ([], Some (if f = ''__typename'' then [(f, VStr (obj_type ob))] else []))
      | Some t \<Rightarrow>
          (let c = catch_null t
                 (case resolve_field st ob f of
                    Inl e \<Rightarrow> ([e], None)
                  | Inr v \<Rightarrow> complete_fv f t (\<lambda>ob'. obj_value (complete_sels st ob' ss)) v)
           in (fst c, map_option (\<lambda>x. [(f, x)]) (snd c))))"
| "complete_sel st ob (InlineFragment tc ss) =
     (if tc = None \<or> tc = Some (obj_type ob) then complete_sels st ob ss else ([], Some []))"
| "complete_sels st ob [] = ([], Some [])"
| "complete_sels st ob (s # ss) =
     (let (es1, r1) = complete_sel st ob s; (es2, r2) = complete_sels st ob ss
      in (es1 @ es2, case (r1, r2) of (Some a, Some b) \<Rightarrow> Some (a @ b) | _ \<Rightarrow> None))"

section \<open>Lemmas\<close>

lemma catch_null_explained: "explained c \<Longrightarrow> explained (catch_null t c)"
  by (auto simp: explained_def catch_null_def split: prod.splits option.splits)

lemma complete_list_explained: "\<forall>c \<in> set cs. explained c \<Longrightarrow> explained (complete_list cs)"
  by (auto simp: explained_def complete_list_def list_all_iff)

lemma complete_fv_explained:
  "(\<And>ob. explained (sub ob)) \<Longrightarrow> explained (complete_fv f t sub v)"
proof (induction t arbitrary: v)
  case (Named n)
  then show ?case by (simp add: explained_def split: fval.splits)
next
  case (ListOf t)
  have "explained (catch_null t (complete_fv f t sub x))" for x
    using ListOf by (intro catch_null_explained) blast
  then have l: "explained (complete_list (map (\<lambda>x. catch_null t (complete_fv f t sub x)) xs))" for xs
    by (intro complete_list_explained) auto
  show ?case using l [unfolded explained_def] by (cases v) (simp_all add: explained_def)
next
  case (NonNull t)
  obtain es r where c: "complete_fv f t sub v = (es, r)" by fastforce
  have "explained (es, r)" using NonNull c by metis
  then show ?case
    by (cases r) (auto simp: c explained_def split: rvalue.splits)
qed

lemma complete_sels_explained:
  "explained (obj_value (complete_sel st ob s))"
  "explained (obj_value (complete_sels st ob ss))"
proof (induction st ob s and st ob ss rule: complete_sel_complete_sels.induct)
  case (1 st ob f args ss)
  show ?case
  proof (cases "field_type (obj_type ob) f")
    case None
    then show ?thesis by (simp add: explained_def obj_value_def)
  next
    case (Some t)
    have "explained (case resolve_field st ob f of
                        Inl e \<Rightarrow> ([e], None)
                      | Inr v \<Rightarrow> complete_fv f t (\<lambda>ob'. obj_value (complete_sels st ob' ss)) v)"
    proof (cases "resolve_field st ob f")
      case (Inl e)
      then show ?thesis by (simp add: explained_def)
    next
      case (Inr v)
      have "explained (obj_value (complete_sels st ob' ss))" for ob'
        using "1.IH" [OF Some Inr] .
      with Inr show ?thesis by (simp add: complete_fv_explained)
    qed
    then have "explained (catch_null t (case resolve_field st ob f of
                        Inl e \<Rightarrow> ([e], None)
                      | Inr v \<Rightarrow> complete_fv f t (\<lambda>ob'. obj_value (complete_sels st ob' ss)) v))"
      by (rule catch_null_explained)
    with Some show ?thesis by (simp add: explained_def obj_value_def Let_def)
  qed
next
  case (2 st ob tc ss)
  then show ?case by (simp add: explained_def obj_value_def)
next
  case (3 st ob)
  then show ?case by (simp add: explained_def obj_value_def)
next
  case (4 st ob s ss)
  obtain es1 r1 es2 r2 where c1: "complete_sel st ob s = (es1, r1)"
    and c2: "complete_sels st ob ss = (es2, r2)" by fastforce
  show ?case
    using "4.IH" by (cases r1; cases r2) (simp_all add: c1 c2 explained_def obj_value_def)
qed

subsection \<open>A dangling author\<close>

lemma field_type_Note_author: "field_type ''Note'' ''author'' = Some (NonNull (Named ''User''))"
  by (simp add: field_type_def field_def_of_def schema_defs)

lemma field_type_Query_allNotes:
  "field_type ''Query'' ''allNotes'' = Some (NonNull (ListOf (NonNull (Named ''Note''))))"
  by (simp add: field_type_def field_def_of_def schema_defs)

lemma complete_dangling_author:
  "user_find (author n) (userList st) = None \<Longrightarrow>
     complete_sels st (ONote n) [Field ''author'' args ss] = ([DanglingReference], None)"
  by (simp add: obj_type_def field_type_Note_author catch_null_def)

lemma complete_list_null:
  "(es, None) \<in> set cs \<Longrightarrow> \<exists>es'. complete_list cs = (es', None) \<and> set es \<subseteq> set es'"
  by (force simp: complete_list_def list_all_iff)

lemma complete_fv_list_null:
  "complete_list (map (\<lambda>x. catch_null t (complete_fv f t sub x)) xs) = (es, None) \<Longrightarrow>
     complete_fv f (NonNull (ListOf t)) sub (FList xs) = (es, None)"
  by simp

subsection \<open>Lists that complete without a null\<close>

lemma field_type_Note_id: "field_type ''Note'' ''id'' = Some (NonNull (Named ''ID''))"
  by (simp add: field_type_def field_def_of_def schema_defs)

lemma complete_note_id:
  "complete_sels st (ONote n) [Field ''id'' [] []] = ([], Some [(''id'', VInt (int (noteId n)))])"
  by (simp add: obj_type_def field_type_Note_id catch_null_def)

lemma complete_list_ok:
  "complete_list (map (\<lambda>x. ([], Some (g x))) xs) = ([], Some (VList (map g xs)))"
  by (simp add: complete_list_def list_all_iff comp_def)

lemma complete_fv_list_ok:
  "complete_list (map (\<lambda>x. catch_null t (complete_fv f t sub x)) xs) = (es, Some (VList vs)) \<Longrightarrow>
     complete_fv f (NonNull (ListOf t)) sub (FList xs) = (es, Some (VList vs))"
  by simp

end
