(* ===== verification/Gateway.thy ===== *)
theory Gateway
  imports Completion
begin

text \<open>
  The request-processing gateway (spec 4.5): the Express application of
  \<open>src/api/index.js\<close>. One request runs helmet and cors (lines 28-29), the session
  middleware (lines 32-43), Apollo's context function (lines 55-59), validation with
  the configured rules (line 54) and, when validation passes, execution of the
  operation's root fields through the resolvers; the response carries \<open>data\<close> and
  \<open>errors\<close>, the session is saved back, and the socket timeout of line 72 decides
  whether the client still receives it. The server's state is the session store and
  the note store; \<open>server_step\<close> is every way it can change: a GraphQL request, a
  request to another path (which still loads and saves a session), the (spec-modelled)
  login route writing \<open>req.session.user\<close>, and the session store
  dropping an expired session.
\<close>

section \<open>Executing an operation\<close>

text \<open>Argument values as graphql-js hands them to the resolvers (ids as numbers).\<close>

definition arg_str :: "(string \<times> jsval) list \<Rightarrow> string \<Rightarrow> string option" where
  "arg_str args a = (case map_of args a of Some (JStr s) \<Rightarrow> Some s | _ \<Rightarrow> None)"

definition arg_id :: "(string \<times> jsval) list \<Rightarrow> string \<Rightarrow> note_id option" where
  "arg_id args a =
     (case map_of args a of Some (JNum i) \<Rightarrow> (if 0 \<le> i then Some (nat i) else None) | _ \<Rightarrow> None)"

definition bad_arg :: "string \<Rightarrow> store \<Rightarrow> resolver_result" where
  "bad_arg a st = (Inl (BadArgument a), st)"

text \<open>
  The resolver map: a root field of the operation is sent to its resolver; a field with
  no resolver gets the default resolver's \<open>undefined\<close> (only \<open>toggleReaction\<close> is such
  a field of the schema; unknown fields never get here, validation rejects them).
\<close>

fun dispatch ::
  "renderer \<Rightarrow> nat \<Rightarrow> op_kind \<Rightarrow> string \<Rightarrow> (string \<times> jsval) list \<Rightarrow> jsval \<Rightarrow> store \<Rightarrow> resolver_result" where
  "dispatch md now MutationOp f args ctx st =
     (if f = ''newNote'' then
        (case arg_str args ''content'' of
           None \<Rightarrow> bad_arg ''content'' st
         | Some c \<Rightarrow> Mutation_newNote md now c ctx st)
      else if f = ''updateNote'' then
        (case (arg_id args ''id'', arg_str args ''content'') of
           (Some i, Some c) \<Rightarrow> Mutation_updateNote md now i c ctx st
         | _ \<Rightarrow> bad_arg ''id'' st)
      else if f = ''deleteNote'' then
        (case arg_id args ''id'' of
           None \<Rightarrow> bad_arg ''id'' st
         | Some i \<Rightarrow> Mutation_deleteNote i ctx st)
      else if f = ''toggleReaction'' then
        (case arg_id args ''noteID'' of
           None \<Rightarrow> bad_arg ''noteID'' st
         | Some i \<Rightarrow> Mutation_toggleReaction i ctx st)
      else (Inr RNull, st))"
| "dispatch md now QueryOp f args ctx st =
     (if f = ''singleNote'' then
        (case arg_id args ''id'' of
           None \<Rightarrow> bad_arg ''id'' st
         | Some i \<Rightarrow> Query_singleNote i ctx st)
      else if f = ''allNotes'' then Query_allNotes ctx st
      else if f = ''myNotes'' then Query_myNotes ctx st
      else (Inr RNull, st))"

text \<open>
  graphql-js's \<open>collectFields\<close> on the root selection set: inline fragments that apply
  to the root type are flattened, and fields with the same name are merged into the
  first one (validation makes their arguments agree) with their selection sets joined,
  so each runs once.
\<close>

type_synonym root_field = "string \<times> (string \<times> jsval) list \<times> selection list"

fun collectField :: "string \<Rightarrow> selection \<Rightarrow> root_field list"
  and collectFields :: "string \<Rightarrow> selection list \<Rightarrow> root_field list" where
  "collectField t (Field f args ss) = [(f, args, ss)]"
| "collectField t (InlineFragment tc ss) =
     (if tc = None \<or> tc = Some t then collectFields t ss else [])"
| "collectFields t [] = []"
| "collectFields t (s # ss) = collectField t s @ collectFields t ss"

fun merge_fields :: "string list \<Rightarrow> root_field list \<Rightarrow> root_field list" where
  "merge_fields seen [] = []"
| "merge_fields seen ((f, a, ss) # fs) =
     (if f \<in> set seen then merge_fields seen fs
      else (f, a, ss @ concat (map (\<lambda>x. snd (snd x)) (filter (\<lambda>x. fst x = f) fs)))
           # merge_fields (f # seen) fs)"

text \<open>What a root resolver returned, as a value to complete.\<close>

fun fval_of_result :: "field_result \<Rightarrow> fval" where
  "fval_of_result RNull = FNull"
| "fval_of_result (RNote n) = FObj (ONote n)"
| "fval_of_result (RNotes ns) = FList (map (\<lambda>n. FObj (ONote n)) ns)"
| "fval_of_result (RBool b) = FLeaf (VBool b)"

text \<open>
  Completing a root field: its resolver's result against the field's type and
  sub-selections, on the store as the resolver left it. A meta-field has no schema
  entry: \<open>__typename\<close> answers the root type's name; \<open>__schema\<close> and \<open>__type\<close>
  would answer the schema description, which is not modelled, and stand as \<open>null\<close>.
\<close>

definition complete_root_field ::
  "store \<Rightarrow> op_kind \<Rightarrow> string \<Rightarrow> selection list \<Rightarrow> gql_error + field_result \<Rightarrow> completion" where
  "complete_root_field st k f ss r =
     (case field_type (root_type k) f of
        None \<Rightarrow> ([], Some (if f = ''__typename'' then VStr (root_type k) else VNull))
      | Some t \<Rightarrow>
          catch_null t
            (case r of
               Inl e \<Rightarrow> ([e], None)
             | Inr v \<Rightarrow> complete_fv f t (\<lambda>ob. obj_value (complete_sels st ob ss)) (fval_of_result v)))"

text \<open>
  Root fields run one after the other, each resolved and completed on the store the
  previous one left (graphql-js's serial execution of mutations; query fields only
  read).
\<close>

fun exec_fields ::
  "renderer \<Rightarrow> nat \<Rightarrow> op_kind \<Rightarrow> jsval \<Rightarrow> root_field list \<Rightarrow> store \<Rightarrow>
   (string \<times> completion) list \<times> store" where
  "exec_fields md now k ctx [] st = ([], st)"
| "exec_fields md now k ctx ((f, args, ss) # fs) st =
     (let (r, st1) = dispatch md now k f args ctx st;
          c = complete_root_field st1 k f ss r;
          (cs, st2) = exec_fields md now k ctx fs st1
      in ((f, c) # cs, st2))"

text \<open>
  The response: \<open>data\<close> is \<open>null\<close> when a root field of non-null type could not be
  completed (the root has no nullable parent to stop at), and the errors of all fields.
\<close>

definition response_of :: "(string \<times> completion) list \<Rightarrow> (string \<times> rvalue) list option \<times> gql_error list" where
  "response_of cs =
     ((if list_all (\<lambda>x. snd (snd x) \<noteq> None) cs
       then Some (map (\<lambda>x. (fst x, the (snd (snd x)))) cs) else None),
      concat (map (\<lambda>x. fst (snd x)) cs))"

section \<open>One request through the middleware stack\<close>

record request =
  req_now :: nat
  req_cookie :: "sid option"
  req_genid :: sid
  req_op :: operation
  req_elapsed :: nat

datatype header = HelmetHeaders | CorsAllowOrigin | SetCookie sid

record response =
  resp_headers :: "header list"
  resp_data :: "(string \<times> rvalue) list option"
  resp_errors :: "gql_error list"

record server =
  sessions :: session_store
  dataStore :: store

definition init_server :: server where
  "init_server = \<lparr>sessions = Map.empty, dataStore = empty_store\<rparr>"

text \<open>
  Apollo's request pipeline after the context function: validation errors answer the
  request with no \<open>data\<close> and no execution; otherwise the root fields run.
\<close>

definition run_operation ::
  "renderer \<Rightarrow> nat \<Rightarrow> jsval \<Rightarrow> operation \<Rightarrow> store \<Rightarrow>
   ((string \<times> rvalue) list option \<times> gql_error list) \<times> store" where
  "run_operation md now ctx op st =
     (let errs = validate op in
      if errs \<noteq> [] then ((None, errs), st)
      else
        (let k = op_kind op;
             fs = merge_fields [] (collectFields (root_type k) (op_sels op));
             (cs, st') = exec_fields md now k ctx fs st
         in (response_of cs, st')))"

text \<open>
  The whole handler: helmet and cors headers, load-or-create the session, build the
  context from it, run the operation, save the session (\<open>resave: true\<close>), and send the
  cookie when the session is new.
\<close>

definition handle_request :: "renderer \<Rightarrow> request \<Rightarrow> server \<Rightarrow> response \<times> server" where
  "handle_request md rq sv =
     (let now = req_now rq;
          (k, s) = load_session now (req_cookie rq) (req_genid rq) (sessions sv);
          ctx = apollo_context s;
          ((data, errs), st') = run_operation md now ctx (req_op rq) (dataStore sv);
          hs = [HelmetHeaders, CorsAllowOrigin] @ (if req_cookie rq = Some k then [] else [SetCookie k])
      in (\<lparr>resp_headers = hs, resp_data = data, resp_errors = errs\<rparr>,
          \<lparr>sessions = save_session now k s (sessions sv), dataStore = st'\<rparr>))"

text \<open>
  \<open>expressServer.setTimeout(5000)\<close>: a response that takes longer is never delivered,
  but nothing the handler did to the stores is undone.
\<close>

definition server_timeout :: nat where
  "server_timeout = 5000"

definition serve :: "renderer \<Rightarrow> request \<Rightarrow> server \<Rightarrow> response option \<times> server" where
  "serve md rq sv =
     (let (resp, sv') = handle_request md rq sv
      in (if server_timeout < req_elapsed rq then None else Some resp, sv'))"

text \<open>
  \<open>server.applyMiddleware({ app, path: '/api' })\<close>: Apollo answers at \<open>/api\<close> only. A
  request to any other path still passes helmet, cors and the session middleware, which
  loads or creates its session and saves it when the response ends
  (\<open>saveUninitialized: true\<close>), and express answers 404.
\<close>

definition api_path :: string where
  "api_path = ''/api''"

datatype http_reply = ApiReply response | NotFound404

definition app_handle :: "renderer \<Rightarrow> string \<Rightarrow> request \<Rightarrow> server \<Rightarrow> http_reply option \<times> server" where
  "app_handle md path rq sv =
     (if path = api_path then (case serve md rq sv of (out, sv') \<Rightarrow> (map_option ApiReply out, sv'))
      else (case load_session (req_now rq) (req_cookie rq) (req_genid rq) (sessions sv) of
              (k, s) \<Rightarrow> (if server_timeout < req_elapsed rq then None else Some NotFound404,
                         sv\<lparr>sessions := save_session (req_now rq) k s (sessions sv)\<rparr>)))"

section \<open>The server as a state machine\<close>

inductive server_step :: "renderer \<Rightarrow> server \<Rightarrow> server \<Rightarrow> bool" for md where
  request: "serve md rq sv = (out, sv') \<Longrightarrow> server_step md sv sv'"
| other_path: "path \<noteq> api_path \<Longrightarrow> server_step md sv (snd (app_handle md path rq sv))"
| login: "sessions sv k = Some s \<Longrightarrow>
     server_step md sv (sv\<lparr>sessions := (sessions sv)(k \<mapsto> s\<lparr>sessUser := u\<rparr>)\<rparr>)"
| expire: "sessions sv k = Some s \<Longrightarrow> sessExpires s \<le> now \<Longrightarrow>
     server_step md sv (sv\<lparr>sessions := (sessions sv)(k := None)\<rparr>)"
| signup: "server_step md sv (sv\<lparr>dataStore := snd (createUser u (dataStore sv))\<rparr>)"

inductive reachable :: "renderer \<Rightarrow> server \<Rightarrow> bool" for md where
  init: "reachable md init_server"
| step: "reachable md sv \<Longrightarrow> server_step md sv sv' \<Longrightarrow> reachable md sv'"

text \<open>Requests handled one after another, each on the state the previous one left.\<close>

definition serve_all :: "renderer \<Rightarrow> request list \<Rightarrow> server \<Rightarrow> server" where
  "serve_all md rqs sv = fold (\<lambda>rq sv. snd (serve md rq sv)) rqs sv"

text \<open>
  A run of requests that keeps session \<open>k\<close> in use: each request carries the cookie
  \<open>k\<close> and arrives before the expiry \<open>e\<close> that the request before it left (at first,
  the stored expiry).
\<close>

fun active_run :: "sid \<Rightarrow> nat \<Rightarrow> request list \<Rightarrow> bool" where
  "active_run k e [] = True"
| "active_run k e (rq # rqs) =
     (req_cookie rq = Some k \<and> req_now rq < e \<and> active_run k (req_now rq + cookie_maxAge) rqs)"

definition server_inv :: "renderer \<Rightarrow> server \<Rightarrow> bool" where
  "server_inv md sv \<longleftrightarrow> html_inv md (dataStore sv) \<and> ids_inv (dataStore sv)"

text \<open>The two store invariants together.\<close>

definition store_ok :: "renderer \<Rightarrow> store \<Rightarrow> bool" where
  "store_ok md st \<longleftrightarrow> html_inv md st \<and> ids_inv st"

section \<open>Lemmas\<close>

inductive_cases server_stepE: "server_step md sv sv'"


subsection \<open>The store invariants across execution\<close>


lemma dispatch_mutation_cases:
  assumes "dispatch md now MutationOp f args ctx st = (r, st')"
  shows "st' = st \<or> (\<exists>c. Mutation_newNote md now c ctx st = (r, st')) \<or>
         (\<exists>i c. Mutation_updateNote md now i c ctx st = (r, st')) \<or>
         (\<exists>i. Mutation_deleteNote i ctx st = (r, st'))"
proof -
  consider (n) "f = ''newNote''" | (u) "f \<noteq> ''newNote''" "f = ''updateNote''"
    | (d) "f \<noteq> ''newNote''" "f \<noteq> ''updateNote''" "f = ''deleteNote''"
    | (o) "f \<noteq> ''newNote''" "f \<noteq> ''updateNote''" "f \<noteq> ''deleteNote''" by blast
  then show ?thesis
  proof cases
    case n
    with assms show ?thesis by (auto simp: bad_arg_def split: option.splits)
  next
    case u
    with assms show ?thesis by (auto simp: bad_arg_def split: option.splits)
  next
    case d
    with assms show ?thesis by (auto simp: bad_arg_def split: option.splits)
  next
    case o
    with assms show ?thesis
      by (auto simp: bad_arg_def Mutation_toggleReaction_def split: if_splits option.splits)
  qed
qed


lemma dispatch_query_notes:
  assumes "dispatch md now QueryOp f args ctx st = (r, st')"
  shows "noteList st' = noteList st \<and> nextId st' = nextId st \<and> userList st' = userList st"
proof -
  consider (s) "f = ''singleNote''" | (a) "f \<noteq> ''singleNote''" "f = ''allNotes''"
    | (m) "f \<noteq> ''singleNote''" "f \<noteq> ''allNotes''" by blast
  then show ?thesis
  proof cases
    case s
    with assms show ?thesis
      by (auto simp: bad_arg_def split: option.splits dest: Query_resolvers_notes(1))
  next
    case a
    with assms show ?thesis by (auto dest: Query_resolvers_notes(2))
  next
    case m
    with assms show ?thesis by (auto split: if_splits dest: Query_resolvers_notes(3))
  qed
qed


lemma dispatch_query_store_ok:
  assumes "dispatch md now QueryOp f args ctx st = (r, st')" and ok: "store_ok md st"
  shows "store_ok md st'"
proof -
  from dispatch_query_notes [OF assms(1)] have "noteList st' = noteList st \<and> nextId st' = nextId st"
    by simp
  with ok show ?thesis by (simp add: store_ok_def html_inv_def ids_inv_def)
qed

lemma dispatch_mutation_store_ok:
  assumes "dispatch md now MutationOp f args ctx st = (r, st')" and ok: "store_ok md st"
  shows "store_ok md st'"
proof -
  from assms(1) have "st' = st \<or> (\<exists>c. Mutation_newNote md now c ctx st = (r, st')) \<or>
         (\<exists>i c. Mutation_updateNote md now i c ctx st = (r, st')) \<or>
         (\<exists>i. Mutation_deleteNote i ctx st = (r, st'))"
    by (rule dispatch_mutation_cases)
  then show ?thesis
  proof (elim disjE exE)
    assume "st' = st"
    with ok show ?thesis by simp
  next
    fix c assume n: "Mutation_newNote md now c ctx st = (r, st')"
    from Mutation_newNote_inv [OF n] ok show ?thesis unfolding store_ok_def by blast
  next
    fix i c assume u: "Mutation_updateNote md now i c ctx st = (r, st')"
    from Mutation_updateNote_inv [OF u] ok show ?thesis unfolding store_ok_def by blast
  next
    fix i assume d: "Mutation_deleteNote i ctx st = (r, st')"
    from Mutation_deleteNote_inv [OF d] ok show ?thesis unfolding store_ok_def by blast
  qed
qed

lemma dispatch_store_ok:
  "dispatch md now k f args ctx st = (r, st') \<Longrightarrow> store_ok md st \<Longrightarrow> store_ok md st'"
  by (cases k) (simp_all del: dispatch.simps add: dispatch_query_store_ok dispatch_mutation_store_ok)

text \<open>A property of the store that every resolver call keeps is kept by a whole request.\<close>

lemma exec_fields_preserves:
  assumes "\<And>f args st r st'. dispatch md now k f args ctx st = (r, st') \<Longrightarrow> P st \<Longrightarrow> P st'"
  shows "exec_fields md now k ctx fs st = (rs, st') \<Longrightarrow> P st \<Longrightarrow> P st'"
proof (induction fs arbitrary: st rs st')
  case Nil
  then show ?case by simp
next
  case (Cons fa fs)
  obtain f args ss where fa: "fa = (f, args, ss)" by (cases fa) auto
  obtain r st1 where d: "dispatch md now k f args ctx st = (r, st1)" by fastforce
  obtain rs' st2 where e: "exec_fields md now k ctx fs st1 = (rs', st2)" by fastforce
  from Cons.prems fa d e have "st' = st2" by (simp add: Let_def)
  moreover from assms [OF d Cons.prems(2)] have "P st1" .
  ultimately show ?case using Cons.IH [OF e] by simp
qed

lemma handle_request_preserves:
  assumes "\<And>now k f args ctx st r st'. dispatch md now k f args ctx st = (r, st') \<Longrightarrow> P st \<Longrightarrow> P st'"
  shows "handle_request md rq sv = (resp, sv') \<Longrightarrow> P (dataStore sv) \<Longrightarrow> P (dataStore sv')"
  using exec_fields_preserves [OF assms]
  by (auto simp: handle_request_def run_operation_def Let_def split: if_splits prod.splits)

lemma handle_request_store_ok:
  "handle_request md rq sv = (resp, sv') \<Longrightarrow> store_ok md (dataStore sv) \<Longrightarrow> store_ok md (dataStore sv')"
  by (rule handle_request_preserves [OF dispatch_store_ok])

text \<open>No resolver touches the users collection.\<close>

lemma dispatch_users: "dispatch md now k f args ctx st = (r, st') \<Longrightarrow> userList st' = userList st"
proof (cases k)
  case QueryOp
  moreover assume "dispatch md now k f args ctx st = (r, st')"
  ultimately show ?thesis using dispatch_query_notes by blast
next
  case MutationOp
  moreover assume "dispatch md now k f args ctx st = (r, st')"
  ultimately have "st' = st \<or> (\<exists>c. Mutation_newNote md now c ctx st = (r, st')) \<or>
         (\<exists>i c. Mutation_updateNote md now i c ctx st = (r, st')) \<or>
         (\<exists>i. Mutation_deleteNote i ctx st = (r, st'))"
    using dispatch_mutation_cases by simp
  then show ?thesis by (elim disjE exE) (simp_all add: Mutation_users)
qed

lemma createUser_store_ok: "store_ok md st \<Longrightarrow> store_ok md (snd (createUser u st))"
  by (simp add: createUser_def touch_store_def store_ok_def html_inv_def ids_inv_def)

lemma server_step_inv: "server_step md sv sv' \<Longrightarrow> server_inv md sv \<Longrightarrow> server_inv md sv'"
proof (induction rule: server_step.induct)
  case (request rq sv out sv')
  then show ?case
    by (auto simp: serve_def server_inv_def Let_def store_ok_def [symmetric]
        split: prod.splits dest: handle_request_store_ok)
next
  case (other_path path sv rq)
  then show ?case by (simp add: app_handle_def server_inv_def split: prod.splits)
next
  case (login sv k s u)
  then show ?case by (simp add: server_inv_def)
next
  case (expire sv k s now)
  then show ?case by (simp add: server_inv_def)
next
  case (signup sv u)
  then show ?case by (simp add: server_inv_def store_ok_def [symmetric] createUser_store_ok)
qed

text \<open>No step of the server removes a user: only account creation changes the users.\<close>

lemma server_step_users:
  "server_step md sv sv' \<Longrightarrow> set (userList (dataStore sv)) \<subseteq> set (userList (dataStore sv'))"
proof (induction rule: server_step.induct)
  case (request rq sv out sv')
  have "userList (dataStore (snd (handle_request md rq sv))) = userList (dataStore sv)"
    by (rule handle_request_preserves [where P = "\<lambda>st. userList st = userList (dataStore sv)"
          and resp = "fst (handle_request md rq sv)"]) (auto dest: dispatch_users)
  with request show ?case by (simp add: serve_def Let_def split: prod.splits)
next
  case (other_path path sv rq)
  then show ?case by (simp add: app_handle_def split: prod.splits)
next
  case (signup sv u)
  then show ?case by (auto simp: createUser_def touch_store_def)
qed simp_all

lemma init_server_inv: "server_inv md init_server"
  by (simp add: server_inv_def init_server_def empty_store_def html_inv_def ids_inv_def)

lemma reachable_server_inv: "reachable md sv \<Longrightarrow> server_inv md sv"
proof (induction rule: reachable.induct)
  case init
  show ?case by (rule init_server_inv)
next
  case (step sv sv')
  then show ?case by (blast intro: server_step_inv)
qed

lemma run_operation_rejected:
  "validate op \<noteq> [] \<Longrightarrow> run_operation md now ctx op st = ((None, validate op), st)"
  by (simp add: run_operation_def)

lemma merge_fields_names:
  "distinct (map fst (merge_fields seen fs)) \<and>
   set (map fst (merge_fields seen fs)) = set (map fst fs) - set seen"
  by (induction seen fs rule: merge_fields.induct) auto

subsection \<open>A null \<open>data\<close> always comes with an error\<close>

lemma complete_root_field_explained: "explained (complete_root_field st k f ss r)"
proof (cases "field_type (root_type k) f")
  case None
  then show ?thesis by (simp add: complete_root_field_def explained_def)
next
  case (Some t)
  have "explained (case r of
                     Inl e \<Rightarrow> ([e], None)
                   | Inr v \<Rightarrow> complete_fv f t (\<lambda>ob. obj_value (complete_sels st ob ss)) (fval_of_result v))"
  proof (cases r)
    case (Inl e)
    then show ?thesis by (simp add: explained_def)
  next
    case (Inr v)
    have "explained (complete_fv f t (\<lambda>ob. obj_value (complete_sels st ob ss)) (fval_of_result v))"
      by (rule complete_fv_explained) (rule complete_sels_explained(2))
    with Inr show ?thesis by simp
  qed
  with Some show ?thesis by (simp add: complete_root_field_def catch_null_explained)
qed

lemma exec_fields_explained:
  "exec_fields md now k ctx fs st = (cs, st') \<Longrightarrow> \<forall>x \<in> set cs. explained (snd x)"
proof (induction fs arbitrary: st cs st')
  case Nil
  then show ?case by simp
next
  case (Cons fa fs)
  obtain f args ss where fa: "fa = (f, args, ss)" by (cases fa) auto
  obtain r st1 where d: "dispatch md now k f args ctx st = (r, st1)" by fastforce
  obtain cs' st2 where e: "exec_fields md now k ctx fs st1 = (cs', st2)" by fastforce
  from Cons.prems fa d e have "cs = (f, complete_root_field st1 k f ss r) # cs'" by (simp add: Let_def)
  with Cons.IH [OF e] show ?case by (simp add: complete_root_field_explained)
qed

lemma response_of_explained:
  "\<forall>x \<in> set cs. explained (snd x) \<Longrightarrow> fst (response_of cs) = None \<Longrightarrow> snd (response_of cs) \<noteq> []"
  by (auto simp: response_of_def explained_def list_all_iff split: if_splits)

lemma run_operation_explained:
  assumes "run_operation md now ctx op st = ((None, errs), st')"
  shows "errs \<noteq> []"
proof (cases "validate op = []")
  case True
  obtain cs st'' where e: "exec_fields md now (op_kind op) ctx
      (merge_fields [] (collectFields (root_type (op_kind op)) (op_sels op))) st = (cs, st'')"
    by fastforce
  from True e assms have "response_of cs = (None, errs)" by (simp add: run_operation_def Let_def)
  with response_of_explained [OF exec_fields_explained [OF e]] show ?thesis by simp
next
  case False
  with assms show ?thesis by (simp add: run_operation_def)
qed

section \<open>Properties of the gateway\<close>

text \<open>
  C1: the sanitisation invariant of spec section 3 holds in every state the server can
  reach: each stored note's \<open>htmlContent\<close> is the render of its \<open>content\<close>, whatever
  requests, logins and session expiries came before.
\<close>

theorem reachable_html_sanitized:
  "reachable md sv \<Longrightarrow> n \<in> set (noteList (dataStore sv)) \<Longrightarrow> htmlContent n = md (content n)"
  by (auto dest: reachable_server_inv simp: server_inv_def html_inv_def)


text \<open>
  C12: whenever a delivered response has a null \<open>data\<close>, it carries at least one
  error: a rejected operation its validation errors, an executed one the error of the
  field (resolver failure, dangling reference, null in a non-null position) whose null
  reached the root.
\<close>

theorem null_data_has_error:
  "fst (serve md rq sv) = Some r \<Longrightarrow> resp_data r = None \<Longrightarrow> resp_errors r \<noteq> []"
  by (auto simp: serve_def handle_request_def Let_def split: prod.splits if_splits
      dest: run_operation_explained)

text \<open>
  Field collection runs every root field name of the operation exactly once.
\<close>

theorem collected_fields_once:
  "distinct (map fst (merge_fields [] (collectFields t sels))) \<and>
   set (map fst (merge_fields [] (collectFields t sels))) = set (map fst (collectFields t sels))"
  using merge_fields_names [of "[]" "collectFields t sels"] by simp

subsection \<open>The state a request leaves\<close>

lemma step_serve: "server_step md sv (snd (serve md rq sv))"
  by (rule server_step.request [of md rq sv "fst (serve md rq sv)"]) simp

lemma serve_all_steps: "(server_step md)\<^sup>*\<^sup>* sv (serve_all md rqs sv)"
proof (induction rqs arbitrary: sv)
  case Nil
  then show ?case by (simp add: serve_all_def)
next
  case (Cons rq rqs)
  have "(server_step md)\<^sup>*\<^sup>* (snd (serve md rq sv)) (serve_all md rqs (snd (serve md rq sv)))"
    by (rule Cons.IH)
  with step_serve [of md sv rq] show ?case
    by (simp add: serve_all_def converse_rtranclp_into_rtranclp)
qed

lemma serve_state: "snd (serve md rq sv) = snd (handle_request md rq sv)"
  by (simp add: serve_def split: prod.splits)

lemma handle_request_state:
  "snd (handle_request md rq sv) =
     (case load_session (req_now rq) (req_cookie rq) (req_genid rq) (sessions sv) of
        (k, s) \<Rightarrow> \<lparr>sessions = save_session (req_now rq) k s (sessions sv),
                   dataStore = snd (run_operation md (req_now rq) (apollo_context s) (req_op rq) (dataStore sv))\<rparr>)"
  by (simp add: handle_request_def Let_def split: prod.splits)

lemma serve_all_Cons: "serve_all md (rq # rqs) sv = serve_all md rqs (snd (serve md rq sv))"
  by (simp add: serve_all_def)

text \<open>
  C10: an active session never expires. Take a stored session and any run of requests
  that carry its cookie, each arriving before the expiry the one before it left, that
  is, less than two weeks after it. However long the run, the session is still stored
  afterwards with the same user, and it expires two weeks after the last request of
  the run.
\<close>

theorem session_active_never_expires:
  "sessions sv k = Some s \<Longrightarrow> active_run k (sessExpires s) rqs \<Longrightarrow>
     sessions (serve_all md rqs sv) k =
       Some (s\<lparr>sessExpires := (if rqs = [] then sessExpires s else req_now (last rqs) + cookie_maxAge)\<rparr>)"
proof (induction rqs arbitrary: sv s)
  case Nil
  then show ?case by (simp add: serve_all_def)
next
  case (Cons rq rqs)
  let ?s1 = "s\<lparr>sessExpires := req_now rq + cookie_maxAge\<rparr>"
  from Cons.prems have c: "req_cookie rq = Some k" "req_now rq < sessExpires s"
    and run: "active_run k (sessExpires ?s1) rqs" by simp_all
  have "sessions (snd (serve md rq sv)) k = Some ?s1"
    using Cons.prems(1) c by (simp add: serve_state handle_request_state load_session_def save_session_def)
  from Cons.IH [OF this run] show ?case by (simp add: serve_all_Cons)
qed

text \<open>
  C18: a request that carries no session cookie stores a new session under the id it
  was given, with a two-week expiry, whatever path it asks for: with
  \<open>saveUninitialized: true\<close> the session store grows by one entry per such request.
\<close>

theorem cookieless_request_stores_session:
  assumes "req_cookie rq = None"
  shows "sessions (snd (app_handle md path rq sv)) = (sessions sv)(req_genid rq \<mapsto> fresh_session (req_now rq))"
proof (cases "path = api_path")
  case True
  then have "snd (app_handle md path rq sv) = snd (serve md rq sv)"
    by (simp add: app_handle_def split: prod.splits)
  with assms show ?thesis
    by (simp add: serve_state handle_request_state load_session_def save_session_def fresh_session_def)
next
  case False
  with assms show ?thesis
    by (simp add: app_handle_def load_session_def save_session_def fresh_session_def)
qed

end
