(* ===== verification/Fragments.thy ===== *)
theory Fragments
  imports QueryGuard "HOL-Library.Monad_Syntax"
begin

text \<open>
  Documents with named fragments, and the walk of graphql-depth-limit over them. The
  library's \<open>determineDepth(node, fragments, depthSoFar, maxDepth, ...)\<close> follows a
  fragment spread into the fragment's definition without adding depth and without
  remembering which fragments it has entered. It runs when the rule is created, before
  graphql-js's own rules visit the document. A spread cycle that passes through no
  field with a selection set therefore sends it into unbounded recursion: the walk is a
  \<open>partial_function (option)\<close>, \<open>None\<close> being "never returns a verdict" (in the engine,
  the call stack overflows and the exception leaves the validation).
\<close>

datatype dsel =
    DField string "(string \<times> jsval) list" "dsel list"
  | DInline "string option" "dsel list"
  | DSpread string

record fragment =
  frag_name :: string
  frag_on :: string
  frag_sels :: "dsel list"

record document =
  doc_kind :: op_kind
  doc_sels :: "dsel list"
  doc_frags :: "fragment list"

text \<open>
  \<open>getFragments\<close>: an object keyed by fragment name built in document order, so a later
  definition of the same name replaces an earlier one.
\<close>

definition frag_lookup :: "fragment list \<Rightarrow> string \<Rightarrow> fragment option" where
  "frag_lookup fs n = find (\<lambda>fr. frag_name fr = n) (rev fs)"

text \<open>
  What a call returns: a depth; \<open>undefined\<close> after \<open>context.reportError\<close>, which turns
  every enclosing \<open>1 + Math.max(...)\<close> into \<open>NaN\<close>; or an exception, when a spread
  names no fragment and the walk reads \<open>node.kind\<close> of \<open>undefined\<close>.
\<close>

datatype depth_result = DepthOk nat | DepthReported | DepthThrew

fun dmax :: "depth_result \<Rightarrow> depth_result \<Rightarrow> depth_result" where
  "dmax (DepthOk a) (DepthOk b) = DepthOk (max a b)"
| "dmax DepthThrew b = DepthThrew"
| "dmax a DepthThrew = DepthThrew"
| "dmax a b = DepthReported"

fun dsuc :: "depth_result \<Rightarrow> depth_result" where
  "dsuc (DepthOk k) = DepthOk (Suc k)"
| "dsuc r = r"

text \<open>
  \<open>dl_depths (m, fs) d ss\<close>: the selections \<open>ss\<close> of one selection set at depth \<open>d\<close>,
  walked left to right as \<open>selections.map(...)\<close> does; an exception stops the walk,
  a reported error does not.
\<close>

text \<open>
  The parameters the walk passes on unchanged, \<open>maxDepth\<close> and \<open>fragments\<close>, travel
  as one pair.
\<close>

type_synonym dl_env = "nat \<times> fragment list"

partial_function (option) dl_depths ::
  "dl_env \<Rightarrow> nat \<Rightarrow> dsel list \<Rightarrow> depth_result option" where
  "dl_depths env d ss =
     (case ss of
        [] \<Rightarrow> Some (DepthOk 0)
      | s # rest \<Rightarrow>
          do {
            a \<leftarrow> (if fst env < d then Some DepthReported
                  else (case s of
                          DField f args sub \<Rightarrow>
                            (if is_meta_field f \<or> sub = [] then Some (DepthOk 0)
                             else do { k \<leftarrow> dl_depths env (Suc d) sub; Some (dsuc k) })
                        | DInline tc sub \<Rightarrow> dl_depths env d sub
                        | DSpread n \<Rightarrow>
                            (case frag_lookup (snd env) n of
                               None \<Rightarrow> Some DepthThrew
                             | Some fr \<Rightarrow> dl_depths env d (frag_sels fr))));
            (if a = DepthThrew then Some DepthThrew
             else do { b \<leftarrow> dl_depths env d rest; Some (dmax a b) })
          })"

declare dl_depths.simps [code]

text \<open>\<open>depthLimit(m)\<close> on a document: the operation definition's selections at depth 0.\<close>

definition doc_depth :: "nat \<Rightarrow> document \<Rightarrow> depth_result option" where
  "doc_depth m doc = dl_depths (m, doc_frags doc) 0 (doc_sels doc)"

text \<open>A query of \<open>QueryGuard\<close>, with its fragments inlined, as a document selection.\<close>

fun of_sel :: "selection \<Rightarrow> dsel" where
  "of_sel (Field f args ss) = DField f args (map of_sel ss)"
| "of_sel (InlineFragment tc ss) = DInline tc (map of_sel ss)"

definition of_depth :: "unit + nat \<Rightarrow> depth_result" where
  "of_depth r = (case r of Inl u \<Rightarrow> DepthReported | Inr k \<Rightarrow> DepthOk k)"

text \<open>The spreads of a selection set that are not below a field: entering them adds no depth.\<close>

fun direct_spreads :: "dsel list \<Rightarrow> string list" where
  "direct_spreads [] = []"
| "direct_spreads (DField f args sub # ss) = direct_spreads ss"
| "direct_spreads (DInline tc sub # ss) = direct_spreads sub @ direct_spreads ss"
| "direct_spreads (DSpread n # ss) = n # direct_spreads ss"

text \<open>
  A ranking of the fragments: a fragment's direct spreads name fragments of smaller
  rank (or none at all). Spreads below a field are unconstrained: the depth grows there.
\<close>

definition frags_ranked :: "(string \<Rightarrow> nat) \<Rightarrow> fragment list \<Rightarrow> bool" where
  "frags_ranked rk fs \<longleftrightarrow>
     (\<forall>fr \<in> set fs. \<forall>n \<in> set (direct_spreads (frag_sels fr)).
        frag_lookup fs n \<noteq> None \<longrightarrow> rk n < rk (frag_name fr))"

text \<open>
  The spread a selection set leads with: the first spread, reached past leaf and
  introspection fields only (fields that contribute depth 0 at once).
\<close>

fun lead_spread :: "dsel list \<Rightarrow> string option" where
  "lead_spread [] = None"
| "lead_spread (DField f args sub # ss) =
     (if is_meta_field f \<or> sub = [] then lead_spread ss else None)"
| "lead_spread (DInline tc sub # ss) = None"
| "lead_spread (DSpread n # ss) = Some n"

text \<open>
  A spread cycle through the fragments named in \<open>S\<close>: each is defined and leads with
  a spread of another name in \<open>S\<close>, so no field with a selection set lies on the cycle.
\<close>

definition spread_cycle :: "fragment list \<Rightarrow> string list \<Rightarrow> bool" where
  "spread_cycle fs S \<longleftrightarrow>
     (\<forall>n \<in> set S. case frag_lookup fs n of
                     None \<Rightarrow> False
                   | Some fr \<Rightarrow> (case lead_spread (frag_sels fr) of None \<Rightarrow> False | Some n' \<Rightarrow> n' \<in> set S))"

text \<open>
  The measure of the termination argument: one more than the largest rank among the
  direct spreads of a selection set that name a fragment.
\<close>

definition spread_rank :: "(string \<Rightarrow> nat) \<Rightarrow> fragment list \<Rightarrow> dsel list \<Rightarrow> nat" where
  "spread_rank rk fs ss =
     Max (insert 0 ((\<lambda>n. Suc (rk n)) ` set (filter (\<lambda>n. frag_lookup fs n \<noteq> None) (direct_spreads ss))))"

section \<open>Lemmas\<close>

lemma dl_depths_Nil: "dl_depths env d [] = Some (DepthOk 0)"
  by (subst dl_depths.simps) simp

lemma dmax_DepthOk_0: "a \<noteq> DepthThrew \<Longrightarrow> dmax a (DepthOk 0) = a"
  by (cases a) auto

lemma if_threw_Some: "(if a = DepthThrew then Some DepthThrew else Some a) = Some a"
  by simp

text \<open>A selection set is walked as its first selection, then the rest.\<close>

lemma dl_depths_Cons:
  "dl_depths env d (s # rest) =
     do { a \<leftarrow> dl_depths env d [s];
          (if a = DepthThrew then Some DepthThrew
           else do { b \<leftarrow> dl_depths env d rest; Some (dmax a b) }) }"
  apply (subst (1 2) dl_depths.simps)
  apply (auto simp: dl_depths_Nil dmax_DepthOk_0 if_threw_Some split: option.splits cong: if_cong)
  done

text \<open>On a query without spreads the walk is the one of \<open>QueryGuard\<close>.\<close>

lemma dl_depths_of_sel:
  "dl_depths (m, fs) d [of_sel s] = Some (of_depth (determineDepth m d s))"
  "dl_depths (m, fs) d (map of_sel ss) = Some (of_depth (determineDepths m d ss))"
proof (induction m d s and m d ss rule: determineDepth_determineDepths.induct)
  case (1 m d f args ss)
  then show ?case
    by (subst dl_depths.simps)
       (auto simp: dl_depths_Nil of_depth_def split: sum.splits cong: if_cong)
next
  case (2 m d tc ss)
  then show ?case
    by (subst dl_depths.simps) (auto simp: dl_depths_Nil of_depth_def split: sum.splits)
next
  case (3 m d)
  then show ?case by (simp add: dl_depths_Nil of_depth_def)
next
  case (4 m d s ss)
  then show ?case
    unfolding list.map by (subst dl_depths_Cons) (auto simp: of_depth_def split: sum.splits)
qed

lemma frag_lookup_Some: "frag_lookup fs n = Some fr \<Longrightarrow> fr \<in> set fs \<and> frag_name fr = n"
  unfolding frag_lookup_def by (auto dest: find_Some_in_set)

lemma spread_rank_Cons_tail: "spread_rank rk fs rest \<le> spread_rank rk fs (s # rest)"
  by (cases s) (auto simp: spread_rank_def intro!: Max_mono)

lemma spread_rank_Inline: "spread_rank rk fs sub \<le> spread_rank rk fs (DInline tc sub # rest)"
  by (auto simp: spread_rank_def intro!: Max_mono)

lemma spread_rank_frag:
  assumes ranked: "frags_ranked rk fs" and lk: "frag_lookup fs n = Some fr"
  shows "spread_rank rk fs (frag_sels fr) < spread_rank rk fs (DSpread n # rest)"
proof -
  from lk have fr: "fr \<in> set fs" "frag_name fr = n" by (auto dest: frag_lookup_Some)
  have "spread_rank rk fs (frag_sels fr) \<le> rk n"
    using ranked fr unfolding spread_rank_def frags_ranked_def
    by (auto simp: Suc_le_eq)
  moreover have "Suc (rk n) \<le> spread_rank rk fs (DSpread n # rest)"
    using lk unfolding spread_rank_def by (auto intro: Max_ge)
  ultimately show ?thesis by simp
qed

text \<open>
  Under a ranking the walk returns: every call goes deeper (below a field, while the
  depth is within the limit), into a fragment of smaller rank, or into a smaller part
  of the selection set.
\<close>

lemma dl_depths_ranked_returns:
  assumes ranked: "frags_ranked rk fs"
  shows "\<exists>r. dl_depths (m, fs) d ss = Some r"
proof (induction "(d, ss)" arbitrary: d ss rule: wf_induct_rule [OF wf_measures
    [of "[\<lambda>(d, ss). Suc m - d, \<lambda>(d, ss). spread_rank rk fs ss, \<lambda>(d, ss). size_list size ss]"]])
  case (1 d ss)
  then have IH: "\<And>d' ss'. Suc m - d' < Suc m - d \<or>
      (Suc m - d' = Suc m - d \<and> (spread_rank rk fs ss' < spread_rank rk fs ss \<or>
        (spread_rank rk fs ss' = spread_rank rk fs ss \<and> size_list size ss' < size_list size ss)))
      \<Longrightarrow> \<exists>r. dl_depths (m, fs) d' ss' = Some r"
    by (simp add: in_measures)
  show ?case
  proof (cases ss)
    case Nil
    then show ?thesis by (simp add: dl_depths_Nil)
  next
    case (Cons s rest)
    have tl: "\<exists>r. dl_depths (m, fs) d rest = Some r"
      using spread_rank_Cons_tail [of rk fs rest s] by (intro IH) (auto simp: Cons le_less)
    have hd: "\<exists>a. (if fst (m, fs) < d then Some DepthReported
                  else (case s of
                          DField f args sub \<Rightarrow>
                            (if is_meta_field f \<or> sub = [] then Some (DepthOk 0)
                             else do { k \<leftarrow> dl_depths (m, fs) (Suc d) sub; Some (dsuc k) })
                        | DInline tc sub \<Rightarrow> dl_depths (m, fs) d sub
                        | DSpread n \<Rightarrow>
                            (case frag_lookup (snd (m, fs)) n of
                               None \<Rightarrow> Some DepthThrew
                             | Some fr \<Rightarrow> dl_depths (m, fs) d (frag_sels fr)))) = Some a"
      (is "\<exists>a. ?node = Some a")
    proof (cases "m < d")
      case False
      show ?thesis
      proof (cases s)
        case (DField f args sub)
        have "\<exists>r. dl_depths (m, fs) (Suc d) sub = Some r"
          using False by (intro IH) (simp add: Suc_diff_le)
        with False DField show ?thesis by auto
      next
        case (DInline tc sub)
        have "\<exists>r. dl_depths (m, fs) d sub = Some r"
          using spread_rank_Inline [of rk fs sub tc rest] DInline Cons
          by (intro IH) (auto simp: le_less)
        with False DInline show ?thesis by auto
      next
        case (DSpread n)
        show ?thesis
        proof (cases "frag_lookup fs n")
          case None
          with False DSpread show ?thesis by simp
        next
          case (Some fr)
          have "\<exists>r. dl_depths (m, fs) d (frag_sels fr) = Some r"
            using spread_rank_frag [OF ranked Some, of rest] DSpread Cons by (intro IH) simp
          with False DSpread Some show ?thesis by auto
        qed
      qed
    qed simp
    from hd obtain a where a: "?node = Some a" by blast
    from tl obtain r where r: "dl_depths (m, fs) d rest = Some r" by blast
    show ?thesis
      unfolding Cons by (subst dl_depths.simps) (unfold list.case a, simp add: r)
  qed
qed

lemma spread_cycle_step:
  assumes "spread_cycle fs S" and "n \<in> set S"
  shows "\<exists>fr n'. frag_lookup fs n = Some fr \<and> lead_spread (frag_sels fr) = Some n' \<and> n' \<in> set S"
proof -
  from assms have c: "case frag_lookup fs n of
                     None \<Rightarrow> False
                   | Some fr \<Rightarrow> (case lead_spread (frag_sels fr) of None \<Rightarrow> False | Some n' \<Rightarrow> n' \<in> set S)"
    unfolding spread_cycle_def by blast
  then obtain fr where fr: "frag_lookup fs n = Some fr" by (cases "frag_lookup fs n") auto
  with c obtain n' where "lead_spread (frag_sels fr) = Some n'" by (cases "lead_spread (frag_sels fr)") auto
  with c fr show ?thesis by auto
qed

text \<open>
  A walk that reaches a spread cycle within the depth limit never returns: each step of
  the cycle re-enters the walk at the same depth with a selection set that again leads
  with a spread of the cycle.
\<close>

lemma dl_depths_cycle_diverges:
  assumes cyc: "spread_cycle fs S" and lead: "lead_spread ss = Some n" "n \<in> set S"
    and le: "d \<le> m"
  shows "dl_depths (m, fs) d ss = None"
proof (rule ccontr)
  assume "dl_depths (m, fs) d ss \<noteq> None"
  then obtain r where ret: "dl_depths (m, fs) d ss = Some r" by blast
  have "\<not> (env = (m, fs) \<and> d' = d \<and> (\<exists>n \<in> set S. lead_spread ss' = Some n))"
    if "dl_depths env d' ss' = Some r" for env d' ss' r
  proof (rule dl_depths.raw_induct [where P = "\<lambda>env d' ss' r.
           \<not> (env = (m, fs) \<and> d' = d \<and> (\<exists>n \<in> set S. lead_spread ss' = Some n))", OF _ that])
    fix f :: "dl_env \<Rightarrow> nat \<Rightarrow> dsel list \<Rightarrow> depth_result option" and env d' ss' r
    assume IH: "\<And>env d' ss' r. f env d' ss' = Some r \<Longrightarrow>
                  \<not> (env = (m, fs) \<and> d' = d \<and> (\<exists>n \<in> set S. lead_spread ss' = Some n))"
      and eq: "(case ss' of
        [] \<Rightarrow> Some (DepthOk 0)
      | s # rest \<Rightarrow>
          do {
            a \<leftarrow> (if fst env < d' then Some DepthReported
                  else (case s of
                          DField f' args sub \<Rightarrow>
                            (if is_meta_field f' \<or> sub = [] then Some (DepthOk 0)
                             else do { k \<leftarrow> f env (Suc d') sub; Some (dsuc k) })
                        | DInline tc sub \<Rightarrow> f env d' sub
                        | DSpread n \<Rightarrow>
                            (case frag_lookup (snd env) n of
                               None \<Rightarrow> Some DepthThrew
                             | Some fr \<Rightarrow> f env d' (frag_sels fr))));
            (if a = DepthThrew then Some DepthThrew
             else do { b \<leftarrow> f env d' rest; Some (dmax a b) })
          }) = Some r"
    show "\<not> (env = (m, fs) \<and> d' = d \<and> (\<exists>n \<in> set S. lead_spread ss' = Some n))"
    proof
      assume c: "env = (m, fs) \<and> d' = d \<and> (\<exists>n \<in> set S. lead_spread ss' = Some n)"
      then obtain n where n: "n \<in> set S" "lead_spread ss' = Some n" and e: "env = (m, fs)" "d' = d"
        by blast
      show False
      proof (cases ss')
        case Nil
        with n show False by simp
      next
        case (Cons s rest)
        show False
        proof (cases s)
          case (DField f' args sub)
          with n Cons have flat: "is_meta_field f' \<or> sub = []" and tl: "lead_spread rest = Some n"
            by (auto split: if_splits)
          from eq Cons DField flat le e obtain b where "f env d' rest = Some b"
            by (auto simp: bind_eq_Some_conv split: option.splits if_splits)
          with IH tl n e show False by blast
        next
          case (DInline tc sub)
          with n Cons show False by simp
        next
          case (DSpread n')
          with n Cons have "n' = n" by simp
          from spread_cycle_step [OF cyc n(1)] obtain fr n'' where fr: "frag_lookup fs n = Some fr"
            and l: "lead_spread (frag_sels fr) = Some n''" and n'': "n'' \<in> set S"
            by blast
          from eq Cons DSpread \<open>n' = n\<close> fr le e obtain a where "f env d' (frag_sels fr) = Some a"
            by (auto simp: bind_eq_Some_conv split: option.splits if_splits)
          with IH l n'' e show False by blast
        qed
      qed
    qed
  qed
  with ret lead show False by blast
qed

section \<open>Properties of the depth rule on documents\<close>

text \<open>
  C14: the depth rule returns a verdict on every document whose fragments can be
  ranked so that each fragment's spreads outside fields name fragments of smaller rank;
  spread cycles that pass through a field are allowed, since the depth grows along them.
\<close>

theorem doc_depth_returns:
  "frags_ranked rk (doc_frags doc) \<Longrightarrow> \<exists>r. doc_depth m doc = Some r"
  unfolding doc_depth_def by (rule dl_depths_ranked_returns)

text \<open>
  C15: a document whose operation leads with a spread into a cycle of fragments that
  passes through no field with a selection set sends the depth rule into unbounded
  recursion: it never returns a verdict, whatever the depth limit.
\<close>

theorem doc_depth_cycle_diverges:
  "spread_cycle (doc_frags doc) S \<Longrightarrow> lead_spread (doc_sels doc) = Some n \<Longrightarrow> n \<in> set S \<Longrightarrow>
     doc_depth m doc = None"
  unfolding doc_depth_def by (rule dl_depths_cycle_diverges) simp_all

end
