(* ===== verification/Interleaving.thy ===== *)
theory Interleaving
  imports Gateway
begin

text \<open>
  Requests interleaved at every await. \<open>Gateway\<close> runs a request as one step; in the
  program, a request is spread over the event loop. express-session loads the session
  when the request arrives and writes its in-memory copy back when the response ends
  (\<open>resave: true\<close>, \<open>src/api/index.js\<close> lines 32-43). Between the two, graphql-js
  resolves the root fields one at a time, awaiting each resolver's store call. Other
  requests run in those gaps. Here an in-flight request is a \<open>job\<close>: the session it
  loaded, its context, the root fields still to run and the completions so far. A step
  starts a job, runs one root field of any job, finishes a job (saving its session), or
  is a request to another path, a login, a session expiry or an account creation, as in
  \<open>server_step\<close>.
\<close>

record job =
  job_sid :: sid
  job_sess :: session
  job_now :: nat
  job_kind :: op_kind
  job_ctx :: jsval
  job_todo :: "root_field list"
  job_done :: "(string \<times> completion) list"

record iserver =
  isessions :: session_store
  istore :: store
  ijobs :: "job list"

text \<open>The job a request that passed validation starts as: its context is built once, from the loaded session.\<close>

definition new_job :: "request \<Rightarrow> sid \<Rightarrow> session \<Rightarrow> job" where
  "new_job rq k s =
     \<lparr>job_sid = k, job_sess = s, job_now = req_now rq, job_kind = op_kind (req_op rq),
      job_ctx = apollo_context s,
      job_todo = merge_fields [] (collectFields (root_type (op_kind (req_op rq))) (op_sels (req_op rq))),
      job_done = []\<rparr>"

definition lift_server :: "server \<Rightarrow> iserver" where
  "lift_server sv = \<lparr>isessions = sessions sv, istore = dataStore sv, ijobs = []\<rparr>"

inductive istep :: "renderer \<Rightarrow> iserver \<Rightarrow> iserver \<Rightarrow> bool" for md where
  start: "load_session (req_now (rq :: request)) (req_cookie rq) (req_genid rq) (isessions sv) = (k, s) \<Longrightarrow>
     validate (req_op rq) = [] \<Longrightarrow>
     istep md sv (sv\<lparr>ijobs := ijobs sv @ [new_job rq k s]\<rparr>)"
| rejected: "load_session (req_now (rq :: request)) (req_cookie rq) (req_genid rq) (isessions sv) = (k, s) \<Longrightarrow>
     validate (req_op rq) \<noteq> [] \<Longrightarrow>
     istep md sv (sv\<lparr>isessions := save_session (req_now rq) k s (isessions sv)\<rparr>)"
| other_path: "load_session (req_now (rq :: request)) (req_cookie rq) (req_genid rq) (isessions sv) = (k, s) \<Longrightarrow>
     istep md sv (sv\<lparr>isessions := save_session (req_now rq) k s (isessions sv)\<rparr>)"
| field: "x < length (ijobs sv) \<Longrightarrow> ijobs sv ! x = j \<Longrightarrow> job_todo j = (f, args, ss) # rest \<Longrightarrow>
     dispatch md (job_now j) (job_kind j) f args (job_ctx j) (istore sv) = (r, st1) \<Longrightarrow>
     istep md sv (sv\<lparr>istore := st1, ijobs := (ijobs sv)[x := j\<lparr>job_todo := rest,
        job_done := job_done j @ [(f, complete_root_field st1 (job_kind j) f ss r)]\<rparr>]\<rparr>)"
| finish: "x < length (ijobs sv) \<Longrightarrow> ijobs sv ! x = j \<Longrightarrow> job_todo j = [] \<Longrightarrow>
     istep md sv (sv\<lparr>isessions := save_session (job_now j) (job_sid j) (job_sess j) (isessions sv),
        ijobs := take x (ijobs sv) @ drop (Suc x) (ijobs sv)\<rparr>)"
| login: "isessions sv k = Some s \<Longrightarrow>
     istep md sv (sv\<lparr>isessions := (isessions sv)(k \<mapsto> s\<lparr>sessUser := u\<rparr>)\<rparr>)"
| expire: "isessions sv k = Some s \<Longrightarrow> sessExpires s \<le> now \<Longrightarrow>
     istep md sv (sv\<lparr>isessions := (isessions sv)(k := None)\<rparr>)"
| signup: "istep md sv (sv\<lparr>istore := snd (createUser u (istore sv))\<rparr>)"

inductive ireachable :: "renderer \<Rightarrow> iserver \<Rightarrow> bool" for md where
  init: "ireachable md (lift_server init_server)"
| step: "ireachable md sv \<Longrightarrow> istep md sv sv' \<Longrightarrow> ireachable md sv'"

section \<open>Lemmas\<close>

lemma istep_store_ok: "istep md sv sv' \<Longrightarrow> store_ok md (istore sv) \<Longrightarrow> store_ok md (istore sv')"
proof (induction rule: istep.induct)
  case (field x sv j f args ss rest r st1)
  then show ?case by (auto dest: dispatch_store_ok)
next
  case (signup sv u)
  then show ?case by (simp add: createUser_store_ok)
qed simp_all

lemma ireachable_store_ok: "ireachable md sv \<Longrightarrow> store_ok md (istore sv)"
proof (induction rule: ireachable.induct)
  case init
  show ?case
    by (simp add: lift_server_def init_server_def empty_store_def store_ok_def html_inv_def ids_inv_def)
next
  case (step sv sv')
  then show ?case by (blast intro: istep_store_ok)
qed

text \<open>A single in-flight job runs its remaining root fields as \<open>exec_fields\<close> does.\<close>

lemma istep_run_fields:
  assumes "ijobs sv = [j]" and "exec_fields md (job_now j) (job_kind j) (job_ctx j) (job_todo j) (istore sv) = (cs, st')"
  shows "(istep md)\<^sup>*\<^sup>* sv (sv\<lparr>istore := st', ijobs := [j\<lparr>job_todo := [], job_done := job_done j @ cs\<rparr>]\<rparr>)"
  using assms
proof (induction "job_todo j" arbitrary: sv j cs st')
  case Nil
  then have "sv\<lparr>istore := st', ijobs := [j\<lparr>job_todo := [], job_done := job_done j @ cs\<rparr>]\<rparr> = sv"
    by (cases sv) (simp add: Nil.hyps [symmetric])
  then show ?case by simp
next
  case (Cons fa rest)
  obtain f args ss where fa: "fa = (f, args, ss)" by (cases fa) auto
  obtain r st1 where d: "dispatch md (job_now j) (job_kind j) f args (job_ctx j) (istore sv) = (r, st1)"
    by fastforce
  obtain cs' st2 where e: "exec_fields md (job_now j) (job_kind j) (job_ctx j) rest st1 = (cs', st2)"
    by fastforce
  let ?c = "complete_root_field st1 (job_kind j) f ss r"
  let ?j1 = "j\<lparr>job_todo := rest, job_done := job_done j @ [(f, ?c)]\<rparr>"
  let ?sv1 = "sv\<lparr>istore := st1, ijobs := [?j1]\<rparr>"
  from Cons.prems(2) Cons.hyps(2) [symmetric] fa d e have cs: "cs = (f, ?c) # cs'" and st': "st' = st2"
    by (simp_all add: Let_def)
  have "istep md sv (sv\<lparr>istore := st1, ijobs := (ijobs sv)[0 := ?j1]\<rparr>)"
    using Cons.prems(1) Cons.hyps(2) [symmetric] fa d by (intro istep.field) simp_all
  then have s1: "istep md sv ?sv1" using Cons.prems(1) by simp
  have "(istep md)\<^sup>*\<^sup>* ?sv1 (?sv1\<lparr>istore := st2, ijobs := [?j1\<lparr>job_todo := [], job_done := job_done ?j1 @ cs'\<rparr>]\<rparr>)"
    using e by (intro Cons.hyps(1)) simp_all
  with s1 cs st' show ?case by (simp add: converse_rtranclp_into_rtranclp)
qed

lemma run_operation_valid:
  "validate op = [] \<Longrightarrow>
   exec_fields md now (op_kind op) ctx (merge_fields [] (collectFields (root_type (op_kind op)) (op_sels op))) st
     = (cs, st') \<Longrightarrow> snd (run_operation md now ctx op st) = st'"
  by (simp add: run_operation_def Let_def)

text \<open>One request of \<open>Gateway\<close>: start, each root field in turn, finish.\<close>

lemma istep_request:
  assumes "serve md rq sv = (out, sv')"
  shows "(istep md)\<^sup>*\<^sup>* (lift_server sv) (lift_server sv')"
proof -
  obtain k s where ls: "load_session (req_now rq) (req_cookie rq) (req_genid rq) (sessions sv) = (k, s)"
    by fastforce
  have sv': "sv' = \<lparr>sessions = save_session (req_now rq) k s (sessions sv),
      dataStore = snd (run_operation md (req_now rq) (apollo_context s) (req_op rq) (dataStore sv))\<rparr>"
    using assms serve_state [of md rq sv] handle_request_state [of md rq sv] ls by simp
  show ?thesis
  proof (cases "validate (req_op rq) = []")
    case False
    have "istep md (lift_server sv) ((lift_server sv)\<lparr>isessions := save_session (req_now rq) k s (sessions sv)\<rparr>)"
      using ls False istep.rejected [where sv = "lift_server sv" and rq = rq] by (simp add: lift_server_def)
    with False show ?thesis by (simp add: sv' lift_server_def run_operation_rejected)
  next
    case True
    let ?j = "new_job rq k s"
    let ?sv0 = "(lift_server sv)\<lparr>ijobs := [?j]\<rparr>"
    have s0: "istep md (lift_server sv) ?sv0"
      using ls True istep.start [where sv = "lift_server sv" and rq = rq] by (simp add: lift_server_def)
    obtain cs st' where e: "exec_fields md (job_now ?j) (job_kind ?j) (job_ctx ?j) (job_todo ?j) (istore ?sv0) = (cs, st')"
      by fastforce
    let ?j' = "?j\<lparr>job_todo := [], job_done := job_done ?j @ cs\<rparr>"
    let ?sv1 = "?sv0\<lparr>istore := st', ijobs := [?j']\<rparr>"
    have s1: "(istep md)\<^sup>*\<^sup>* ?sv0 ?sv1" using e by (intro istep_run_fields) simp_all
    have s2: "istep md ?sv1 (?sv1\<lparr>isessions := save_session (job_now ?j') (job_sid ?j') (job_sess ?j') (isessions ?sv1),
        ijobs := take 0 (ijobs ?sv1) @ drop (Suc 0) (ijobs ?sv1)\<rparr>)"
      by (rule istep.finish) simp_all
    have "snd (run_operation md (req_now rq) (apollo_context s) (req_op rq) (dataStore sv)) = st'"
      using True e by (intro run_operation_valid) (simp_all add: new_job_def lift_server_def)
    then have eq: "?sv1\<lparr>isessions := save_session (job_now ?j') (job_sid ?j') (job_sess ?j') (isessions ?sv1),
        ijobs := take 0 (ijobs ?sv1) @ drop (Suc 0) (ijobs ?sv1)\<rparr> = lift_server sv'"
      by (simp add: sv' lift_server_def new_job_def)
    from s0 s1 have "(istep md)\<^sup>*\<^sup>* (lift_server sv) ?sv1" by (rule converse_rtranclp_into_rtranclp)
    from this s2 have "(istep md)\<^sup>*\<^sup>* (lift_server sv) (?sv1\<lparr>isessions := save_session (job_now ?j') (job_sid ?j') (job_sess ?j') (isessions ?sv1),
        ijobs := take 0 (ijobs ?sv1) @ drop (Suc 0) (ijobs ?sv1)\<rparr>)" by (rule rtranclp.rtrancl_into_rtrancl)
    then show ?thesis by (simp only: eq)
  qed
qed

text \<open>Each step of the atomic server, as interleaved steps.\<close>

lemma server_step_isteps:
  "server_step md sv sv' \<Longrightarrow> (istep md)\<^sup>*\<^sup>* (lift_server sv) (lift_server sv')"
proof (induction rule: server_step.induct)
  case (request rq sv out sv')
  then show ?case by (rule istep_request)
next
  case (other_path path sv rq)
  obtain k s where ls: "load_session (req_now rq) (req_cookie rq) (req_genid rq) (sessions sv) = (k, s)"
    by fastforce
  have "istep md (lift_server sv) ((lift_server sv)\<lparr>isessions := save_session (req_now rq) k s (sessions sv)\<rparr>)"
    using ls istep.other_path [where sv = "lift_server sv" and rq = rq] by (simp add: lift_server_def)
  with other_path ls show ?case by (simp add: app_handle_def lift_server_def)
next
  case (login sv k s u)
  then have "istep md (lift_server sv) ((lift_server sv)\<lparr>isessions := (isessions (lift_server sv))(k \<mapsto> s\<lparr>sessUser := u\<rparr>)\<rparr>)"
    by (intro istep.login) (simp add: lift_server_def)
  then show ?case by (simp add: lift_server_def)
next
  case (expire sv k s now)
  then have "istep md (lift_server sv) ((lift_server sv)\<lparr>isessions := (isessions (lift_server sv))(k := None)\<rparr>)"
    by (intro istep.expire) (simp_all add: lift_server_def)
  then show ?case by (simp add: lift_server_def)
next
  case (signup sv u)
  have "istep md (lift_server sv) ((lift_server sv)\<lparr>istore := snd (createUser u (istore (lift_server sv)))\<rparr>)"
    by (rule istep.signup)
  then show ?case by (simp add: lift_server_def)
qed

lemma ireachable_isteps: "(istep md)\<^sup>*\<^sup>* sv sv' \<Longrightarrow> ireachable md sv \<Longrightarrow> ireachable md sv'"
  by (induction rule: rtranclp_induct) (auto intro: ireachable.step)

lemma reachable_ireachable: "reachable md sv \<Longrightarrow> ireachable md (lift_server sv)"
proof (induction rule: reachable.induct)
  case init
  show ?case by (rule ireachable.init)
next
  case (step sv sv')
  then show ?case by (blast intro: ireachable_isteps server_step_isteps)
qed

section \<open>Properties of interleaved requests\<close>

text \<open>
  C17: a login on a session that has a request in flight is lost. A request in flight
  holds the copy of the session it loaded; with \<open>resave: true\<close> that copy is written back
  when its response ends. A login that lands in between is overwritten: the session's
  user is again the one the request loaded.
\<close>

theorem inflight_request_undoes_login:
  assumes x: "x < length (ijobs sv)" "ijobs sv ! x = j" "job_todo j = []"
    and s: "isessions sv (job_sid j) = Some s"
  shows "\<exists>sv1 sv2. istep md sv sv1 \<and> istep md sv1 sv2 \<and>
           isessions sv1 (job_sid j) = Some (s\<lparr>sessUser := u\<rparr>) \<and>
           map_option sessUser (isessions sv2 (job_sid j)) = Some (sessUser (job_sess j))"
proof -
  let ?sv1 = "sv\<lparr>isessions := (isessions sv)(job_sid j \<mapsto> s\<lparr>sessUser := u\<rparr>)\<rparr>"
  let ?sv2 = "?sv1\<lparr>isessions := save_session (job_now j) (job_sid j) (job_sess j) (isessions ?sv1),
                   ijobs := take x (ijobs ?sv1) @ drop (Suc x) (ijobs ?sv1)\<rparr>"
  have s1: "istep md sv ?sv1" using s by (rule istep.login)
  have s2: "istep md ?sv1 ?sv2" using x by (intro istep.finish) simp_all
  have u1: "isessions ?sv1 (job_sid j) = Some (s\<lparr>sessUser := u\<rparr>)" by simp
  have u2: "map_option sessUser (isessions ?sv2 (job_sid j)) = Some (sessUser (job_sess j))"
    by (simp add: save_session_def)
  from s1 s2 u1 u2 show ?thesis by blast
qed

end
