(* ===== verification/Startup.thy ===== *)
theory Startup
  imports Gateway
begin

text \<open>
  Process start-up and the guards in front of every request. \<open>src/api/index.js\<close> loads
  \<open>.env\<close> into \<open>process.env\<close> (line 10; dotenv never overrides a variable the process
  already has), reads \<open>PORT || 4000\<close> and \<open>DB_HOST\<close> (lines 19-20), gives
  \<open>process.env.SESSION_SECRET\<close> to express-session (line 36), and logs a start-up
  message after \<open>app.listen\<close> (lines 65-69). express-session then guards each request:
  while its store is disconnected it passes the request on with no session; without a
  secret it fails the request. Apollo's context function reads \<open>req.session.user\<close>, so
  a request with no session fails there.
\<close>

type_synonym env = "string \<rightharpoonup> string"

text \<open>\<open>require('dotenv').config()\<close>: the \<open>.env\<close> entries, each unless the process has it already.\<close>

definition dotenv_config :: "env \<Rightarrow> env \<Rightarrow> env" where
  "dotenv_config penv file = file ++ penv"

text \<open>\<open>process.env.X\<close>: a string, or \<open>undefined\<close>.\<close>

definition env_val :: "env \<Rightarrow> string \<Rightarrow> jsval" where
  "env_val e k = (case e k of None \<Rightarrow> JUndef | Some s \<Rightarrow> JStr s)"

record config =
  cfg_port :: jsval
  cfg_db_host :: jsval
  cfg_secret :: jsval

definition startup :: "env \<Rightarrow> env \<Rightarrow> config" where
  "startup penv file =
     (let e = dotenv_config penv file
      in \<lparr>cfg_port = js_or (env_val e ''PORT'') (JNum 4000), cfg_db_host = env_val e ''DB_HOST'',
          cfg_secret = env_val e ''SESSION_SECRET''\<rparr>)"

text \<open>The message of lines 66-68, with \<open>server.graphqlPath\<close> the mount path \<open>/api\<close>.\<close>

definition startup_message :: "config \<Rightarrow> string" where
  "startup_message cfg = ''GraphQL Server running at http://localhost:4000'' @ api_path"

datatype outcome = Reply http_reply | ServerError string | ContextFailed js_error

text \<open>
  One request to the started process. \<open>ready\<close> is the session store's connection state
  (connect-mongo with \<open>autoReconnect\<close>). The guards run in express-session's order:
  store readiness, then the secret. With the store not ready, express-session passes the
  request on without \<open>req.session\<close>; Apollo's context function then runs on
  \<open>undefined\<close>, and when it throws, Apollo answers with the context-creation error.
\<close>

definition app_request ::
  "config \<Rightarrow> bool \<Rightarrow> renderer \<Rightarrow> string \<Rightarrow> request \<Rightarrow> server \<Rightarrow> outcome option \<times> server" where
  "app_request cfg ready md path rq sv =
     (if \<not> ready then
        (if path = api_path then
           (case context_fn JUndef of
              Inl e \<Rightarrow> (Some (ContextFailed e), sv)
            | Inr ctx \<Rightarrow>
                (case run_operation md (req_now rq) ctx (req_op rq) (dataStore sv) of
                   ((d, es), st') \<Rightarrow>
                     (Some (Reply (ApiReply \<lparr>resp_headers = [HelmetHeaders, CorsAllowOrigin],
                                              resp_data = d, resp_errors = es\<rparr>)),
                      sv\<lparr>dataStore := st'\<rparr>)))
         else (Some (Reply NotFound404), sv))
      else if \<not> truthy (cfg_secret cfg) then (Some (ServerError ''secret option required for sessions''), sv)
      else (case app_handle md path rq sv of (r, sv') \<Rightarrow> (map_option Reply r, sv')))"

section \<open>Properties\<close>

lemma app_request_not_ready_api:
  "app_request cfg False md api_path rq sv = (Some (ContextFailed (TypeError ''user'')), sv)"
  by (simp add: app_request_def context_fn_undefined)

lemma env_val_dotenv:
  "env_val (dotenv_config penv file) k =
     (case penv k of Some s \<Rightarrow> JStr s | None \<Rightarrow> env_val file k)"
  by (simp add: env_val_def dotenv_config_def map_add_def split: option.splits)

text \<open>
  C19: a process started with \<open>SESSION_SECRET\<close> neither in its environment nor in
  \<open>.env\<close> (or set to the empty string) answers every request, to any path, with an
  error, and no request changes the sessions or the notes.
\<close>

theorem no_secret_fails_every_request:
  assumes "penv ''SESSION_SECRET'' \<in> {None, Some ''''}"
    and "penv ''SESSION_SECRET'' = None \<Longrightarrow> file ''SESSION_SECRET'' \<in> {None, Some ''''}"
  shows "app_request (startup penv file) True md path rq sv =
           (Some (ServerError ''secret option required for sessions''), sv)"
proof -
  have "\<not> truthy (cfg_secret (startup penv file))"
    unfolding startup_def Let_def config.simps env_val_dotenv
    using assms by (auto simp: env_val_def split: option.splits)
  then show ?thesis by (simp add: app_request_def)
qed

end
