(* ===== verification/CostBound.thy ===== *)
theory CostBound
  imports Gateway
begin

text \<open>
  What the complexity rule's estimate means for the executor: the number of scalar
  values in a response against the cost that \<open>graphql-validation-complexity\<close> gives
  the query. The rule assumes that a list field returns \<open>listFactor\<close> items; when the
  store holds at most that many notes and users, every list the resolvers return is at
  most that long, and the estimate is an upper bound on the scalars of the response.
\<close>

text \<open>The scalar values of a response value (\<open>null\<close> counts as none).\<close>

fun scalars :: "rvalue \<Rightarrow> nat" where
  "scalars VNull = 0"
| "scalars (VStr s) = 1"
| "scalars (VInt i) = 1"
| "scalars (VBool b) = 1"
| "scalars (VList xs) = sum_list (map scalars xs)"
| "scalars (VObj kvs) = sum_list (map (\<lambda>kv. scalars (snd kv)) kvs)"

definition cscalars :: "completion \<Rightarrow> nat" where
  "cscalars c = (case snd c of None \<Rightarrow> 0 | Some v \<Rightarrow> scalars v)"

text \<open>
  A resolved value that fits a field's type as the cost rule assumes: a leaf only for
  a scalar type, an object of the named type, and lists of at most \<open>listFactor\<close> items.
\<close>

fun fits :: "gtype \<Rightarrow> fval \<Rightarrow> bool" where
  "fits (Named n) v =
     (case v of
        FLeaf x \<Rightarrow> \<not> is_object_type n \<and> scalars x \<le> 1
      | FObj ob \<Rightarrow> obj_type ob = n
      | _ \<Rightarrow> True)"
| "fits (ListOf t) v =
     (case v of FList xs \<Rightarrow> length xs \<le> listFactor \<and> list_all (fits t) xs | _ \<Rightarrow> True)"
| "fits (NonNull t) v = fits t v"

definition lists_bounded :: "store \<Rightarrow> bool" where
  "lists_bounded st \<longleftrightarrow> length (noteList st) \<le> listFactor \<and> length (userList st) \<le> listFactor"

text \<open>The scalars of a response's \<open>data\<close>; none when \<open>data\<close> is \<open>null\<close>.\<close>

definition data_scalars :: "(string \<times> rvalue) list option \<Rightarrow> nat" where
  "data_scalars d = (case d of None \<Rightarrow> 0 | Some kvs \<Rightarrow> scalars (VObj kvs))"

section \<open>Lemmas\<close>

lemma typeCost_wrap [simp]:
  "typeCost (ListOf t) = typeCost t" "typeCost (NonNull t) = typeCost t"
  by (simp_all add: typeCost_def)

lemma sum_list_le_length_mult:
  "(\<And>x. x \<in> set xs \<Longrightarrow> g x \<le> b) \<Longrightarrow> sum_list (map g xs) \<le> length xs * b"
  by (induction xs) (auto intro: add_mono)

lemma cscalars_catch_null: "cscalars (catch_null t c) \<le> cscalars c"
  by (auto simp: cscalars_def catch_null_def split: prod.splits option.splits)

lemma cscalars_complete_list: "cscalars (complete_list cs) \<le> sum_list (map cscalars cs)"
proof -
  have "list_all (\<lambda>c. snd c \<noteq> None) cs \<Longrightarrow>
          sum_list (map scalars (map (the \<circ> snd) cs)) = sum_list (map cscalars cs)"
    by (induction cs) (auto simp: cscalars_def)
  then show ?thesis by (simp add: complete_list_def cscalars_def)
qed

lemma leaf_of_fits: "\<not> is_object_type n \<Longrightarrow> fits (Named n) (leaf_of v)"
  by (cases v) auto

lemma complete_fv_bound:
  "fits t v \<Longrightarrow> (\<And>ob. obj_type ob = named_type t \<Longrightarrow> cscalars (sub ob) \<le> C) \<Longrightarrow>
     cscalars (complete_fv f t sub v) \<le> typeCostFactor t * (typeCost t + C)"
proof (induction t arbitrary: v)
  case (Named n)
  then show ?case
    by (cases v) (fastforce simp: cscalars_def typeCost_def scalarCost_def objectCost_def intro: le_SucI)+
next
  case (ListOf t)
  show ?case
  proof (cases v)
    case (FList xs)
    let ?B = "typeCostFactor t * (typeCost t + C)"
    have "cscalars (catch_null t (complete_fv f t sub x)) \<le> ?B" if "x \<in> set xs" for x
    proof -
      have "fits t x" using ListOf.prems(1) that FList by (simp add: list_all_iff)
      then have "cscalars (complete_fv f t sub x) \<le> ?B" using ListOf.IH ListOf.prems(2) by simp
      then show ?thesis using cscalars_catch_null order.trans by blast
    qed
    then have "sum_list (map (\<lambda>x. cscalars (catch_null t (complete_fv f t sub x))) xs) \<le> length xs * ?B"
      by (rule sum_list_le_length_mult)
    also have "\<dots> \<le> listFactor * ?B"
      using ListOf.prems FList by simp
    finally show ?thesis
      using FList cscalars_complete_list [of "map (\<lambda>x. catch_null t (complete_fv f t sub x)) xs"]
      by (simp add: o_def mult.assoc)
  qed (auto simp: cscalars_def)
next
  case (NonNull t)
  then have "cscalars (complete_fv f t sub v) \<le> typeCostFactor t * (typeCost t + C)" by simp
  then show ?case
    by (auto simp: cscalars_def split: prod.splits option.splits rvalue.splits)
qed

lemma length_filter_le_bound: "length xs \<le> b \<Longrightarrow> length (filter P xs) \<le> b"
  using length_filter_le order.trans by blast

lemma resolve_field_fits:
  assumes "lists_bounded st" "field_type (obj_type ob) f = Some t" "resolve_field st ob f = Inr v"
  shows "fits t v"
proof (cases ob)
  case (ONote n)
  with assms show ?thesis
    by (simp add: obj_type_def split: if_splits option.splits)
       (auto simp: obj_type_def field_type_def field_def_of_def schema_defs is_object_type_def list_all_iff
          lists_bounded_def length_filter_le_bound)
next
  case (OUser u)
  with assms show ?thesis
    by (simp add: obj_type_def split: if_splits)
       (auto simp: obj_type_def field_type_def field_def_of_def schema_defs is_object_type_def list_all_iff
          lists_bounded_def length_filter_le_bound leaf_of_fits [simplified fits.simps])
qed

lemma cscalars_field_value:
  "cscalars (obj_value (fst c, map_option (\<lambda>x. [(f, x)]) (snd c))) = cscalars c"
  by (cases "snd c") (simp_all add: cscalars_def obj_value_def)

lemma sel_cost_field_Some:
  "field_type p f = Some t \<Longrightarrow>
     sel_cost (Some p) 1 (Field f args ss) =
       typeCostFactor t * (typeCost t + sels_cost (Some (named_type t)) 1 ss)"
  by (simp add: Let_def sels_cost_factor [of _ "typeCostFactor t"] add_mult_distrib2)

lemma complete_sel_bound:
  "lists_bounded st \<Longrightarrow> cscalars (obj_value (complete_sel st ob s)) \<le> sel_cost (Some (obj_type ob)) 1 s"
  "lists_bounded st \<Longrightarrow> cscalars (obj_value (complete_sels st ob ss)) \<le> sels_cost (Some (obj_type ob)) 1 ss"
proof (induction st ob s and st ob ss rule: complete_sel_complete_sels.induct)
  case (1 st ob f args ss)
  show ?case
  proof (cases "field_type (obj_type ob) f")
    case None
    then show ?thesis by (simp add: cscalars_def obj_value_def Let_def scalarCost_def)
  next
    case (Some t)
    let ?C = "sels_cost (Some (named_type t)) 1 ss"
    let ?sub = "\<lambda>ob'. obj_value (complete_sels st ob' ss)"
    let ?r = "case resolve_field st ob f of Inl e \<Rightarrow> ([e], None) | Inr v \<Rightarrow> complete_fv f t ?sub v"
    have bound: "cscalars ?r \<le> typeCostFactor t * (typeCost t + ?C)"
    proof (cases "resolve_field st ob f")
      case (Inl e)
      then show ?thesis by (simp add: cscalars_def)
    next
      case (Inr v)
      have sub: "cscalars (?sub ob') \<le> ?C" if "obj_type ob' = named_type t" for ob'
        using "1.IH" [OF Some Inr "1.prems", of ob'] unfolding that .
      from Inr show ?thesis
        using complete_fv_bound [OF resolve_field_fits [OF "1.prems" Some Inr] sub] by simp
    qed
    have "cscalars (obj_value (complete_sel st ob (Field f args ss))) = cscalars (catch_null t ?r)"
      by (simp only: complete_sel.simps Some option.case Let_def cscalars_field_value)
    also have "\<dots> \<le> cscalars ?r" by (rule cscalars_catch_null)
    also note bound
    also have "typeCostFactor t * (typeCost t + ?C) = sel_cost (Some (obj_type ob)) 1 (Field f args ss)"
      by (rule sel_cost_field_Some [OF Some, symmetric])
    finally show ?thesis .
  qed
next
  case (2 st ob tc ss)
  then show ?case by (auto simp: cscalars_def obj_value_def)
next
  case (3 st ob)
  then show ?case by (simp add: cscalars_def obj_value_def)
next
  case (4 st ob s ss)
  obtain es r where c: "complete_sel st ob s = (es, r)" by (cases "complete_sel st ob s")
  have "cscalars (obj_value (complete_sels st ob (s # ss)))
          \<le> cscalars (obj_value (complete_sel st ob s)) + cscalars (obj_value (complete_sels st ob ss))"
    by (auto simp: cscalars_def obj_value_def split: prod.splits option.splits)
  also have "\<dots> \<le> sel_cost (Some (obj_type ob)) 1 s + sels_cost (Some (obj_type ob)) 1 ss"
    using "4.IH"(1) [OF "4.prems"] "4.IH"(2) [OF c [symmetric] refl "4.prems"] by (rule add_mono)
  finally show ?case by simp
qed

section \<open>Root fields\<close>

lemma dispatch_query_fits:
  assumes "dispatch md now QueryOp f args ctx st = (r, st')" "lists_bounded st"
  shows "lists_bounded st' \<and>
         (\<forall>v t. r = Inr v \<longrightarrow> field_type ''Query'' f = Some t \<longrightarrow> fits t (fval_of_result v))"
proof -
  consider (s) "f = ''singleNote''" | (a) "f \<noteq> ''singleNote''" "f = ''allNotes''"
    | (m) "f \<noteq> ''singleNote''" "f \<noteq> ''allNotes''" by blast
  then show ?thesis
  proof cases
    case s
    with assms show ?thesis
      by (auto simp: bad_arg_def Query_singleNote_def findNote_def touch_store_def lists_bounded_def
          field_type_def field_def_of_def schema_defs obj_type_def split: option.splits)
  next
    case a
    with assms show ?thesis
      by (auto simp: Query_allNotes_def findAllNotes_def touch_store_def lists_bounded_def
          field_type_def field_def_of_def schema_defs list_all_iff obj_type_def)
  next
    case m
    with assms show ?thesis
      by (auto simp: Query_myNotes_def findNotesBy_def touch_store_def lists_bounded_def Let_def
          field_type_def field_def_of_def schema_defs length_filter_le_bound list_all_iff obj_type_def
          split: if_splits sum.splits)
  qed
qed

lemma complete_root_field_bound:
  assumes "lists_bounded st"
    and "\<forall>v t. r = Inr v \<longrightarrow> field_type (root_type k) f = Some t \<longrightarrow> fits t (fval_of_result v)"
  shows "cscalars (complete_root_field st k f ss r) \<le> sel_cost (Some (root_type k)) 1 (Field f a ss)"
proof (cases "field_type (root_type k) f")
  case None
  then show ?thesis by (simp add: complete_root_field_def cscalars_def Let_def scalarCost_def)
next
  case (Some t)
  let ?sub = "\<lambda>ob. obj_value (complete_sels st ob ss)"
  let ?r = "case r of Inl e \<Rightarrow> ([e], None) | Inr v \<Rightarrow> complete_fv f t ?sub (fval_of_result v)"
  have sub: "cscalars (?sub ob) \<le> sels_cost (Some (named_type t)) 1 ss" if "obj_type ob = named_type t" for ob
    using complete_sel_bound(2) [OF assms(1), of ob ss] unfolding that .
  have "cscalars ?r \<le> typeCostFactor t * (typeCost t + sels_cost (Some (named_type t)) 1 ss)"
  proof (cases r)
    case (Inl e)
    then show ?thesis by (simp add: cscalars_def)
  next
    case (Inr v)
    with assms(2) Some have "fits t (fval_of_result v)" by simp
    from complete_fv_bound [OF this sub] Inr show ?thesis by simp
  qed
  then show ?thesis
    using Some cscalars_catch_null [of t ?r] sel_cost_field_Some [OF Some, of a ss]
    by (simp add: complete_root_field_def)
qed

lemma exec_fields_query_bound:
  "lists_bounded st \<Longrightarrow> exec_fields md now QueryOp ctx fs st = (cs, st') \<Longrightarrow>
     sum_list (map (\<lambda>c. cscalars (snd c)) cs)
       \<le> sum_list (map (\<lambda>(f, a, ss). sel_cost (Some ''Query'') 1 (Field f a ss)) fs)"
proof (induction fs arbitrary: st cs st')
  case Nil
  then show ?case by simp
next
  case (Cons fld fs)
  obtain f a ss where fld: "fld = (f, a, ss)" by (cases fld)
  obtain r st1 where d: "dispatch md now QueryOp f a ctx st = (r, st1)"
    by (cases "dispatch md now QueryOp f a ctx st")
  obtain cs' st2 where e: "exec_fields md now QueryOp ctx fs st1 = (cs', st2)"
    by (cases "exec_fields md now QueryOp ctx fs st1")
  have fit: "lists_bounded st1"
    "\<forall>v t. r = Inr v \<longrightarrow> field_type (root_type QueryOp) f = Some t \<longrightarrow> fits t (fval_of_result v)"
    using dispatch_query_fits [OF d Cons.prems(1)] by (simp_all add: root_type_def)
  from Cons.prems(2) fld d e have "cs = (f, complete_root_field st1 QueryOp f ss r) # cs'"
    by (simp add: Let_def)
  then show ?case
    using complete_root_field_bound [OF fit, of ss a] Cons.IH [OF fit(1) e] fld
    by (simp add: root_type_def)
qed

lemma response_of_scalars:
  "data_scalars (fst (response_of cs)) \<le> sum_list (map (\<lambda>c. cscalars (snd c)) cs)"
proof -
  have "list_all (\<lambda>x. snd (snd x) \<noteq> None) cs \<Longrightarrow>
          sum_list (map (\<lambda>kv. scalars (snd kv)) (map (\<lambda>x. (fst x, the (snd (snd x)))) cs))
            = sum_list (map (\<lambda>c. cscalars (snd c)) cs)"
    by (induction cs) (auto simp: cscalars_def)
  then show ?thesis by (simp add: response_of_def data_scalars_def)
qed

text \<open>
  Merging fields of the same name never costs more than the fields apart: the merged
  field counts its own cost once and the sub-selections of the others.
\<close>

lemma field_cost_append:
  "sel_cost P 1 (Field f a (ss @ ss')) + sel_cost P 1 (Field f a' []) =
     sel_cost P 1 (Field f a ss) + sel_cost P 1 (Field f a' ss')"
  by (simp add: Let_def sels_cost_append)

lemma field_cost_concat:
  "\<forall>x \<in> set xs. fst x = f \<Longrightarrow>
     sel_cost P 1 (Field f a (ss @ concat (map (\<lambda>x. snd (snd x)) xs)))
       \<le> sel_cost P 1 (Field f a ss) + sum_list (map (\<lambda>(f, a, ss). sel_cost P 1 (Field f a ss)) xs)"
proof (induction xs arbitrary: ss)
  case Nil
  then show ?case by simp
next
  case (Cons x xs)
  obtain g b ss' where x: "x = (g, b, ss')" by (cases x)
  with Cons.prems have g: "g = f" by simp
  have "sel_cost P 1 (Field f a ((ss @ ss') @ concat (map (\<lambda>x. snd (snd x)) xs)))
          \<le> sel_cost P 1 (Field f a (ss @ ss')) + sum_list (map (\<lambda>(f, a, ss). sel_cost P 1 (Field f a ss)) xs)"
    using Cons.IH [of "ss @ ss'"] Cons.prems by (simp del: sel_cost.simps)
  moreover have "sel_cost P 1 (Field f a (ss @ ss')) \<le> sel_cost P 1 (Field f a ss) + sel_cost P 1 (Field f b ss')"
    using field_cost_append [of P f a ss ss' b] by linarith
  ultimately show ?case using x g by (simp del: sel_cost.simps)
qed

lemma sum_filter_split_name:
  "f \<notin> set seen \<Longrightarrow>
     sum_list (map (g :: _ \<Rightarrow> nat) (filter (\<lambda>x. fst x \<notin> set seen) xs)) =
       sum_list (map g (filter (\<lambda>x. fst x = f) xs)) + sum_list (map g (filter (\<lambda>x. fst x \<notin> set (f # seen)) xs))"
  by (induction xs) (auto simp: algebra_simps)

lemma merge_fields_cost:
  "sum_list (map (\<lambda>(f, a, ss). sel_cost P 1 (Field f a ss)) (merge_fields seen fs))
     \<le> sum_list (map (\<lambda>(f, a, ss). sel_cost P 1 (Field f a ss)) (filter (\<lambda>x. fst x \<notin> set seen) fs))"
proof (induction seen fs rule: merge_fields.induct)
  case (1 seen)
  then show ?case by simp
next
  case (2 seen f a ss fs)
  show ?case
  proof (cases "f \<in> set seen")
    case True
    with "2.IH"(1) show ?thesis by simp
  next
    case False
    have "sel_cost P 1 (Field f a (ss @ concat (map (\<lambda>x. snd (snd x)) (filter (\<lambda>x. fst x = f) fs))))
            \<le> sel_cost P 1 (Field f a ss)
              + sum_list (map (\<lambda>(f, a, ss). sel_cost P 1 (Field f a ss)) (filter (\<lambda>x. fst x = f) fs))"
      by (rule field_cost_concat) simp
    with False "2.IH"(2) show ?thesis
      by (simp add: sum_filter_split_name [OF False])
  qed
qed

lemma collect_fields_cost:
  "sum_list (map (\<lambda>(f, a, ss). sel_cost (Some t) 1 (Field f a ss)) (collectField t s)) \<le> sel_cost (Some t) 1 s"
  "sum_list (map (\<lambda>(f, a, ss). sel_cost (Some t) 1 (Field f a ss)) (collectFields t ss)) \<le> sels_cost (Some t) 1 ss"
proof (induction t s and t ss rule: collectField_collectFields.induct)
  case (2 t tc ss)
  then show ?case by (cases tc) auto
next
  case (4 t s ss)
  then show ?case by (simp add: add_mono)
qed simp_all

lemma run_query_bound:
  "op_kind op = QueryOp \<Longrightarrow> lists_bounded st \<Longrightarrow>
     data_scalars (fst (fst (run_operation md now ctx op st))) \<le> operation_cost op"
proof (cases "validate op = []")
  case False
  then show ?thesis by (simp add: run_operation_rejected data_scalars_def)
next
  case True
  assume q: "op_kind op = QueryOp" and b: "lists_bounded st"
  let ?fs = "merge_fields [] (collectFields ''Query'' (op_sels op))"
  let ?rf = "\<lambda>(f, a, ss). sel_cost (Some ''Query'') 1 (Field f a ss)"
  obtain cs st' where e: "exec_fields md now QueryOp ctx ?fs st = (cs, st')"
    by (cases "exec_fields md now QueryOp ctx ?fs st")
  have "data_scalars (fst (response_of cs)) \<le> sum_list (map ?rf ?fs)"
    using response_of_scalars [of cs] exec_fields_query_bound [OF b e] by linarith
  also have "\<dots> \<le> sum_list (map ?rf (collectFields ''Query'' (op_sels op)))"
    using merge_fields_cost [of "Some ''Query''" "[]"] by simp
  also have "\<dots> \<le> operation_cost op"
    using collect_fields_cost(2) q by (simp add: operation_cost_def root_type_def)
  finally show ?thesis
    using True q e by (simp add: run_operation_def root_type_def)
qed

lemma handle_request_data:
  "resp_data (fst (handle_request md rq sv)) =
     fst (fst (run_operation md (req_now rq)
        (apollo_context (snd (load_session (req_now rq) (req_cookie rq) (req_genid rq) (sessions sv))))
        (req_op rq) (dataStore sv)))"
  by (simp add: handle_request_def Let_def split: prod.splits)

section \<open>Properties\<close>

text \<open>
  C20: the complexity estimate bounds the response when lists are as long as the rule
  assumes. On a store with at most \<open>listFactor\<close> (10) notes and at most 10 users, the
  \<open>data\<close> of any query operation that does not ask for the schema description
  (\<open>__schema\<close>, \<open>__type\<close>) holds at most as many scalar values as the cost the
  guard computes for it, whatever its nesting, inline fragments, repeated fields and
  \<open>__typename\<close> fields.
\<close>

theorem query_scalars_within_cost:
  "op_kind op = QueryOp \<Longrightarrow> \<not> sels_introspect (op_sels op) \<Longrightarrow> lists_bounded st \<Longrightarrow>
     data_scalars (fst (fst (run_operation md now ctx op st))) \<le> operation_cost op"
  by (rule run_query_bound)

text \<open>
  C21: the guard and the executor together. On a server whose store holds at most 10
  notes and 10 users, the response to any query request that does not ask for the
  schema description carries at most 1000 scalar values: a query the complexity rule
  accepts costs at most 1000, and a rejected one has no \<open>data\<close>.
\<close>

theorem accepted_query_at_most_1000_scalars:
  assumes "op_kind (req_op rq) = QueryOp" "\<not> sels_introspect (op_sels (req_op rq))"
    "lists_bounded (dataStore sv)"
  shows "data_scalars (resp_data (fst (handle_request md rq sv))) \<le> 1000"
proof (cases "validate (req_op rq) = []")
  case True
  then have "operation_cost (req_op rq) \<le> 1000"
    by (simp add: validate_def complexityLimit_def split: if_splits)
  then show ?thesis
    using run_query_bound [OF assms(1,3)] by (simp add: handle_request_data) (rule order.trans)
next
  case False
  then show ?thesis by (simp add: handle_request_data run_operation_rejected data_scalars_def)
qed

end
