(* ===== verification/FragmentCost.thy ===== *)
theory FragmentCost
  imports Fragments
begin

text \<open>
  The complexity rule of graphql-validation-complexity on documents with named
  fragments. The rule visits the document once. A field adds its cost, scaled by the
  list factors of the fields that enclose it, to the calculator of the definition it
  stands in: the operation, or the fragment being visited. A fragment spread records
  its enclosing factor under the fragment's name. The document's cost is
  \<open>calculateCost\<close> of the operation's calculator. That is its own cost plus, for each
  recorded spread, the factor times the cost of the fragment's calculator, computed the
  same way. A spread of an undefined fragment contributes nothing. Each fragment is
  therefore walked once, at factor 1, and scaled at each spread. The reference is the
  cost of the document with every spread inlined: the fragment walked again at the
  spread's factor, under its type condition.
\<close>

text \<open>The type, list factor and cost of a field, as \<open>sel_cost\<close> reads them.\<close>

definition fld_ty :: "string option \<Rightarrow> string \<Rightarrow> gtype option" where
  "fld_ty p f = (case p of None \<Rightarrow> None | Some t \<Rightarrow> field_type t f)"

definition fld_factor :: "gtype option \<Rightarrow> nat" where
  "fld_factor ty = (case ty of None \<Rightarrow> 1 | Some g \<Rightarrow> typeCostFactor g)"

definition fld_cost :: "gtype option \<Rightarrow> nat" where
  "fld_cost ty = (case ty of None \<Rightarrow> scalarCost | Some g \<Rightarrow> typeCost g)"

text \<open>
  A calculator: the cost added directly and the spreads recorded, each with its factor.
  The library sums the factors of one name in an object; a list of entries has the
  same total.
\<close>

type_synonym calc = "nat \<times> (nat \<times> string) list"

fun dsel_calc :: "string option \<Rightarrow> nat \<Rightarrow> dsel \<Rightarrow> calc"
  and dsels_calc :: "string option \<Rightarrow> nat \<Rightarrow> dsel list \<Rightarrow> calc" where
  "dsel_calc p k (DField f args ss) =
     (let ty = fld_ty p f; k' = k * fld_factor ty; sub = dsels_calc (map_option named_type ty) k' ss
      in (k' * fld_cost ty + fst sub, snd sub))"
| "dsel_calc p k (DInline tc ss) = dsels_calc (case tc of None \<Rightarrow> p | Some t \<Rightarrow> Some t) k ss"
| "dsel_calc p k (DSpread n) = (0, [(k, n)])"
| "dsels_calc p k [] = (0, [])"
| "dsels_calc p k (s # ss) =
     (let a = dsel_calc p k s; b = dsels_calc p k ss in (fst a + fst b, snd a @ snd b))"

text \<open>The calculator of a fragment's definition, visited under its type condition.\<close>

definition frag_calc :: "fragment \<Rightarrow> calc" where
  "frag_calc fr = dsels_calc (Some (frag_on fr)) 1 (frag_sels fr)"

text \<open>
  \<open>calculateCost\<close>: the direct cost plus each recorded spread's factor times its
  fragment's cost. On a cycle of spreads the recursion does not end (\<open>None\<close>).
\<close>

partial_function (option) calc_cost :: "fragment list \<Rightarrow> calc \<Rightarrow> nat option" where
  "calc_cost fs c =
     (case snd c of
        [] \<Rightarrow> Some (fst c)
      | e # rest \<Rightarrow>
          do {
            v \<leftarrow> (case frag_lookup fs (snd e) of
                    None \<Rightarrow> Some 0
                  | Some fr \<Rightarrow> calc_cost fs (frag_calc fr));
            calc_cost fs (fst c + fst e * v, rest)
          })"

declare calc_cost.simps [code]

definition doc_cost :: "document \<Rightarrow> nat option" where
  "doc_cost doc = calc_cost (doc_frags doc) (dsels_calc (Some (root_type (doc_kind doc))) 1 (doc_sels doc))"

text \<open>
  \<open>createComplexityLimitRule(maxCost)\<close> on a document: whether the cost is within the
  limit, or \<open>None\<close> when the calculation does not return.
\<close>

definition doc_complexityLimit :: "nat \<Rightarrow> document \<Rightarrow> bool option" where
  "doc_complexityLimit maxCost doc = map_option (\<lambda>c. \<not> maxCost < c) (doc_cost doc)"

text \<open>The reference: the cost of the document with its spreads inlined.\<close>

partial_function (option) inl_cost :: "fragment list \<Rightarrow> string option \<times> nat \<Rightarrow> dsel list \<Rightarrow> nat option" where
  "inl_cost fs pk ss =
     (case ss of
        [] \<Rightarrow> Some 0
      | s # rest \<Rightarrow>
          do {
            a \<leftarrow> (case s of
                    DField f args sub \<Rightarrow>
                      do {
                        b \<leftarrow> inl_cost fs (map_option named_type (fld_ty (fst pk) f),
                                         snd pk * fld_factor (fld_ty (fst pk) f)) sub;
                        Some (snd pk * fld_factor (fld_ty (fst pk) f) * fld_cost (fld_ty (fst pk) f) + b)
                      }
                  | DInline tc sub \<Rightarrow> inl_cost fs (case tc of None \<Rightarrow> fst pk | Some t \<Rightarrow> Some t, snd pk) sub
                  | DSpread n \<Rightarrow>
                      (case frag_lookup fs n of
                         None \<Rightarrow> Some 0
                       | Some fr \<Rightarrow> inl_cost fs (Some (frag_on fr), snd pk) (frag_sels fr)));
            b \<leftarrow> inl_cost fs pk rest;
            Some (a + b)
          })"

declare inl_cost.simps [code]

definition doc_cost_inlined :: "document \<Rightarrow> nat option" where
  "doc_cost_inlined doc = inl_cost (doc_frags doc) (Some (root_type (doc_kind doc)), 1) (doc_sels doc)"

text \<open>Every spread of a selection set, below fields too.\<close>

fun all_spreads :: "dsel list \<Rightarrow> string list" where
  "all_spreads [] = []"
| "all_spreads (DField f args sub # ss) = all_spreads sub @ all_spreads ss"
| "all_spreads (DInline tc sub # ss) = all_spreads sub @ all_spreads ss"
| "all_spreads (DSpread n # ss) = n # all_spreads ss"

text \<open>
  A ranking under which every spread in a fragment, at any depth, names a defined
  fragment of smaller rank: there is no cycle of spreads (graphql-js's
  \<open>NoFragmentCycles\<close>).
\<close>

definition frags_acyclic :: "(string \<Rightarrow> nat) \<Rightarrow> fragment list \<Rightarrow> bool" where
  "frags_acyclic rk fs \<longleftrightarrow>
     (\<forall>fr \<in> set fs. \<forall>n \<in> set (all_spreads (frag_sels fr)).
        frag_lookup fs n \<noteq> None \<longrightarrow> rk n < rk (frag_name fr))"

text \<open>The value of a calculator with the fragments' costs unfolded \<open>r\<close> levels deep.\<close>

fun calc_val :: "fragment list \<Rightarrow> nat \<Rightarrow> calc \<Rightarrow> nat" where
  "calc_val fs r c =
     fst c + sum_list (map (\<lambda>e. fst e *
        (case frag_lookup fs (snd e) of
           None \<Rightarrow> 0
         | Some fr \<Rightarrow> (case r of 0 \<Rightarrow> 0 | Suc r' \<Rightarrow> calc_val fs r' (frag_calc fr)))) (snd c))"

text \<open>A calculator visited under an enclosing factor \<open>k\<close>.\<close>

definition scale :: "nat \<Rightarrow> calc \<Rightarrow> calc" where
  "scale k c = (k * fst c, map (\<lambda>e. (k * fst e, snd e)) (snd c))"

section \<open>Lemmas\<close>

text \<open>The calculator is linear in the enclosing factor.\<close>

lemma dsels_calc_scale_from:
  "(\<And>s q i. s \<in> set ss \<Longrightarrow> dsel_calc q (k * i) s = scale k (dsel_calc q i s)) \<Longrightarrow>
     dsels_calc q (k * i) ss = scale k (dsels_calc q i ss)"
  by (induction ss arbitrary: q i) (simp_all add: Let_def scale_def add_mult_distrib2)

lemma dsel_calc_scale: "dsel_calc p (k * j) s = scale k (dsel_calc p j s)"
proof (induction s arbitrary: p j)
  case (DField f args ss)
  from dsels_calc_scale_from [OF DField.IH, where i = "j * fld_factor (fld_ty p f)"] show ?case
    by (simp add: Let_def scale_def mult.assoc add_mult_distrib2)
next
  case (DInline tc ss)
  from dsels_calc_scale_from [OF DInline.IH] show ?case by simp
next
  case (DSpread n)
  then show ?case by (simp add: scale_def)
qed

lemma dsels_calc_scale: "dsels_calc p (k * j) ss = scale k (dsels_calc p j ss)"
  by (induction ss) (simp_all add: Let_def dsel_calc_scale scale_def add_mult_distrib2)

lemma calc_val_scale: "calc_val fs r (scale k c) = k * calc_val fs r c"
  by (simp add: scale_def add_mult_distrib2 o_def sum_list_const_mult mult.assoc)

text \<open>The spreads a calculator records are the spreads of the selection set, in order.\<close>

lemma spreads_calc: "map snd (snd (dsels_calc p k ss)) = all_spreads ss"
  by (induction ss arbitrary: p k rule: all_spreads.induct) (simp_all add: Let_def)

lemma calc_spread_in: "e \<in> set (snd (dsels_calc p k ss)) \<Longrightarrow> snd e \<in> set (all_spreads ss)"
proof -
  assume "e \<in> set (snd (dsels_calc p k ss))"
  then have "snd e \<in> set (map snd (snd (dsels_calc p k ss)))" by simp
  then show ?thesis by (simp only: spreads_calc)
qed

text \<open>\<open>calculateCost\<close> over a list of recorded spreads whose fragments' costs are known.\<close>

lemma calc_cost_entries:
  assumes "\<forall>e \<in> set sps. case frag_lookup fs (snd e) of
             None \<Rightarrow> True | Some fr \<Rightarrow> calc_cost fs (frag_calc fr) = Some (V fr)"
  shows "calc_cost fs (i, sps) =
           Some (i + sum_list (map (\<lambda>e. fst e * (case frag_lookup fs (snd e) of None \<Rightarrow> 0 | Some fr \<Rightarrow> V fr)) sps))"
  using assms
proof (induction sps arbitrary: i)
  case Nil
  then show ?case by (subst calc_cost.simps) simp
next
  case (Cons e sps)
  then show ?case
    by (subst calc_cost.simps) (auto simp: add.assoc split: option.splits)
qed

lemma frag_calc_below:
  assumes "frags_acyclic rk fs" "frag_lookup fs n = Some fr" "e \<in> set (snd (frag_calc fr))"
    and "frag_lookup fs (snd e) \<noteq> None"
  shows "rk (snd e) < rk n"
proof -
  have "snd e \<in> set (all_spreads (frag_sels fr))"
    using assms(3) unfolding frag_calc_def by (rule calc_spread_in)
  moreover have "fr \<in> set fs" "frag_name fr = n" using frag_lookup_Some [OF assms(2)] by simp_all
  ultimately show ?thesis using assms(1,4) unfolding frags_acyclic_def by blast
qed

text \<open>On acyclic fragments \<open>calculateCost\<close> returns the value of the calculator.\<close>

lemma calc_cost_val:
  "frags_acyclic rk fs \<Longrightarrow> \<forall>e \<in> set (snd c). frag_lookup fs (snd e) \<noteq> None \<longrightarrow> rk (snd e) < r \<Longrightarrow>
     calc_cost fs c = Some (calc_val fs r c)"
proof (induction r arbitrary: c)
  case 0
  have "\<forall>e \<in> set (snd c). case frag_lookup fs (snd e) of None \<Rightarrow> True
          | Some fr \<Rightarrow> calc_cost fs (frag_calc fr) = Some ((\<lambda>fr. case 0 of 0 \<Rightarrow> 0 | Suc r' \<Rightarrow> calc_val fs r' (frag_calc fr)) fr)"
    using "0.prems"(2) by (auto split: option.split)
  from calc_cost_entries [OF this, of "fst c"] show ?case by simp
next
  case (Suc r)
  have "\<forall>e \<in> set (snd c). case frag_lookup fs (snd e) of None \<Rightarrow> True
          | Some fr \<Rightarrow> calc_cost fs (frag_calc fr) = Some (calc_val fs r (frag_calc fr))"
  proof (intro ballI, split option.split, intro conjI impI allI)
    fix e fr assume e: "e \<in> set (snd c)" and l: "frag_lookup fs (snd e) = Some fr"
    with Suc.prems(2) have "rk (snd e) < Suc r" by simp
    then have "\<forall>e' \<in> set (snd (frag_calc fr)). frag_lookup fs (snd e') \<noteq> None \<longrightarrow> rk (snd e') < r"
      using frag_calc_below [OF Suc.prems(1) l] by fastforce
    then show "calc_cost fs (frag_calc fr) = Some (calc_val fs r (frag_calc fr))"
      by (rule Suc.IH [OF Suc.prems(1)])
  qed simp
  from calc_cost_entries [OF this, of "fst c"] show ?case by (simp cong: option.case_cong)
qed

text \<open>On acyclic fragments the inlined walk returns the value of the calculator too.\<close>

lemma inl_cost_val:
  "frags_acyclic rk fs \<Longrightarrow> \<forall>n \<in> set (all_spreads ss). frag_lookup fs n \<noteq> None \<longrightarrow> rk n < r \<Longrightarrow>
     inl_cost fs (p, k) ss = Some (calc_val fs r (dsels_calc p k ss))"
proof (induction r arbitrary: p k ss rule: less_induct)
  case (less r)
  note outer = less.IH and acyc = less.prems(1)
  from less.prems(2) show ?case
  proof (induction ss arbitrary: p k rule: all_spreads.induct)
    case 1
    then show ?case by (subst inl_cost.simps) simp
  next
    case (2 f args sub ss)
    then show ?case
      by (subst inl_cost.simps)
         (simp add: Let_def fld_ty_def)
  next
    case (3 tc sub ss)
    then show ?case
      by (subst inl_cost.simps) (cases tc; simp add: Let_def)
  next
    case (4 n ss)
    have rest: "inl_cost fs (p, k) ss = Some (calc_val fs r (dsels_calc p k ss))"
      using 4 by simp
    show ?case
    proof (cases "frag_lookup fs n")
      case None
      then show ?thesis
        by (subst inl_cost.simps) (simp add: rest Let_def)
    next
      case (Some fr)
      with "4.prems" obtain r' where r: "r = Suc r'" and nr: "rk n \<le> r'"
        by (cases r) auto
      have below: "\<forall>m \<in> set (all_spreads (frag_sels fr)). frag_lookup fs m \<noteq> None \<longrightarrow> rk m < r'"
        using acyc frag_lookup_Some [OF Some] nr unfolding frags_acyclic_def by fastforce
      have "inl_cost fs (Some (frag_on fr), k) (frag_sels fr) = Some (k * calc_val fs r' (frag_calc fr))"
        using outer [of r' "frag_sels fr" "Some (frag_on fr)" k] r acyc below
          dsels_calc_scale [of "Some (frag_on fr)" k 1 "frag_sels fr"]
        by (simp add: frag_calc_def calc_val_scale [symmetric] del: calc_val.simps)
      with Some r show ?thesis
        by (subst inl_cost.simps) (simp add: rest Let_def)
    qed
  qed
qed

lemma inl_cost_Nil: "inl_cost fs pk [] = Some 0"
  by (subst inl_cost.simps) simp

lemma inl_cost_Cons:
  "inl_cost fs pk (s # rest) = do { a \<leftarrow> inl_cost fs pk [s]; b \<leftarrow> inl_cost fs pk rest; Some (a + b) }"
  by (subst (1 2) inl_cost.simps) (simp add: inl_cost_Nil)

text \<open>On a query without spreads both walks give \<open>QueryGuard\<close>'s cost.\<close>

lemma inl_cost_of_sel:
  "inl_cost fs (p, k) [of_sel s] = Some (sel_cost p k s)"
  "inl_cost fs (p, k) (map of_sel ss) = Some (sels_cost p k ss)"
proof (induction p k s and p k ss rule: sel_cost_sels_cost.induct)
  case (1 p k f args ss)
  then show ?case
    by (subst inl_cost.simps) (simp add: inl_cost_Nil fld_ty_def fld_factor_def fld_cost_def Let_def)
next
  case (2 p k tc ss)
  then show ?case
    by (subst inl_cost.simps) (cases tc; simp add: inl_cost_Nil)
next
  case (3 p k)
  then show ?case by (simp add: inl_cost_Nil)
next
  case (4 p k s ss)
  then show ?case unfolding list.map by (subst inl_cost_Cons) simp
qed

lemma dsels_calc_of_sel:
  "dsel_calc p k (of_sel s) = (sel_cost p k s, [])"
  "dsels_calc p k (map of_sel ss) = (sels_cost p k ss, [])"
  by (induction p k s and p k ss rule: sel_cost_sels_cost.induct)
     (auto simp: Let_def fld_ty_def fld_factor_def fld_cost_def split: option.splits)

text \<open>The rank bound that covers every defined fragment.\<close>

lemma frag_rank_bound:
  assumes "frag_lookup fs n = Some fr"
  shows "rk n < Suc (sum_list (map (\<lambda>fr. rk (frag_name fr)) fs))"
proof -
  from frag_lookup_Some [OF assms] have "rk n \<in> set (map (\<lambda>fr. rk (frag_name fr)) fs)" by force
  from member_le_sum_list [OF this] show ?thesis by simp
qed

section \<open>Properties\<close>

text \<open>
  C22: on a document whose fragments have no spread cycle, the library's calculation
  returns, and it returns the cost of the document with its fragments inlined; the
  rule's verdict compares that cost with the limit.
  Walking each fragment once at factor 1 and scaling it at each spread loses nothing,
  because the cost is linear in the enclosing factor.
\<close>

theorem doc_cost_inlined_eq:
  assumes "frags_acyclic rk (doc_frags doc)"
  shows "\<exists>c. doc_cost doc = Some c \<and> doc_cost_inlined doc = Some c \<and>
           doc_complexityLimit m doc = Some (c \<le> m)"
proof -
  let ?fs = "doc_frags doc" and ?p = "Some (root_type (doc_kind doc))"
  let ?r = "Suc (sum_list (map (\<lambda>fr. rk (frag_name fr)) ?fs))"
  have below: "\<forall>n \<in> set (all_spreads (doc_sels doc)). frag_lookup ?fs n \<noteq> None \<longrightarrow> rk n < ?r"
    using frag_rank_bound by blast
  have "\<forall>e \<in> set (snd (dsels_calc ?p 1 (doc_sels doc))). frag_lookup ?fs (snd e) \<noteq> None \<longrightarrow> rk (snd e) < ?r"
    using below calc_spread_in by blast
  from calc_cost_val [OF assms this] inl_cost_val [OF assms below, of ?p 1] show ?thesis
    by (simp add: doc_cost_def doc_cost_inlined_def doc_complexityLimit_def not_less)
qed

end
