(* ===== verification/Spec2Isabelle.thy ===== *)
theory Spec2Isabelle
  imports Gateway Fragments Interleaving Startup CostBound FragmentCost
begin

text \<open>
  \<^bold>\<open>A verification model of the Notedly GraphQL API.\<close>

  \<^bold>\<open>The program.\<close> \<open>src/api/index.js\<close> builds one Express application: helmet and
  cors middleware (lines 28-29), express-session with a MongoDB store, \<open>resave\<close> and
  \<open>saveUninitialized\<close> on and a two-week cookie (lines 32-43), and an Apollo server
  (lines 51-62) with the schema of \<open>src/api/schema.js\<close>, the validation rules
  \<open>depthLimit(5)\<close> and \<open>createComplexityLimitRule(1000)\<close> (line 54) and a context
  function that puts \<open>req.session.user || ''\<close> next to the models (lines 55-59); the
  HTTP server times sockets out after 5000 ms (line 72). The resolvers of
  \<open>src/api/resolvers/Mutation.js\<close> render Markdown with \<open>marked\<close> and call the note
  model: \<open>newNote\<close> refuses callers without a user, \<open>updateNote\<close> and \<open>deleteNote\<close>
  do not look at the caller. The schema's \<open>toggleReaction\<close> has no resolver.

  \<^bold>\<open>The theories.\<close>
  \<^item> \<open>Prelude\<close>: JavaScript values (\<open>jsval\<close>) and the ECMAScript operations the source
    applies to them (\<open>truthy\<close> for \<open>!\<close>, \<open>js_or\<close> for \<open>||\<close>, \<open>js_get\<close> for property
    access, \<open>js_destructure\<close> for \<open>({ db, user })\<close>, \<open>js_keys\<close>), the error
    taxonomy \<open>gql_error\<close> of spec section 7, shared lemmas.
  \<^item> \<open>Schema\<close>: \<open>schema.js\<close> as data: type references \<open>gtype\<close>, the field tables
    \<open>Note_fields\<close>, \<open>User_fields\<close>, \<open>Query_fields\<close>, \<open>Mutation_fields\<close>, and lookups.
  \<^item> \<open>NoteStore\<close>: the note model \<open>models/note\<close> (not under \<open>src/\<close>, modelled from the
    spec): the \<open>Note\<close> record, the \<open>store\<close> (notes in insertion order, next id, an
    access counter, the users collection), \<open>insertNote\<close>, \<open>updateNote\<close>,
    \<open>deleteNote\<close>, the reads, and the users collection's \<open>createUser\<close>; the
    invariants \<open>html_inv\<close> (every \<open>htmlContent\<close> is the render of its \<open>content\<close>) and
    \<open>ids_inv\<close>; the abstraction \<open>note_map\<close> to a map from ids to notes, with the
    refinement lemmas \<open>insertNote_refines\<close>, \<open>updateNote_refines\<close>,
    \<open>deleteNote_refines\<close>.
  \<^item> \<open>Session\<close>: express-session (\<open>load_session\<close>, \<open>save_session\<close>,
    \<open>cookie_maxAge\<close>) and the Apollo context function, on a loaded session
    (\<open>apollo_context\<close>) and on the raw \<open>req.session\<close> value (\<open>context_fn\<close>, which
    throws on \<open>undefined\<close>); the identity a context carries (\<open>identity_of\<close>).
  \<^item> \<open>Resolvers\<close>: \<open>Mutation_newNote\<close>, \<open>Mutation_updateNote\<close>, \<open>Mutation_deleteNote\<close>
    translate \<open>Mutation.js\<close>; \<open>Mutation_toggleReaction\<close> is what the schema field
    without a resolver does; \<open>Query_singleNote\<close>, \<open>Query_allNotes\<close> and
    \<open>Query_myNotes\<close> are modelled from spec 4.4.
  \<^item> \<open>QueryGuard\<close>: the operation syntax (\<open>selection\<close>, \<open>operation\<close>), graphql-depth-limit
    (\<open>determineDepth\<close>), graphql-validation-complexity (\<open>sel_cost\<close>), graphql-js's
    known-field rule with the introspection meta-fields (\<open>sel_known\<close>), and
    \<open>validate\<close>, the rules of line 54.
  \<^item> \<open>Fragments\<close>: documents with named fragments (\<open>dsel\<close>, \<open>fragment\<close>,
    \<open>document\<close>) and graphql-depth-limit's walk over them (\<open>dl_depths\<close>, \<open>doc_depth\<close>),
    which follows spreads without remembering where it has been. Because that walk need
    not return, it is a \<open>partial_function (option)\<close>: \<open>None\<close> is "no verdict ever". The
    theory proves it returns under a ranking of the fragments and diverges on a spread
    cycle through no field.
  \<^item> \<open>Completion\<close>: graphql-js's \<open>completeValue\<close> for the schema: the \<open>Note\<close> and
    \<open>User\<close> field resolvers of spec 4.4 (\<open>resolve_field\<close>: \<open>author\<close> with its
    \<open>DanglingReference\<close> error, \<open>favoriteCount\<close>, \<open>favoritedBy\<close>, \<open>User.notes\<close>,
    \<open>User.favorites\<close>), the meta-field \<open>__typename\<close>, completion of values against
    their types (\<open>complete_fv\<close>) and of selection sets (\<open>complete_sels\<close>), and null
    propagation (\<open>catch_null\<close>): a null in a non-null position nulls the parent, up to
    the nearest nullable field. The lemmas show that a propagated null always carries an
    error (\<open>explained\<close>).
  \<^item> \<open>Gateway\<close>: dispatch of root fields to resolvers, field collection, serial execution
    and null propagation (\<open>run_operation\<close>), one request through the middleware
    (\<open>handle_request\<close>), the socket timeout (\<open>serve\<close>), the mount at \<open>/api\<close> with the
    session middleware in front of every path (\<open>app_handle\<close>), and the server as a state
    machine (\<open>server_step\<close>, \<open>reachable\<close>) whose steps are requests (to \<open>/api\<close> or
    elsewhere), the login route writing \<open>req.session.user\<close>, session expiry, and account
    creation by the auth subsystem (\<open>signup\<close>). Runs of requests are \<open>serve_all\<close>;
    \<open>active_run\<close> says a run keeps a session in use.
  \<^item> \<open>Interleaving\<close>: the server at the grain of the event loop. A request is a
    \<open>job\<close> that holds the session copy it loaded and its remaining root fields. Steps
    start a job, run one root field of any job, finish a job (saving its session copy),
    serve another path, log in, expire a session, or create an account (\<open>istep\<close>,
    \<open>ireachable\<close>). \<open>lift_server\<close> embeds the atomic server, and each atomic step is
    a run of interleaved steps (\<open>server_step_isteps\<close>).
  \<^item> \<open>Startup\<close>: the top of \<open>index.js\<close>. \<open>dotenv\<close> loads \<open>.env\<close> under the process
    environment (\<open>dotenv_config\<close>, a map override), and \<open>startup\<close> reads \<open>PORT || 4000\<close>,
    \<open>DB_HOST\<close> and \<open>SESSION_SECRET\<close> into a \<open>config\<close>. \<open>startup_message\<close> is the
    listen callback's log line. \<open>app_request\<close> puts express-session's two guards in front
    of \<open>app_handle\<close>: a store that is not yet connected (no \<open>req.session\<close>, so
    \<open>context_fn\<close> throws) and a missing secret.
  \<^item> \<open>CostBound\<close>: what the complexity rule's estimate means for the executor. It counts
    the scalar values of a response (\<open>scalars\<close>, \<open>data_scalars\<close>). It names the values a
    resolver may return for a field's type when no list is longer than the rule's list
    factor (\<open>fits\<close>, \<open>lists_bounded\<close>). It bounds the response by the cost: first a
    field's completion, then a selection set, a root field, merged root fields, and the
    whole operation.
  \<^item> \<open>FragmentCost\<close>: the complexity rule on documents with named fragments, as the
    library computes it. There is one calculator per definition (\<open>dsel_calc\<close>,
    \<open>frag_calc\<close>), and \<open>calculateCost\<close> scales each fragment's cost at its spreads
    (\<open>calc_cost\<close>, \<open>doc_cost\<close>). Beside it stands the reference walk that inlines every
    spread (\<open>inl_cost\<close>). Both are partial functions: on a cycle of spreads neither returns.
  \<^item> This theory: sample inputs, the properties that span components, and a witness for
    every property with a hypothesis.

  \<^bold>\<open>How the model corresponds to the code.\<close> Each resolver takes the GraphQL arguments,
  the context object and the note store, and returns the field's value or error with the
  new store; the renderer \<open>md\<close> (marked with \<open>sanitize: true\<close>) is a parameter, a pure
  function \<open>string \<Rightarrow> string\<close>, as spec section 9 asks. Note ids are natural
  numbers and ID arguments arrive as numbers. Time is the request's \<open>req_now\<close> in
  milliseconds; how long a request took is the environment's \<open>req_elapsed\<close>. No loop
  of the model needs fuel: every recursion is structural on a selection tree or a list,
  except the walks over fragment spreads. These are partial functions. For the depth walk,
  termination is a theorem (C14) and divergence on spread cycles is another (C15). The
  cost calculation and its inlined reference return on acyclic documents (C22). In the
  proof of C22, \<open>calc_val\<close> unfolds fragments to a depth of one more than the sum of
  the ranks, which is more than any chain of spreads can reach.

  \<^bold>\<open>What is proved.\<close>
  \<^item> Store invariants: every stored note's \<open>htmlContent\<close> is the render of its
    \<open>content\<close> in every reachable state (C1).
  \<^item> The resolvers on every branch: anonymous \<open>newNote\<close> is refused with no store
    access (C2); \<open>newNote\<close> appends a note under the fresh next id (C3);
    \<open>updateNote\<close> re-renders (C4) or fails with \<open>NotFound\<close> (C5); \<open>deleteNote\<close>
    removes (C6); \<open>updateNote\<close> and \<open>deleteNote\<close> ignore the caller (C7).
  \<^item> The guard: an operation past the configured depth or cost limits, or with an
    unknown field, touches no store (C8); the depth rule is exactly "nesting at most
    5" (C9).
  \<^item> Sessions: an active session never expires, however long the run of requests,
    as long as no two of them are two weeks apart (C10); every request without a cookie,
    at any path, stores a new two-week session (C18); a login on a session with a
    request in flight is undone when that request ends (C17).
  \<^item> Responses: null propagation of a failed \<open>updateNote\<close> nulls the whole
    \<open>data\<close> (C11); a \<open>data: null\<close> response always carries an error (C12); one note
    whose author has no user record nulls the whole \<open>allNotes { author { name } }\<close>
    answer (C13).
  \<^item> Named fragments: the depth rule returns on every document with ranked fragments
    (C14) and never returns on a spread cycle through no field (C15); the complexity
    rule gives the cost of the inlined document on acyclic ones (C22).
  \<^item> Safety of the deployment: from every state, anonymous requests can delete every
    note (C16); without a \<open>SESSION_SECRET\<close> every request fails (C19).
  \<^item> Cost against response size: when the store holds at most ten notes and ten users,
    the \<open>data\<close> of a query that does not ask for the schema description has at most as
    many scalars as its estimated cost (C20), so every such query request gets at most
    1000 scalars back (C21).
  Supporting lemmas show that the cost is linear in the enclosing list factor
  (\<open>sels_cost_factor\<close>), that field collection runs each root field once
  (\<open>collected_fields_once\<close>), that \<open>validate\<close> accepts exactly the operations
  within the limits (\<open>validate_accepts_iff\<close>), and that the atomic server is an
  abstraction of the interleaved one (\<open>server_step_isteps\<close>).

  \<^bold>\<open>Not modelled.\<close> What remains lies outside \<open>src/\<close> or is I/O:
  \<^item> \<open>marked\<close>: the sanitiser is a library the code only calls. Its one line of
    configuration (\<open>Mutation.js\<close> line 1) is the renderer parameter \<open>md\<close>, and every
    theorem holds for any renderer.
  \<^item> Authentication: passport strategies and the credential checks of the auth routes
    are not under \<open>src/\<close>. Only their effects on the core are steps: an account created
    (\<open>signup\<close>, \<open>NoteStore.createUser\<close>) and a write of \<open>req.session.user\<close>
    (\<open>login\<close>). The users collection starts empty, and no step removes a user.
  \<^item> Start-up I/O: the connection attempt of \<open>db.connect\<close> (\<open>db.js\<close>, not under
    \<open>src/\<close>) and the socket of \<open>app.listen\<close>. Their observable effects are modelled:
    store readiness as \<open>app_request\<close>'s \<open>ready\<close> flag, and the port as \<open>cfg_port\<close>.
  \<^item> Library internals: MongoDB and connect-mongo, and helmet's individual headers.
  \<^item> Introspection: validation accepts the meta-fields as graphql-js does, and
    \<open>__typename\<close> is executed. The schema description that \<open>__schema\<close> and \<open>__type\<close>
    return is not modelled: the executor answers them with \<open>null\<close>, and the cost model
    prices them as fields of unknown type, not with the library's introspection list
    factor. C20 and C21 are stated for queries without them.
  \<^item> Execution of named fragments: only the two validation rules see named fragments.
    Execution runs on the inlined operation. Variables and aliases are not modelled:
    arguments are literals, and a field answers under its own name.
  Concurrency between requests is modelled twice: as the interleaving of whole requests
  (\<open>server_step\<close>) and at the grain of root fields (\<open>istep\<close>). The finer model also
  runs the fields of a query one at a time, where graphql-js starts them all before
  awaiting any.
\<close>

section \<open>Sample inputs\<close>

text \<open>A stand-in renderer: a heading for \<open># \<close>-lines, a paragraph otherwise.\<close>

definition sample_md :: renderer where
  "sample_md s = (if take 2 s = ''# '' then ''<h1>'' @ drop 2 s @ ''</h1>'' else ''<p>'' @ s @ ''</p>'')"

definition anon_session :: session where
  "anon_session = \<lparr>sessUser = JUndef, sessExpires = 0\<rparr>"

definition session_of :: "string \<Rightarrow> session" where
  "session_of u = \<lparr>sessUser = JObj [(''id'', JStr u)], sessExpires = 100\<rparr>"

definition one_note_store :: store where
  "one_note_store = \<lparr>noteList = [\<lparr>noteId = 0, content = ''a'', htmlContent = ''<p>a</p>'',
      author = JStr ''U'', favoritedBy = [], createdAt = 0, updatedAt = 0\<rparr>], nextId = 1, accesses = 0,
      userList = [\<lparr>userId = JStr ''U'', userName = JStr ''Ursula'', userAvatar = JNull\<rparr>]\<rparr>"

definition newNote_op :: "string \<Rightarrow> operation" where
  "newNote_op c = \<lparr>op_kind = MutationOp,
     op_sels = [Field ''newNote'' [(''content'', JStr c)] [Field ''id'' [] []]]\<rparr>"

definition updateNote_op :: "nat \<Rightarrow> string \<Rightarrow> operation" where
  "updateNote_op i c = \<lparr>op_kind = MutationOp,
     op_sels = [Field ''updateNote'' [(''id'', JNum (int i)), (''content'', JStr c)] [Field ''id'' [] []]]\<rparr>"

text \<open>Seven levels of nesting through \<open>author\<close> and \<open>notes\<close>.\<close>

definition deep_query :: operation where
  "deep_query = \<lparr>op_kind = QueryOp, op_sels =
     [Field ''singleNote'' [(''id'', JNum 0)] [Field ''author'' [] [Field ''notes'' [] [Field ''author'' []
        [Field ''notes'' [] [Field ''author'' [] [Field ''notes'' [] [Field ''id'' [] []]]]]]]]]\<rparr>"

definition rq_first :: request where
  "rq_first = \<lparr>req_now = 1, req_cookie = None, req_genid = ''s1'', req_op = newNote_op ''a'',
     req_elapsed = 10\<rparr>"

definition rq_second :: request where
  "rq_second = \<lparr>req_now = 2, req_cookie = Some ''s1'', req_genid = ''s2'', req_op = newNote_op ''# Hi'',
     req_elapsed = 10\<rparr>"

definition rq_deep :: request where
  "rq_deep = \<lparr>req_now = 3, req_cookie = None, req_genid = ''s3'', req_op = deep_query, req_elapsed = 10\<rparr>"

text \<open>Every note with its author's name.\<close>

definition author_query :: operation where
  "author_query = \<lparr>op_kind = QueryOp,
     op_sels = [Field ''allNotes'' [] [Field ''author'' [] [Field ''name'' [] []]]]\<rparr>"

text \<open>\<open>mutation { deleteNote(id: i) }\<close> from a client without a session cookie.\<close>

definition deleteNote_op :: "nat \<Rightarrow> operation" where
  "deleteNote_op i = \<lparr>op_kind = MutationOp, op_sels = [Field ''deleteNote'' [(''id'', JNum (int i))] []]\<rparr>"

definition anon_delete_rq :: "nat \<Rightarrow> request" where
  "anon_delete_rq i = \<lparr>req_now = 0, req_cookie = None, req_genid = ''anon'', req_op = deleteNote_op i,
     req_elapsed = 0\<rparr>"

text \<open>
  An interleaved state: session \<open>s1\<close> is stored, and a request that loaded it while it
  was still anonymous has run its fields and is about to end its response.
\<close>

definition inflight_job :: job where
  "inflight_job = \<lparr>job_sid = ''s1'', job_sess = fresh_session 1, job_now = 2, job_kind = QueryOp,
     job_ctx = apollo_context (fresh_session 1), job_todo = [], job_done = []\<rparr>"

definition inflight_server :: iserver where
  "inflight_server = \<lparr>isessions = [''s1'' \<mapsto> fresh_session 1], istore = empty_store,
     ijobs = [inflight_job]\<rparr>"

text \<open>
  Two documents with named fragments: \<open>{ ...Loop } fragment Loop on Query { __typename
  ...Loop }\<close>, a spread cycle through no field, and \<open>{ allNotes { author { ...A } } }
  fragment A on User { notes { author { ...A } } }\<close>, a cycle through fields.
\<close>

definition loop_frag :: fragment where
  "loop_frag = \<lparr>frag_name = ''Loop'', frag_on = ''Query'',
     frag_sels = [DField ''__typename'' [] [], DSpread ''Loop'']\<rparr>"

definition loop_doc :: document where
  "loop_doc = \<lparr>doc_kind = QueryOp, doc_sels = [DSpread ''Loop''], doc_frags = [loop_frag]\<rparr>"

definition author_frag :: fragment where
  "author_frag = \<lparr>frag_name = ''A'', frag_on = ''User'',
     frag_sels = [DField ''notes'' [] [DField ''author'' [] [DSpread ''A'']]]\<rparr>"

definition author_doc :: document where
  "author_doc = \<lparr>doc_kind = QueryOp,
     doc_sels = [DField ''allNotes'' [] [DField ''author'' [] [DSpread ''A'']]], doc_frags = [author_frag]\<rparr>"

text \<open>Every note's id.\<close>

definition ids_query :: operation where
  "ids_query = \<lparr>op_kind = QueryOp, op_sels = [Field ''allNotes'' [] [Field ''id'' [] []]]\<rparr>"

text \<open>
  A document with two fragments and no cycle: \<open>{ allNotes { ...NoteBits } } fragment
  NoteBits on Note { id author { ...UserBits } } fragment UserBits on User { name }\<close>.
\<close>

definition userbits_frag :: fragment where
  "userbits_frag = \<lparr>frag_name = ''UserBits'', frag_on = ''User'', frag_sels = [DField ''name'' [] []]\<rparr>"

definition notebits_frag :: fragment where
  "notebits_frag = \<lparr>frag_name = ''NoteBits'', frag_on = ''Note'',
     frag_sels = [DField ''id'' [] [], DField ''author'' [] [DSpread ''UserBits'']]\<rparr>"

definition bits_doc :: document where
  "bits_doc = \<lparr>doc_kind = QueryOp, doc_sels = [DField ''allNotes'' [] [DSpread ''NoteBits'']],
     doc_frags = [notebits_frag, userbits_frag]\<rparr>"

text \<open>A run: a first request opens session \<open>s1\<close>, user \<open>U\<close> logs in, a second request creates a note.\<close>

definition sv_first :: "renderer \<Rightarrow> server" where
  "sv_first md = snd (serve md rq_first init_server)"

definition sv_login :: "renderer \<Rightarrow> server" where
  "sv_login md = (sv_first md)\<lparr>sessions := (sessions (sv_first md))
     (''s1'' \<mapsto> fresh_session 1\<lparr>sessUser := JObj [(''id'', JStr ''U'')]\<rparr>)\<rparr>"

definition sv_second :: "renderer \<Rightarrow> server" where
  "sv_second md = snd (serve md rq_second (sv_login md))"

text \<open>A query with \<open>__typename\<close> at the root and below a list.\<close>

definition typename_query :: operation where
  "typename_query = \<lparr>op_kind = QueryOp, op_sels =
     [Field ''__typename'' [] [], Field ''allNotes'' [] [Field ''id'' [] [], Field ''__typename'' [] []]]\<rparr>"

text \<open>A logged-in session that expires at 1209600001 ms, and visits with its cookie.\<close>

definition kept_session :: session where
  "kept_session = \<lparr>sessUser = JObj [(''id'', JStr ''U'')], sessExpires = 1209600001\<rparr>"

definition active_server :: server where
  "active_server = \<lparr>sessions = [''s1'' \<mapsto> kept_session], dataStore = one_note_store\<rparr>"

definition visit :: "nat \<Rightarrow> request" where
  "visit t = \<lparr>req_now = t, req_cookie = Some ''s1'', req_genid = ''g'', req_op = ids_query, req_elapsed = 10\<rparr>"

section \<open>Evaluations of the samples\<close>

lemma validate_newNote_op: "validate (newNote_op c) = []"
  by (simp add: newNote_op_def guard_eval)

lemma validate_updateNote_op: "validate (updateNote_op i c) = []"
  by (simp add: updateNote_op_def guard_eval)

lemma deep_query_rejected: "validate deep_query = [ValidationRejected ''exceeds maximum operation depth of 5'']"
  by (simp add: deep_query_def guard_eval)

lemma validate_author_query: "validate author_query = []"
  by (simp add: author_query_def guard_eval)

lemma run_author_query:
  "run_operation md now ctx author_query st =
     (response_of [(''allNotes'', complete_root_field (touch_store st) QueryOp ''allNotes''
         [Field ''author'' [] [Field ''name'' [] []]] (Inr (RNotes (rev (noteList st)))))],
      touch_store st)"
  unfolding run_operation_def validate_author_query
  by (simp add: author_query_def root_type_def Query_allNotes_def findAllNotes_def)

lemma validate_deleteNote_op: "validate (deleteNote_op i) = []"
  by (simp add: deleteNote_op_def guard_eval)

lemma run_deleteNote_op_notes:
  "noteList (snd (run_operation md now (apollo_context s) (deleteNote_op i) st)) =
     filter (\<lambda>n. noteId n \<noteq> i) (noteList st)"
  unfolding run_operation_def validate_deleteNote_op
  by (simp add: deleteNote_op_def root_type_def arg_id_def Mutation_deleteNote_eq deleteNote_def
      touch_store_def note_find_None Let_def split: prod.splits)

lemma serve_anon_delete_notes:
  "noteList (dataStore (snd (serve md (anon_delete_rq i) sv))) =
     filter (\<lambda>n. noteId n \<noteq> i) (noteList (dataStore sv))"
  by (simp add: serve_state handle_request_state anon_delete_rq_def run_deleteNote_op_notes
      split: prod.splits)

lemma validate_ids_query: "validate ids_query = []"
  by (simp add: ids_query_def guard_eval)

lemma run_typename_query:
  "fst (run_operation sample_md 0 JUndef typename_query one_note_store) =
     (Some [(''__typename'', VStr ''Query''),
            (''allNotes'', VList [VObj [(''id'', VInt 0), (''__typename'', VStr ''Note'')]])], [])"
  by (simp add: run_operation_def typename_query_def guard_eval one_note_store_def Query_allNotes_def
      findAllNotes_def touch_store_def response_of_def complete_root_field_def catch_null_def
      complete_list_def obj_value_def obj_type_def)

lemma cost_ids_query: "operation_cost ids_query = 10"
  by (simp add: ids_query_def guard_eval)

lemma run_ids_query:
  "run_operation md now ctx ids_query st =
     (response_of [(''allNotes'', complete_root_field (touch_store st) QueryOp ''allNotes''
         [Field ''id'' [] []] (Inr (RNotes (rev (noteList st)))))],
      touch_store st)"
  unfolding run_operation_def validate_ids_query
  by (simp add: ids_query_def root_type_def Query_allNotes_def findAllNotes_def)

lemma run_newNote_op_store:
  "snd (run_operation md now ctx (newNote_op c) st) = snd (Mutation_newNote md now c ctx st)"
  unfolding run_operation_def validate_newNote_op
  by (simp add: newNote_op_def root_type_def arg_str_def Let_def split: prod.splits)

lemma sv_first_eq:
  "sv_first md = \<lparr>sessions = [''s1'' \<mapsto> fresh_session 1], dataStore = empty_store\<rparr>"
  by (simp add: sv_first_def serve_state handle_request_state rq_first_def init_server_def
      load_session_def save_session_def fresh_session_def run_newNote_op_store Mutation_newNote_def
      js_or_def)


lemma sv_second_notes:
  "noteList (dataStore (sv_second md)) =
     [\<lparr>noteId = 0, content = ''# Hi'', htmlContent = md ''# Hi'', author = JStr ''U'',
       favoritedBy = [], createdAt = 2, updatedAt = 2\<rparr>]"
  by (simp add: sv_second_def sv_login_def sv_first_eq serve_state handle_request_state rq_second_def
      load_session_def fresh_session_def cookie_maxAge_def run_newNote_op_store
      Mutation_newNote_auth insertNote_def touch_store_def empty_store_def Let_def)

lemma sv_second_users: "userList (dataStore (sv_second md)) = []"
  by (simp add: sv_second_def sv_login_def sv_first_eq serve_state handle_request_state rq_second_def
      load_session_def fresh_session_def cookie_maxAge_def run_newNote_op_store
      Mutation_newNote_auth insertNote_def touch_store_def empty_store_def Let_def)

lemma reachable_sv_second: "reachable md (sv_second md)"
proof -
  have "reachable md (sv_first md)" unfolding sv_first_def
    by (rule reachable.step [OF reachable.init step_serve])
  moreover have "server_step md (sv_first md) (sv_login md)" unfolding sv_login_def
    by (rule server_step.login) (simp add: sv_first_eq)
  ultimately have "reachable md (sv_login md)" by (rule reachable.step)
  then show ?thesis unfolding sv_second_def by (rule reachable.step [OF _ step_serve])
qed

section \<open>Properties across components\<close>

text \<open>
  C11: an \<open>updateNote\<close> operation on an id that does not resolve answers with
  \<open>data: null\<close>: the field's type \<open>Note!\<close> is non-null, so the \<open>NotFound\<close> error
  propagates to the root, and the stored notes are unchanged.
\<close>

theorem updateNote_missing_nulls_data:
  assumes "note_map st i = None"
  shows "fst (run_operation md now (apollo_context s) (updateNote_op i c) st) = (None, [NotFound]) \<and>
         noteList (snd (run_operation md now (apollo_context s) (updateNote_op i c) st)) = noteList st"
proof -
  from assms have "note_find i (noteList st) = None" by (simp add: note_map_find)
  then show ?thesis
    unfolding run_operation_def validate_updateNote_op
    by (simp add: updateNote_op_def root_type_def arg_str_def arg_id_def Mutation_updateNote_eq
        updateNote_def complete_root_field_def catch_null_def response_of_def field_type_def
        field_def_of_def schema_defs)
qed

text \<open>
  C13: \<open>newNote\<close> stores the session's \<open>user.id\<close> as the author without checking that
  a user with that id exists. Once the store holds one note whose author has no user
  record, the query \<open>allNotes { author { name } }\<close> answers every client with
  \<open>data: null\<close> and a \<open>DanglingReference\<close> error: \<open>author\<close> is \<open>User!\<close> and the list
  items are \<open>Note!\<close>, so the null climbs to the root.
\<close>

theorem dangling_author_nulls_allNotes:
  assumes "n \<in> set (noteList st)" and "user_find (author n) (userList st) = None"
  shows "fst (fst (run_operation md now ctx author_query st)) = None \<and>
         DanglingReference \<in> set (snd (fst (run_operation md now ctx author_query st)))"
proof -
  let ?ss = "[Field ''author'' [] [Field ''name'' [] []]]"
  let ?sub = "\<lambda>ob. obj_value (complete_sels (touch_store st) ob ?ss)"
  let ?item = "\<lambda>x. catch_null (NonNull (Named ''Note'')) (complete_fv ''allNotes'' (NonNull (Named ''Note'')) ?sub x)"
  let ?xs = "map (\<lambda>n. FObj (ONote n)) (rev (noteList st))"
  have "complete_sels (touch_store st) (ONote n) ?ss = ([DanglingReference], None)"
    using assms(2) by (intro complete_dangling_author) (simp add: touch_store_def)
  then have c: "?item (FObj (ONote n)) = ([DanglingReference], None)"
    by (simp add: obj_value_def catch_null_def)
  have "FObj (ONote n) \<in> set ?xs"
    using assms(1) by simp
  then have "?item (FObj (ONote n)) \<in> set (map ?item ?xs)"
    by (simp only: set_map) (erule imageI)
  then have "([DanglingReference], None) \<in> set (map ?item ?xs)"
    by (simp only: c)
  from complete_list_null [OF this] obtain es where L: "complete_list (map ?item ?xs) = (es, None)"
      and "set [DanglingReference] \<subseteq> set es"
    by (elim exE conjE)
  then have e: "DanglingReference \<in> set es" by simp
  have F: "complete_fv ''allNotes'' (NonNull (ListOf (NonNull (Named ''Note'')))) ?sub (FList ?xs) = (es, None)"
    by (rule complete_fv_list_null [OF L])
  have "complete_root_field (touch_store st) QueryOp ''allNotes'' ?ss (Inr (RNotes (rev (noteList st)))) = (es, None)"
    unfolding complete_root_field_def root_type_def op_kind.case field_type_Query_allNotes option.case sum.case
      fval_of_result.simps F
    by (simp add: catch_null_def)
  with e show ?thesis by (simp add: run_author_query response_of_def)
qed

text \<open>
  C16: whatever state the server is in, a run of requests from clients without a session
  (anonymous ones) deletes every note: \<open>deleteNote\<close> checks no identity, so erasing the
  store stays possible from every state.
\<close>

theorem anyone_can_empty_store:
  "\<exists>rqs. list_all (\<lambda>rq. req_cookie rq = None) rqs \<and> (server_step md)\<^sup>*\<^sup>* sv (serve_all md rqs sv) \<and>
     noteList (dataStore (serve_all md rqs sv)) = []"
proof (induction "length (noteList (dataStore sv))" arbitrary: sv rule: less_induct)
  case less
  show ?case
  proof (cases "noteList (dataStore sv)")
    case Nil
    then show ?thesis
      using serve_all_steps [of md sv "[]"] by (intro exI [of _ "[]"]) (simp add: serve_all_def)
  next
    case (Cons n ns)
    let ?sv1 = "snd (serve md (anon_delete_rq (noteId n)) sv)"
    have "length (noteList (dataStore ?sv1)) < length (noteList (dataStore sv))"
      using Cons by (simp add: serve_anon_delete_notes le_imp_less_Suc)
    from less [OF this] obtain rqs where r: "list_all (\<lambda>rq. req_cookie rq = None) rqs"
      "noteList (dataStore (serve_all md rqs ?sv1)) = []" by blast
    have "serve_all md (anon_delete_rq (noteId n) # rqs) sv = serve_all md rqs ?sv1"
      by (simp add: serve_all_def)
    with r serve_all_steps [of md sv "anon_delete_rq (noteId n) # rqs"] show ?thesis
      by (intro exI [of _ "anon_delete_rq (noteId n) # rqs"]) (simp add: anon_delete_rq_def)
  qed
qed

section \<open>Witnesses\<close>

theorem reachable_html_sanitized_witness:
  "reachable sample_md (sv_second sample_md) \<and>
   hd (noteList (dataStore (sv_second sample_md))) \<in> set (noteList (dataStore (sv_second sample_md))) \<and>
   htmlContent (hd (noteList (dataStore (sv_second sample_md)))) = ''<h1>Hi</h1>''"
proof -
  have r: "reachable sample_md (sv_second sample_md)" by (rule reachable_sv_second)
  have m: "hd (noteList (dataStore (sv_second sample_md))) \<in> set (noteList (dataStore (sv_second sample_md)))"
    by (simp add: sv_second_notes)
  from reachable_html_sanitized [OF r m] r m show ?thesis
    by (simp add: sv_second_notes sample_md_def)
qed

theorem newNote_anonymous_refused_witness:
  "\<not> truthy (sessUser anon_session) \<and>
   Mutation_newNote sample_md 0 ''hi'' (apollo_context anon_session) one_note_store = (Inr RNull, one_note_store)"
proof -
  have h: "\<not> truthy (sessUser anon_session)" by (simp add: anon_session_def)
  show ?thesis using h newNote_anonymous_refused [OF h, of sample_md 0 "''hi''" one_note_store] by simp
qed

theorem newNote_creates_note_witness:
  "truthy (sessUser (session_of ''U'')) \<and> js_get (sessUser (session_of ''U'')) ''id'' = Inr (JStr ''U'') \<and>
   ids_inv one_note_store \<and>
   (\<exists>n st'. Mutation_newNote sample_md 5 ''# Hi'' (apollo_context (session_of ''U'')) one_note_store
        = (Inr (RNote n), st') \<and> noteId n = 1 \<and>
      author n = JStr ''U'' \<and> content n = ''# Hi'' \<and> htmlContent n = sample_md ''# Hi'' \<and>
      noteList st' = noteList one_note_store @ [n] \<and> nextId st' = 2)"
proof -
  have h: "truthy (sessUser (session_of ''U''))"
    "js_get (sessUser (session_of ''U'')) ''id'' = Inr (JStr ''U'')"
    "ids_inv one_note_store"
    by (simp_all add: session_of_def ids_inv_def one_note_store_def)
  have "nextId one_note_store = 1" by (simp add: one_note_store_def)
  then show ?thesis using h newNote_creates_note [OF h, of sample_md 5 "''# Hi''"] by auto
qed

theorem updateNote_rerenders_witness:
  "note_map one_note_store 0 = Some (hd (noteList one_note_store)) \<and>
   (\<exists>n' st'. Mutation_updateNote sample_md 5 0 ''b'' (apollo_context anon_session) one_note_store
      = (Inr (RNote n'), st') \<and> content n' = ''b'' \<and> htmlContent n' = sample_md ''b'' \<and>
      author n' = JStr ''U'' \<and> note_map st' = (note_map one_note_store)(0 \<mapsto> n'))"
proof -
  have h: "note_map one_note_store 0 = Some (hd (noteList one_note_store))"
    by (simp add: one_note_store_def note_map_def)
  show ?thesis using h updateNote_rerenders [OF h, of sample_md 5 "''b''" anon_session]
    by (simp add: one_note_store_def)
qed

theorem updateNote_not_found_witness:
  "note_map one_note_store 7 = None \<and>
   (\<exists>st'. Mutation_updateNote sample_md 5 7 ''b'' (apollo_context anon_session) one_note_store
      = (Inl NotFound, st') \<and> noteList st' = noteList one_note_store \<and> nextId st' = nextId one_note_store)"
proof -
  have h: "note_map one_note_store 7 = None" by (simp add: one_note_store_def note_map_def)
  show ?thesis using h updateNote_not_found [OF h, of sample_md 5 "''b''" anon_session] by simp
qed


theorem session_active_never_expires_witness:
  "sessions active_server ''s1'' = Some kept_session \<and>
   active_run ''s1'' (sessExpires kept_session) [visit 1000000000, visit 2000000000, visit 3000000000] \<and>
   sessions (serve_all sample_md [visit 1000000000, visit 2000000000, visit 3000000000] active_server) ''s1''
     = Some (kept_session\<lparr>sessExpires := 4209600000\<rparr>)"
proof -
  have h1: "sessions active_server ''s1'' = Some kept_session" by (simp add: active_server_def)
  have h2: "active_run ''s1'' (sessExpires kept_session) [visit 1000000000, visit 2000000000, visit 3000000000]"
    by (simp add: kept_session_def visit_def cookie_maxAge_def)
  show ?thesis
    using h1 h2 session_active_never_expires [OF h1 h2, of sample_md]
    by (simp add: visit_def cookie_maxAge_def)
qed

theorem updateNote_missing_nulls_data_witness:
  "note_map one_note_store 7 = None \<and>
   fst (run_operation sample_md 5 (apollo_context anon_session) (updateNote_op 7 ''b'') one_note_store)
     = (None, [NotFound])"
proof -
  have h: "note_map one_note_store 7 = None" by (simp add: one_note_store_def note_map_def)
  show ?thesis using h updateNote_missing_nulls_data [OF h, of sample_md 5 anon_session "''b''"] by simp
qed

theorem null_data_has_error_witness:
  "fst (serve sample_md rq_deep init_server) =
     Some \<lparr>resp_headers = [HelmetHeaders, CorsAllowOrigin, SetCookie ''s3''], resp_data = None,
           resp_errors = [ValidationRejected ''exceeds maximum operation depth of 5'']\<rparr> \<and>
   resp_errors \<lparr>resp_headers = [HelmetHeaders, CorsAllowOrigin, SetCookie ''s3''], resp_data = None,
           resp_errors = [ValidationRejected ''exceeds maximum operation depth of 5'']\<rparr> \<noteq> []"
proof -
  have h: "fst (serve sample_md rq_deep init_server) =
     Some \<lparr>resp_headers = [HelmetHeaders, CorsAllowOrigin, SetCookie ''s3''], resp_data = None,
           resp_errors = [ValidationRejected ''exceeds maximum operation depth of 5'']\<rparr>"
    by (simp add: serve_def handle_request_def run_operation_rejected deep_query_rejected rq_deep_def
        server_timeout_def init_server_def load_session_def Let_def)
  show ?thesis using h null_data_has_error [OF h] by simp
qed

theorem dangling_author_nulls_allNotes_witness:
  "hd (noteList (dataStore (sv_second sample_md))) \<in> set (noteList (dataStore (sv_second sample_md))) \<and>
   user_find (author (hd (noteList (dataStore (sv_second sample_md))))) (userList (dataStore (sv_second sample_md)))
     = None \<and>
   fst (fst (run_operation sample_md 3 (apollo_context (session_of ''V'')) author_query
     (dataStore (sv_second sample_md)))) = None"
proof -
  have h1: "hd (noteList (dataStore (sv_second sample_md))) \<in> set (noteList (dataStore (sv_second sample_md)))"
    by (simp add: sv_second_notes)
  have h2: "user_find (author (hd (noteList (dataStore (sv_second sample_md))))) (userList (dataStore (sv_second sample_md)))
     = None"
    by (simp add: sv_second_users user_find_def)
  show ?thesis
    using h1 h2 dangling_author_nulls_allNotes [OF h1 h2, of sample_md 3 "apollo_context (session_of ''V'')"]
    by blast
qed

theorem doc_depth_returns_witness:
  "frags_ranked (\<lambda>n. 0) (doc_frags author_doc) \<and> doc_depth 5 author_doc = Some DepthReported"
proof -
  have h: "frags_ranked (\<lambda>n. 0) (doc_frags author_doc)"
    by (simp add: frags_ranked_def author_doc_def author_frag_def)
  have "doc_depth 5 author_doc = Some DepthReported"
    by (simp add: doc_depth_def author_doc_def author_frag_def frag_lookup_def is_meta_field_def
        dl_depths.simps)
  with h doc_depth_returns [OF h, of 5] show ?thesis by simp
qed

theorem doc_depth_cycle_diverges_witness:
  "spread_cycle (doc_frags loop_doc) [''Loop''] \<and> lead_spread (doc_sels loop_doc) = Some ''Loop'' \<and>
   ''Loop'' \<in> set [''Loop''] \<and> doc_depth 5 loop_doc = None"
proof -
  have h1: "spread_cycle (doc_frags loop_doc) [''Loop'']"
    by (simp add: spread_cycle_def loop_doc_def loop_frag_def frag_lookup_def is_meta_field_def)
  have h2: "lead_spread (doc_sels loop_doc) = Some ''Loop''" by (simp add: loop_doc_def)
  have h3: "''Loop'' \<in> set [''Loop'']" by simp
  show ?thesis using h1 h2 h3 doc_depth_cycle_diverges [OF h1 h2 h3, of 5] by simp
qed

theorem inflight_request_undoes_login_witness:
  "0 < length (ijobs inflight_server) \<and> ijobs inflight_server ! 0 = inflight_job \<and>
   job_todo inflight_job = [] \<and> isessions inflight_server (job_sid inflight_job) = Some (fresh_session 1) \<and>
   (\<exists>sv1 sv2. istep sample_md inflight_server sv1 \<and> istep sample_md sv1 sv2 \<and>
      isessions sv1 ''s1'' = Some ((fresh_session 1)\<lparr>sessUser := JObj [(''id'', JStr ''U'')]\<rparr>) \<and>
      map_option sessUser (isessions sv2 ''s1'') = Some JUndef)"
proof -
  have h1: "0 < length (ijobs inflight_server)" by (simp add: inflight_server_def)
  have h2: "ijobs inflight_server ! 0 = inflight_job" by (simp add: inflight_server_def)
  have h3: "job_todo inflight_job = []" by (simp add: inflight_job_def)
  have h4: "isessions inflight_server (job_sid inflight_job) = Some (fresh_session 1)"
    by (simp add: inflight_server_def inflight_job_def)
  show ?thesis
    using h1 h2 h3 h4 inflight_request_undoes_login [OF h1 h2 h3 h4, of sample_md "JObj [(''id'', JStr ''U'')]"]
    by (simp add: inflight_job_def fresh_session_def)
qed

theorem cookieless_request_stores_session_witness:
  "req_cookie rq_first = None \<and>
   sessions (snd (app_handle sample_md ''/favicon.ico'' rq_first init_server)) = [''s1'' \<mapsto> fresh_session 1]"
proof -
  have h: "req_cookie rq_first = None" by (simp add: rq_first_def)
  show ?thesis
    using h cookieless_request_stores_session [OF h, of sample_md "''/favicon.ico''" init_server]
    by (simp add: rq_first_def init_server_def)
qed

theorem no_secret_fails_every_request_witness:
  "(Map.empty :: env) ''SESSION_SECRET'' \<in> {None, Some ''''} \<and>
   app_request (startup Map.empty Map.empty) True sample_md api_path rq_first init_server =
     (Some (ServerError ''secret option required for sessions''), init_server)"
proof -
  have h1: "(Map.empty :: env) ''SESSION_SECRET'' \<in> {None, Some ''''}" by simp
  have h2: "(Map.empty :: env) ''SESSION_SECRET'' = None \<Longrightarrow> (Map.empty :: env) ''SESSION_SECRET'' \<in> {None, Some ''''}"
    by simp
  show ?thesis using h1 no_secret_fails_every_request [OF h1 h2, of sample_md api_path rq_first init_server]
    by simp
qed

theorem query_scalars_within_cost_witness:
  "op_kind typename_query = QueryOp \<and> \<not> sels_introspect (op_sels typename_query) \<and>
   lists_bounded one_note_store \<and>
   data_scalars (fst (fst (run_operation sample_md 0 JUndef typename_query one_note_store)))
     \<le> operation_cost typename_query"
proof -
  have q: "op_kind typename_query = QueryOp" "\<not> sels_introspect (op_sels typename_query)"
    by (simp_all add: typename_query_def)
  have b: "lists_bounded one_note_store" by (simp add: lists_bounded_def one_note_store_def listFactor_def)
  show ?thesis using query_scalars_within_cost [OF q b, of sample_md 0 JUndef] q b by blast
qed

theorem accepted_query_at_most_1000_scalars_witness:
  "op_kind (req_op rq_deep) = QueryOp \<and> \<not> sels_introspect (op_sels (req_op rq_deep)) \<and>
   lists_bounded (dataStore \<lparr>sessions = Map.empty, dataStore = one_note_store\<rparr>) \<and>
   data_scalars (resp_data (fst (handle_request sample_md rq_deep \<lparr>sessions = Map.empty, dataStore = one_note_store\<rparr>))) \<le> 1000"
proof -
  have q: "op_kind (req_op rq_deep) = QueryOp" "\<not> sels_introspect (op_sels (req_op rq_deep))"
    by (simp_all add: rq_deep_def deep_query_def)
  have b: "lists_bounded (dataStore \<lparr>sessions = Map.empty, dataStore = one_note_store\<rparr>)"
    by (simp add: lists_bounded_def one_note_store_def listFactor_def)
  show ?thesis using accepted_query_at_most_1000_scalars [OF q b, of sample_md] q b by blast
qed

theorem doc_cost_inlined_eq_witness:
  "frags_acyclic (\<lambda>n. if n = ''NoteBits'' then 1 else 0) (doc_frags bits_doc) \<and>
   (\<exists>c. doc_cost bits_doc = Some c \<and> doc_cost_inlined bits_doc = Some c \<and>
      doc_complexityLimit 1000 bits_doc = Some (c \<le> 1000))"
proof -
  have h: "frags_acyclic (\<lambda>n. if n = ''NoteBits'' then 1 else 0) (doc_frags bits_doc)"
    by (simp add: frags_acyclic_def bits_doc_def notebits_frag_def userbits_frag_def frag_lookup_def)
  show ?thesis using doc_cost_inlined_eq [OF h, of 1000] h by blast
qed


end
